(* ===== verification/UniRTOS_Prelude.thy ===== *)
theory UniRTOS_Prelude
  imports Main "HOL-Library.Word"
begin

text \<open>
  Shared vocabulary of the development.

  \<^item> C data: machine integers, C strings in buffers (\<open>c_str\<close>, \<open>snprintf_buf\<close>, \<open>strncpy_buf\<close>) and
    the number formats of \<^verbatim>\<open>printf\<close> the sources use.
  \<^item> Undefined behaviour as a value (\<open>ub\<close>) and the outcome of one iteration of a task loop
    (\<open>outcome\<close>).
  \<^item> The interface \<open>event_loop\<close>: every task of the repository is a loop that waits for a
    message and dispatches it. What one iteration keeps is kept by every run; the locale is
    interpreted on each component's own handler.
\<close>

section \<open>Collections of facts\<close>

named_theorems c_string "facts about C strings and formatted output"
named_theorems env_defs "definitions of the environment hypotheses"

section \<open>Machine types\<close>

type_synonym u8 = "8 word"
type_synonym u16 = "16 word"
type_synonym u32 = "32 word"

text \<open>A C expression that reads outside its object or through \<^verbatim>\<open>NULL\<close> has no meaning; the model
  returns which rule was broken.\<close>

datatype ub = Null_dereference | Out_of_bounds | Use_after_free | Uninitialised

type_synonym 'a c_result = "ub + 'a"

text \<open>Sequencing of steps that may be undefined, and the array accesses of C.\<close>

fun c_bind :: "'a c_result \<Rightarrow> ('a \<Rightarrow> 'b c_result) \<Rightarrow> 'b c_result" where
  "c_bind (Inl u) f = Inl u"
| "c_bind (Inr x) f = f x"

definition c_nth :: "'a list \<Rightarrow> nat \<Rightarrow> 'a c_result" where
  "c_nth xs i = (if i < length xs then Inr (xs ! i) else Inl Out_of_bounds)"

definition c_store :: "'a list \<Rightarrow> nat \<Rightarrow> 'a \<Rightarrow> 'a list c_result" where
  "c_store xs i x = (if i < length xs then Inr (xs[i := x]) else Inl Out_of_bounds)"

lemma c_bind_eq_Inr: "c_bind m f = Inr y \<longleftrightarrow> (\<exists>x. m = Inr x \<and> f x = Inr y)"
  by (cases m) auto

lemma c_bind_eq_Inl: "c_bind m f = Inl u \<longleftrightarrow> m = Inl u \<or> (\<exists>x. m = Inr x \<and> f x = Inl u)"
  by (cases m) auto

lemma c_nth_in [simp]: "i < length xs \<Longrightarrow> c_nth xs i = Inr (xs ! i)"
  by (simp add: c_nth_def)

lemma c_store_in [simp]: "i < length xs \<Longrightarrow> c_store xs i x = Inr (xs[i := x])"
  by (simp add: c_store_def)


section \<open>C strings\<close>

abbreviation NUL :: char where
  "NUL \<equiv> CHR 0x00"

text \<open>What \<^verbatim>\<open>strlen\<close>, \<^verbatim>\<open>strcpy\<close> and \<^verbatim>\<open>%s\<close> see of a buffer: the bytes before the first NUL.\<close>

definition c_str :: "string \<Rightarrow> string" where
  "c_str b = takeWhile (\<lambda>c. c \<noteq> NUL) b"

definition terminated :: "string \<Rightarrow> bool" where
  "terminated b \<longleftrightarrow> NUL \<in> set b"

text \<open>\<^verbatim>\<open>snprintf(buf, n, ...)\<close>: at most \<open>n - 1\<close> bytes of the text reach the buffer, then a NUL.\<close>

definition snprintf_buf :: "nat \<Rightarrow> string \<Rightarrow> string" where
  "snprintf_buf n t = take (n - 1) t"

text \<open>\<^verbatim>\<open>strncpy(dst, src, n)\<close>: exactly \<open>n\<close> bytes of \<open>dst\<close> are written, padded with NUL; nothing is
  terminated when the source has \<open>n\<close> bytes or more.\<close>

definition strncpy_buf :: "string \<Rightarrow> string \<Rightarrow> nat \<Rightarrow> string" where
  "strncpy_buf dst src n = take n (c_str src @ replicate n NUL) @ drop n dst"

lemma c_str_no_nul [simp, c_string]: "NUL \<notin> set s \<Longrightarrow> c_str s = s"
  by (auto simp: c_str_def takeWhile_eq_all_conv)

lemma nul_notin_c_str [simp, c_string]: "NUL \<notin> set (c_str s)"
  by (auto simp: c_str_def dest: set_takeWhileD)

lemma c_str_idem [simp]: "c_str (c_str s) = c_str s"
  by simp

lemma length_c_str [c_string]: "length (c_str s) \<le> length s"
  by (simp add: c_str_def length_takeWhile_le)

lemma c_str_append_nul [simp, c_string]: "NUL \<notin> set s \<Longrightarrow> c_str (s @ NUL # t) = s"
  by (induction s) (auto simp: c_str_def)

lemma c_str_padded [simp, c_string]: "NUL \<notin> set s \<Longrightarrow> c_str (s @ replicate k NUL) = s"
  by (cases k) simp_all

lemma c_str_Nil [simp]: "c_str [] = []"
  by (simp add: c_str_def)

lemma snprintf_fits [simp, c_string]: "length t < n \<Longrightarrow> snprintf_buf n t = t"
  by (simp add: snprintf_buf_def)

lemma snprintf_length [c_string]: "0 < n \<Longrightarrow> length (snprintf_buf n t) < n"
  by (simp add: snprintf_buf_def)

lemma strncpy_length [simp, c_string]: "n \<le> length dst \<Longrightarrow> length (strncpy_buf dst src n) = length dst"
  by (simp add: strncpy_buf_def)

text \<open>A source shorter than the bound is copied and terminated.\<close>

lemma strncpy_short:
  assumes "length (c_str src) < n"
  shows "terminated (strncpy_buf dst src n) \<and> c_str (strncpy_buf dst src n) = c_str src"
proof -
  obtain k where k: "n - length (c_str src) = Suc k"
    using assms by (cases "n - length (c_str src)") auto
  have "strncpy_buf dst src n = c_str src @ NUL # replicate k NUL @ drop n dst"
    using assms k take_replicate [of "Suc k" n NUL] by (simp add: strncpy_buf_def min_absorb1)
  then show ?thesis
    by (simp add: terminated_def)
qed

text \<open>A longer source fills the \<open>n\<close> bytes without a terminator: whether the buffer is a C string
  depends on the bytes that were behind.\<close>

lemma strncpy_long:
  assumes "n \<le> length (c_str src)"
  shows "terminated (strncpy_buf dst src n) \<longleftrightarrow> terminated (drop n dst)"
proof -
  have "strncpy_buf dst src n = take n (c_str src) @ drop n dst"
    using assms by (simp add: strncpy_buf_def)
  moreover have "NUL \<notin> set (take n (c_str src))"
    by (meson in_set_takeD nul_notin_c_str)
  ultimately show ?thesis
    by (auto simp: terminated_def)
qed

section \<open>Counters of machine width\<close>

text \<open>A counter below another value of its width does not wrap when it is incremented.\<close>

lemma unat_plus_one_less: "x < y \<Longrightarrow> unat (x + 1) = Suc (unat x)" for x y :: "'a :: len word"
  by unat_arith

section \<open>Folds and tables\<close>

text \<open>What every step of a fold leaves alone, the fold leaves alone.\<close>

lemma drop_split: "drop p xs = take n (drop p xs) @ drop (p + n) xs"
  by (simp add: add.commute flip: drop_drop)

lemma fold_frame: "(\<And>x s. f (g x s) = f s) \<Longrightarrow> f (fold g xs s) = f s"
  by (induction xs arbitrary: s) simp_all

text \<open>Counting the entries with a property after one entry is replaced.\<close>

lemma count_list_update:
  "i < length xs \<Longrightarrow>
   int (length (filter P (xs[i := x]))) =
   int (length (filter P xs)) - of_bool (P (xs ! i)) + of_bool (P x)"
proof (induction xs arbitrary: i)
  case Nil
  then show ?case by simp
next
  case (Cons y ys)
  then show ?case by (cases i) auto
qed

lemma list_all_update: "\<forall>y\<in>set xs. P y \<Longrightarrow> P x \<Longrightarrow> \<forall>y\<in>set (xs[i := x]). P y"
  using set_update_subset_insert [of xs i x] by blast

section \<open>Numbers as text\<close>

text \<open>\<^verbatim>\<open>%u\<close>, \<^verbatim>\<open>%d\<close>, \<^verbatim>\<open>%x\<close>, \<^verbatim>\<open>%02u\<close>, \<^verbatim>\<open>%02d\<close> and \<^verbatim>\<open>%03d\<close>.\<close>

fun digits_base :: "nat \<Rightarrow> nat \<Rightarrow> string" where
  "digits_base b n =
     (if b < 2 then []
      else if n < b then [''0123456789abcdef'' ! n]
      else digits_base b (n div b) @ [''0123456789abcdef'' ! (n mod b)])"

declare digits_base.simps [simp del]

definition fmt_u :: "nat \<Rightarrow> string" where
  "fmt_u n = digits_base 10 n"

definition fmt_x :: "nat \<Rightarrow> string" where
  "fmt_x n = digits_base 16 n"

definition fmt_d :: "int \<Rightarrow> string" where
  "fmt_d i = (if i < 0 then ''-'' @ fmt_u (nat (- i)) else fmt_u (nat i))"

definition fmt_02u :: "nat \<Rightarrow> string" where
  "fmt_02u n = (if n < 10 then ''0'' @ fmt_u n else fmt_u n)"

definition fmt_02d :: "int \<Rightarrow> string" where
  "fmt_02d i = (if i < 0 then fmt_d i else fmt_02u (nat i))"

definition fmt_03d :: "int \<Rightarrow> string" where
  "fmt_03d i =
     (if i < 0 then ''-'' @ fmt_02u (nat (- i)) else if i < 10 then ''00'' @ fmt_u (nat i) else if i < 100 then ''0'' @ fmt_u (nat i) else fmt_u (nat i))"

text \<open>A number below \<open>b ^ k\<close> has at most \<open>k\<close> digits.\<close>

lemma length_digits_base:
  "2 \<le> b \<Longrightarrow> 0 < k \<Longrightarrow> n < b ^ k \<Longrightarrow> length (digits_base b n) \<le> k"
proof (induction b n arbitrary: k rule: digits_base.induct)
  case (1 b n)
  show ?case
  proof (cases "n < b")
    case True
    with "1.prems" show ?thesis by (simp add: digits_base.simps [of b n])
  next
    case False
    from False "1.prems" obtain j where j: "k = Suc j" "0 < j"
      by (cases k) (auto, metis gr0I power_0 mult.right_neutral)
    have "n div b < b ^ j"
      using "1.prems" j by (simp add: less_mult_imp_div_less mult.commute)
    then have "length (digits_base b (n div b)) \<le> j"
      using "1.IH" "1.prems"(1) False j by simp
    with False "1.prems" j show ?thesis by (simp add: digits_base.simps [of b n])
  qed
qed

lemma length_fmt_u [c_string]: "0 < k \<Longrightarrow> n < 10 ^ k \<Longrightarrow> length (fmt_u n) \<le> k"
  by (simp add: fmt_u_def length_digits_base)

lemma length_fmt_x [c_string]: "0 < k \<Longrightarrow> n < 16 ^ k \<Longrightarrow> length (fmt_x n) \<le> k"
  by (simp add: fmt_x_def length_digits_base)

text \<open>A 32-bit \<^verbatim>\<open>int\<close> prints in at most 11 characters, a \<^verbatim>\<open>uint8_t\<close> in at most 3.\<close>

lemma length_fmt_d32:
  assumes "- (2 ^ 31) \<le> i" "i < 2 ^ 31"
  shows "length (fmt_d i) \<le> 11"
proof -
  have "nat (- i) < 10 ^ 10" "nat i < 10 ^ 10"
    using assms by simp_all
  then have "length (fmt_u (nat (- i))) \<le> 10" "length (fmt_u (nat i)) \<le> 10"
    by (simp_all add: length_fmt_u)
  then show ?thesis by (simp add: fmt_d_def)
qed

lemma length_fmt_padded32:
  assumes "- (2 ^ 31) \<le> i" "i < 2 ^ 31"
  shows "length (fmt_02d i) \<le> 11" "length (fmt_03d i) \<le> 11"
proof -
  have "nat (- i) < 10 ^ 10" "nat i < 10 ^ 10" using assms by simp_all
  then have "length (fmt_u (nat (- i))) \<le> 10" "length (fmt_u (nat i)) \<le> 10" by (simp_all add: length_fmt_u)
  moreover have "length (fmt_u (nat i)) \<le> 2" if "i < 100" using that by (simp add: length_fmt_u)
  moreover have "length (fmt_u (nat (- i))) \<le> 1" if "nat (- i) < 10" using that by (simp add: length_fmt_u)
  ultimately show "length (fmt_02d i) \<le> 11" "length (fmt_03d i) \<le> 11"
    using length_fmt_d32 [OF assms] by (auto simp: fmt_02d_def fmt_03d_def fmt_02u_def)
qed

lemma length_fmt_d_u8: "length (fmt_d (uint (w :: u8))) \<le> 3"
proof -
  have "unat w < 2 ^ LENGTH(8)" by (rule unsigned_less)
  then have "length (fmt_u (unat w)) \<le> 3" by (intro length_fmt_u) simp_all
  then show ?thesis by (simp add: fmt_d_def)
qed

section \<open>Task loops\<close>

text \<open>One iteration of \<^verbatim>\<open>while (1) { wait(msg); switch (msg) ... }\<close> goes round again, leaves the
  loop (\<^verbatim>\<open>goto exit\<close>), has no meaning, or never comes back from an inner loop. \<open>'o\<close> is what the
  iteration handed to the platform.\<close>

datatype ('s, 'o) outcome =
    Continue 's "'o list"
  | Exit 's "'o list"
  | Undefined ub
  | Diverged

text \<open>\<open>P\<close> holds when the loop goes on, \<open>Q\<close> when it is left, and nothing else happens.\<close>

fun outcome_inv :: "('s \<Rightarrow> bool) \<Rightarrow> ('s \<Rightarrow> bool) \<Rightarrow> ('s, 'o) outcome \<Rightarrow> bool" where
  "outcome_inv P Q (Continue s os) = P s"
| "outcome_inv P Q (Exit s os) = Q s"
| "outcome_inv P Q (Undefined u) = False"
| "outcome_inv P Q Diverged = False"

fun emit :: "'o list \<Rightarrow> ('s, 'o) outcome \<Rightarrow> ('s, 'o) outcome" where
  "emit xs (Continue s os) = Continue s (xs @ os)"
| "emit xs (Exit s os) = Exit s (xs @ os)"
| "emit xs (Undefined u) = Undefined u"
| "emit xs Diverged = Diverged"

fun run_loop :: "('s \<Rightarrow> 'e \<Rightarrow> ('s, 'o) outcome) \<Rightarrow> 's \<Rightarrow> 'e list \<Rightarrow> ('s, 'o) outcome" where
  "run_loop step s [] = Continue s []"
| "run_loop step s (e # es) =
     (case step s e of
        Continue s' os \<Rightarrow> emit os (run_loop step s' es)
      | Exit s' os \<Rightarrow> Exit s' os
      | Undefined u \<Rightarrow> Undefined u
      | Diverged \<Rightarrow> Diverged)"

text \<open>Every message of a run satisfies the condition on the environment in the state it meets.\<close>

fun all_ok :: "('s \<Rightarrow> 'e \<Rightarrow> ('s, 'o) outcome) \<Rightarrow> ('s \<Rightarrow> 'e \<Rightarrow> bool) \<Rightarrow> 's \<Rightarrow> 'e list \<Rightarrow> bool" where
  "all_ok step ok s [] = True"
| "all_ok step ok s (e # es) =
     (ok s e \<and> (case step s e of Continue s' os \<Rightarrow> all_ok step ok s' es | _ \<Rightarrow> True))"

lemma outcome_inv_emit [simp]: "outcome_inv P Q (emit xs r) = outcome_inv P Q r"
  by (cases r) simp_all

lemma emit_Nil [simp]: "emit [] r = r"
  by (cases r) simp_all

lemma outcome_inv_cases [consumes 1, case_names Continue Exit]:
  assumes "outcome_inv P Q r"
  obtains s os where "r = Continue s os" "P s" | s os where "r = Exit s os" "Q s"
  using assms by (cases r) auto

lemma all_ok_True [simp]: "all_ok step (\<lambda>s e. True) s es"
  by (induction es arbitrary: s) (auto split: outcome.split)

lemma all_ok_list_all: "list_all P es \<Longrightarrow> all_ok step (\<lambda>s. P) s es"
  by (induction es arbitrary: s) (auto split: outcome.split)

text \<open>The contract of a handler and what follows for the task: a run from a good state, fed with
  acceptable messages, never meets undefined behaviour and never hangs in a handler; it ends in a
  good state, or it has left the loop in a final one.\<close>

locale event_loop =
  fixes step :: "'s \<Rightarrow> 'e \<Rightarrow> ('s, 'o) outcome"
    and inv :: "'s \<Rightarrow> bool"
    and fin :: "'s \<Rightarrow> bool"
    and ok :: "'s \<Rightarrow> 'e \<Rightarrow> bool"
  assumes step_sound: "inv s \<Longrightarrow> ok s e \<Longrightarrow> outcome_inv inv fin (step s e)"
begin

lemma run_sound: "inv s \<Longrightarrow> all_ok step ok s es \<Longrightarrow> outcome_inv inv fin (run_loop step s es)"
proof (induction es arbitrary: s)
  case Nil
  then show ?case by simp
next
  case (Cons e es)
  have "outcome_inv inv fin (step s e)"
    using Cons.prems by (intro step_sound) simp_all
  with Cons show ?case
    by (cases "step s e") simp_all
qed

lemma run_defined:
  assumes "inv s" and "all_ok step ok s es"
  shows "run_loop step s es \<noteq> Undefined u" and "run_loop step s es \<noteq> Diverged"
  using run_sound [OF assms] by auto

end

text \<open>Sequencing inside an iteration.\<close>

fun o_bind :: "('s, 'o) outcome \<Rightarrow> ('s \<Rightarrow> ('s, 'o) outcome) \<Rightarrow> ('s, 'o) outcome" where
  "o_bind (Continue s os) f = emit os (f s)"
| "o_bind (Exit s os) f = Exit s os"
| "o_bind (Undefined u) f = Undefined u"
| "o_bind Diverged f = Diverged"

lemma o_bind_eq_Continue:
  "o_bind m f = Continue s os \<longleftrightarrow> (\<exists>s1 os1 os2. m = Continue s1 os1 \<and> f s1 = Continue s os2 \<and> os = os1 @ os2)"
proof (cases m)
  case (Continue s1 os1)
  then show ?thesis by (cases "f s1") auto
qed auto

lemma emit_append [simp]: "emit xs (emit ys r) = emit (xs @ ys) r"
  by (cases r) simp_all

lemma run_loop_append:
  "run_loop step s es = Continue s' os \<Longrightarrow> run_loop step s (es @ fs) = emit os (run_loop step s' fs)"
proof (induction es arbitrary: s os)
  case Nil
  then show ?case by simp
next
  case (Cons e es)
  then obtain s1 os1 where step: "step s e = Continue s1 os1"
    by (cases "step s e") auto
  with Cons.prems obtain os2 where "run_loop step s1 es = Continue s' os2" "os = os1 @ os2"
    by (cases "run_loop step s1 es") auto
  with Cons.IH [of s1 os2] step show ?case by simp
qed

lemma concat_replicate_Suc: "concat (replicate (Suc n) xs) = concat (replicate n xs) @ xs"
  by (induction n) simp_all

text \<open>An invariant that ties the state to the calls made so far, for properties of the calls of a run.\<close>

locale traced_loop =
  fixes step :: "'s \<Rightarrow> 'e \<Rightarrow> ('s, 'o) outcome"
    and tinv :: "'s \<Rightarrow> 'o list \<Rightarrow> bool"
  assumes step_traced: "tinv s os \<Longrightarrow> step s e = Continue s' os' \<Longrightarrow> tinv s' (os @ os')"
begin

lemma run_traced: "run_loop step s es = Continue s' os' \<Longrightarrow> tinv s os \<Longrightarrow> tinv s' (os @ os')"
proof (induction es arbitrary: s os os')
  case Nil
  then show ?case by simp
next
  case (Cons e es)
  then obtain s1 os1 os2 where step: "step s e = Continue s1 os1"
      and run: "run_loop step s1 es = Continue s' os2" and os': "os' = os1 @ os2"
    by (cases "step s e"; cases "run_loop step (case step s e of Continue s1 os1 \<Rightarrow> s1) es") auto
  have "tinv s' ((os @ os1) @ os2)"
    by (rule Cons.IH [OF run]) (rule step_traced [OF Cons.prems(2) step])
  then show ?case by (simp add: os')
qed

end

text \<open>One task as a refinement of another: states and outputs are mapped, and every message of the first
  does what the corresponding message does in the second.\<close>

fun abs_outcome :: "('s \<Rightarrow> 't) \<Rightarrow> ('o \<Rightarrow> 'p list) \<Rightarrow> ('s, 'o) outcome \<Rightarrow> ('t, 'p) outcome" where
  "abs_outcome f g (Continue s os) = Continue (f s) (concat (map g os))"
| "abs_outcome f g (Exit s os) = Exit (f s) (concat (map g os))"
| "abs_outcome f g (Undefined u) = Undefined u"
| "abs_outcome f g Diverged = Diverged"

lemma abs_outcome_emit: "abs_outcome f g (emit xs r) = emit (concat (map g xs)) (abs_outcome f g r)"
  by (cases r) simp_all

locale task_refinement =
  fixes step :: "'s \<Rightarrow> 'e \<Rightarrow> ('s, 'o) outcome" and spec_step :: "'t \<Rightarrow> 'f \<Rightarrow> ('t, 'p) outcome"
    and abs_state :: "'s \<Rightarrow> 't" and abs_out :: "'o \<Rightarrow> 'p list" and abs_in :: "'e \<Rightarrow> 'f"
    and inv :: "'s \<Rightarrow> bool" and ok :: "'s \<Rightarrow> 'e \<Rightarrow> bool"
  assumes refines: "inv s \<Longrightarrow> ok s e \<Longrightarrow> abs_outcome abs_state abs_out (step s e) = spec_step (abs_state s) (abs_in e)"
    and keeps: "inv s \<Longrightarrow> ok s e \<Longrightarrow> step s e = Continue s' os \<Longrightarrow> inv s'"
begin

lemma run_refines:
  "inv s \<Longrightarrow> all_ok step ok s es \<Longrightarrow>
    abs_outcome abs_state abs_out (run_loop step s es) = run_loop spec_step (abs_state s) (map abs_in es)"
proof (induction es arbitrary: s)
  case Nil
  then show ?case by simp
next
  case (Cons e es)
  have "abs_outcome abs_state abs_out (step s e) = spec_step (abs_state s) (abs_in e)"
    using Cons.prems by (intro refines) simp_all
  with Cons keeps [of s e] show ?case
    by (cases "step s e") (auto simp: abs_outcome_emit simp flip: \<open>_ = spec_step (abs_state s) (abs_in e)\<close>)
qed

end

end
