(* ===== verification/Critical_Section.thy ===== *)
theory Critical_Section
  imports UniRTOS_Prelude
begin

text \<open>
  Threads that update a shared counter under a lock, the pattern of the mutex and semaphore examples:
  lock; read the counter; sleep; write the value read plus one; unlock. A thread does this a given
  number of times.

  The lock is a parameter: \<open>acquire\<close> (\<open>None\<close> while a caller has to wait) and \<open>release\<close>. The interface \<open>lock\<close>
  says what is needed of it, and the lemmas in it are proved once for every lock: no update is lost,
  whatever the interleaving.
\<close>

section \<open>Threads\<close>

datatype cs_pc = Waiting | Entered | Read int | Written | Ended | Deleted

text \<open>A thread: where it stands and how many updates it has made.\<close>

type_synonym thread = "cs_pc \<times> nat"

record 'l cs_state =
  lck :: 'l
  shared :: int
  threads :: "thread list"

text \<open>One step of thread \<open>i\<close>, which makes \<open>rounds\<close> updates.\<close>

definition thread_step :: "('l \<Rightarrow> 'l option) \<Rightarrow> ('l \<Rightarrow> 'l) \<Rightarrow> nat \<Rightarrow> nat \<Rightarrow> 'l cs_state \<Rightarrow> 'l cs_state" where
  "thread_step acquire release rounds i s =
     (if i < length (threads s) then
        (case threads s ! i of
           (Waiting, n) \<Rightarrow>
             (case acquire (lck s) of
                None \<Rightarrow> s
              | Some l \<Rightarrow> s\<lparr>lck := l, threads := (threads s)[i := (Entered, n)]\<rparr>)
         | (Entered, n) \<Rightarrow> s\<lparr>threads := (threads s)[i := (Read (shared s), n)]\<rparr>
         | (Read v, n) \<Rightarrow> s\<lparr>shared := v + 1, threads := (threads s)[i := (Written, Suc n)]\<rparr>
         | (Written, n) \<Rightarrow>
             s\<lparr>lck := release (lck s), threads := (threads s)[i := (if n < rounds then Waiting else Ended, n)]\<rparr>
         | (Ended, n) \<Rightarrow> s
         | (Deleted, n) \<Rightarrow> s)
      else s)"

text \<open>Another task creates a thread, or deletes one that still runs.\<close>

definition spawn :: "'l cs_state \<Rightarrow> 'l cs_state" where
  "spawn s = s\<lparr>threads := threads s @ [(Waiting, 0)]\<rparr>"

definition cleanup_task_handle :: "nat \<Rightarrow> 'l cs_state \<Rightarrow> 'l cs_state" where
  "cleanup_task_handle i s =
     (if i < length (threads s) \<and> fst (threads s ! i) \<noteq> Ended
      then s\<lparr>threads := (threads s)[i := (Deleted, snd (threads s ! i))]\<rparr> else s)"

section \<open>No update is lost\<close>

definition inside :: "thread \<Rightarrow> bool" where
  "inside t = (case fst t of Entered \<Rightarrow> True | Read v \<Rightarrow> True | Written \<Rightarrow> True | _ \<Rightarrow> False)"

text \<open>What is true of every thread by itself.\<close>

fun thread_ok :: "nat \<Rightarrow> int \<Rightarrow> thread \<Rightarrow> bool" where
  "thread_ok rounds c (Waiting, n) = (n < rounds)"
| "thread_ok rounds c (Entered, n) = (n < rounds)"
| "thread_ok rounds c (Read v, n) = (n < rounds \<and> v = c)"
| "thread_ok rounds c (Written, n) = (0 < n \<and> n \<le> rounds)"
| "thread_ok rounds c (Ended, n) = (n = rounds)"
| "thread_ok rounds c (Deleted, n) = (n \<le> rounds)"

definition updates :: "thread list \<Rightarrow> nat" where
  "updates ts = sum_list (map snd ts)"

definition cs_inv :: "('l \<Rightarrow> bool) \<Rightarrow> ('l \<Rightarrow> bool) \<Rightarrow> nat \<Rightarrow> int \<Rightarrow> 'l cs_state \<Rightarrow> bool" where
  "cs_inv valid free rounds c0 s \<longleftrightarrow>
     valid (lck s) \<and> shared s = c0 + int (updates (threads s)) \<and>
     (\<forall>i<length (threads s). thread_ok rounds (shared s) (threads s ! i)) \<and>
     (\<forall>i<length (threads s). inside (threads s ! i) \<longrightarrow> \<not> free (lck s)) \<and>
     (\<forall>i<length (threads s). \<forall>j<length (threads s). inside (threads s ! i) \<longrightarrow> inside (threads s ! j) \<longrightarrow> i = j)"

lemma updates_update: "i < length ts \<Longrightarrow> int (updates (ts[i := (p, n)])) = int (updates ts) - int (snd (ts ! i)) + int n"
proof (induction ts arbitrary: i)
  case Nil
  then show ?case by simp
next
  case (Cons t ts)
  then show ?case by (cases i) (auto simp: updates_def)
qed

lemma updates_append [simp]: "updates (ts @ [(p, n)]) = updates ts + n"
  by (simp add: updates_def)

lemma updates_bound: "\<forall>i<length ts. thread_ok rounds c (ts ! i) \<Longrightarrow> updates ts \<le> rounds * length ts"
proof (induction ts)
  case Nil
  then show ?case by (simp add: updates_def)
next
  case (Cons t ts)
  have "snd t \<le> rounds"
    using Cons.prems [rule_format, of 0] by (cases t; cases "fst t"; auto)
  moreover have "updates ts \<le> rounds * length ts"
    using Cons.prems by (intro Cons.IH) fastforce
  ultimately show ?case by (simp add: updates_def)
qed

lemma updates_all: "\<forall>t\<in>set ts. fst t = Ended \<and> thread_ok rounds c t \<Longrightarrow> updates ts = rounds * length ts"
  by (induction ts) (auto simp: updates_def)

lemma inside_simps [simp]:
  "inside (Entered, n)" "inside (Read v, n)" "inside (Written, n)"
  "\<not> inside (Waiting, n)" "\<not> inside (Ended, n)" "\<not> inside (Deleted, n)"
  by (simp_all add: inside_def)

lemma thread_ok_outside: "\<not> inside t \<Longrightarrow> thread_ok rounds c t = thread_ok rounds c' t"
  by (cases t; cases "fst t"; auto)

locale lock =
  fixes acquire :: "'l \<Rightarrow> 'l option" and release :: "'l \<Rightarrow> 'l" and valid free :: "'l \<Rightarrow> bool"
  assumes acquire_free: "valid l \<Longrightarrow> acquire l = Some l' \<Longrightarrow> valid l' \<and> free l \<and> \<not> free l'"
    and acquire_ready: "valid l \<Longrightarrow> free l \<Longrightarrow> acquire l \<noteq> None"
    and release_free: "valid l \<Longrightarrow> \<not> free l \<Longrightarrow> valid (release l) \<and> free (release l)"
begin

text \<open>A step of any thread keeps the invariant.\<close>

lemma thread_step_inv:
  assumes inv: "cs_inv valid free rounds c0 s"
  shows "cs_inv valid free rounds c0 (thread_step acquire release rounds i s)"
proof (cases "i < length (threads s)")
  case True
  have valid: "valid (lck s)" using inv by (simp add: cs_inv_def)
  obtain p n where t: "threads s ! i = (p, n)" by fastforce
  have ok: "thread_ok rounds (shared s) (p, n)" using inv True t by (metis cs_inv_def)
  have lone: "\<And>j. j < length (threads s) \<Longrightarrow> inside (threads s ! j) \<Longrightarrow> inside (p, n) \<Longrightarrow> j = i"
    using inv True t by (metis cs_inv_def)
  have others: "\<And>j. j < length (threads s) \<Longrightarrow> \<not> inside (threads s ! j) \<Longrightarrow>
      thread_ok rounds c (threads s ! j) = thread_ok rounds (shared s) (threads s ! j)" for c
    by (rule thread_ok_outside)
  show ?thesis
  proof (cases p)
    case Waiting
    show ?thesis
    proof (cases "acquire (lck s)")
      case None
      then show ?thesis using inv True t Waiting by (simp add: thread_step_def)
    next
      case (Some l)
      then have "free (lck s)" "\<not> free l" "valid l" using acquire_free [OF valid] by auto
      then have none: "\<not> inside (threads s ! j)" if "j < length (threads s)" for j
        using inv that by (auto simp: cs_inv_def)
      show ?thesis
        using inv True t Waiting Some ok none \<open>\<not> free l\<close> \<open>valid l\<close>
        by (auto simp: thread_step_def cs_inv_def updates_update nth_list_update)
    qed
  next
    case Entered
    then show ?thesis
      using inv True t ok lone
      by (auto simp: thread_step_def cs_inv_def updates_update nth_list_update)
  next
    case (Read v)
    have new: "thread_step acquire release rounds i s = s\<lparr>shared := v + 1, threads := (threads s)[i := (Written, Suc n)]\<rparr>"
      using True t Read by (simp add: thread_step_def)
    have n: "n < rounds" "v = shared s" using ok Read by simp_all
    have out: "\<not> inside (threads s ! j)" if "j < length (threads s)" "j \<noteq> i" for j
      using lone [of j] that Read by auto
    have "thread_ok rounds (v + 1) ((threads s)[i := (Written, Suc n)] ! j)" if "j < length (threads s)" for j
      using inv that n out [of j] others [of j "v + 1"] True by (cases "j = i") (auto simp: cs_inv_def)
    moreover have "j = k" if "j < length (threads s)" "inside ((threads s)[i := (Written, Suc n)] ! j)"
        "k < length (threads s)" "inside ((threads s)[i := (Written, Suc n)] ! k)" for j k
      using out [of j] out [of k] that by (metis nth_list_update_neq)
    moreover have "\<not> free (lck s)" using inv True t Read by (metis cs_inv_def inside_simps(2))
    ultimately show ?thesis
      using inv True t n unfolding new by (auto simp: cs_inv_def updates_update)
  next
    case Written
    then have "\<not> free (lck s)" using inv True t by (metis cs_inv_def inside_simps(3))
    then have "valid (release (lck s)) \<and> free (release (lck s))" by (rule release_free [OF valid])
    then show ?thesis
      using inv True t ok lone Written
      by (auto simp: thread_step_def cs_inv_def updates_update nth_list_update)
  qed (use inv True t in \<open>simp_all add: thread_step_def\<close>)
qed (use assms in \<open>simp add: thread_step_def\<close>)

end

text \<open>Creating and deleting threads keeps it too, whatever the lock.\<close>

lemma spawn_inv: "cs_inv valid free rounds c0 s \<Longrightarrow> 0 < rounds \<Longrightarrow> cs_inv valid free rounds c0 (spawn s)"
  by (auto simp: cs_inv_def spawn_def nth_append)

lemma delete_inv:
  assumes "cs_inv valid free rounds c0 s"
  shows "cs_inv valid free rounds c0 (cleanup_task_handle i s)"
proof (cases "i < length (threads s) \<and> fst (threads s ! i) \<noteq> Ended")
  case True
  obtain p n where t: "threads s ! i = (p, n)" by fastforce
  have "thread_ok rounds (shared s) (p, n)" using assms True t by (metis cs_inv_def)
  then have "n \<le> rounds" using t True by (cases p) auto
  then show ?thesis
    using assms True t
    by (auto simp: cleanup_task_handle_def cs_inv_def updates_update nth_list_update)
next
  case False
  with assms show ?thesis by (auto simp: cleanup_task_handle_def)
qed

end
