(* ===== verification/Sync_Locks.thy ===== *)
theory Sync_Locks
  imports Critical_Section
begin

text \<open>
  The semaphore and mutex examples, \<^verbatim>\<open>system/sync_comm/semaphore/demo/semaphore_demo.c\<close> and
  \<^verbatim>\<open>system/sync_comm/mutex/demo/mutex_demo.c\<close>.

  Each starts three threads that update a shared counter under a lock (\<open>thread_step\<close>), while the main
  task creates them, polls the counter and cleans up. A run is a list of steps of the threads and of
  the main task in any order, so a statement about all runs is one about all schedules; delays have
  no effect of their own. The semaphore and the mutex of the kernel are parameters: \<open>counting_semaphore\<close>
  is what the platform documents of a semaphore, and a binary one is a \<open>lock\<close>.
\<close>

section \<open>Counting semaphores\<close>

locale counting_semaphore =
  fixes sem_create :: "nat \<Rightarrow> nat \<Rightarrow> 's option" and sem_wait :: "'s \<Rightarrow> 's option"
    and sem_release :: "'s \<Rightarrow> 's" and sem_cnt sem_max :: "'s \<Rightarrow> nat"
  assumes created: "0 < m \<Longrightarrow> n \<le> m \<Longrightarrow> \<exists>s. sem_create n m = Some s \<and> sem_cnt s = n \<and> sem_max s = m"
    and refused: "m = 0 \<or> m < n \<Longrightarrow> sem_create n m = None"
    and waits: "sem_cnt s = 0 \<Longrightarrow> sem_wait s = None"
    and takes: "0 < sem_cnt s \<Longrightarrow> \<exists>s'. sem_wait s = Some s' \<and> sem_cnt s' = sem_cnt s - 1 \<and> sem_max s' = sem_max s"
    and gives: "sem_cnt (sem_release s) = min (sem_max s) (sem_cnt s + 1)" "sem_max (sem_release s) = sem_max s"

text \<open>A semaphore with maximum one is a lock.\<close>

sublocale counting_semaphore \<subseteq> binary: lock sem_wait sem_release "\<lambda>s. sem_max s = 1 \<and> sem_cnt s \<le> 1" "\<lambda>s. sem_cnt s = 1"
proof
  fix l l'
  assume "sem_max l = 1 \<and> sem_cnt l \<le> 1" "sem_wait l = Some l'"
  then show "(sem_max l' = 1 \<and> sem_cnt l' \<le> 1) \<and> sem_cnt l = 1 \<and> sem_cnt l' \<noteq> 1"
    using takes [of l] waits [of l] by (cases "sem_cnt l = 0") auto
next
  fix l
  assume "sem_max l = 1 \<and> sem_cnt l \<le> 1" "sem_cnt l = 1"
  then show "sem_wait l \<noteq> None" using takes [of l] by auto
next
  fix l
  assume "sem_max l = 1 \<and> sem_cnt l \<le> 1" "sem_cnt l \<noteq> 1"
  then show "(sem_max (sem_release l) = 1 \<and> sem_cnt (sem_release l) \<le> 1) \<and> sem_cnt (sem_release l) = 1"
    using gives [of l] by auto
qed

context counting_semaphore
begin

lemma binary_lock: "lock sem_wait sem_release (\<lambda>s. sem_max s = 1 \<and> sem_cnt s \<le> 1) (\<lambda>s. sem_cnt s = 1)"
  by (rule binary.lock_axioms)

end

text \<open>A count with its maximum is such a semaphore.\<close>

definition count_create :: "nat \<Rightarrow> nat \<Rightarrow> (nat \<times> nat) option" where
  "count_create n m = (if m = 0 \<or> m < n then None else Some (n, m))"

definition count_wait :: "nat \<times> nat \<Rightarrow> (nat \<times> nat) option" where
  "count_wait = (\<lambda>(n, m). if n = 0 then None else Some (n - 1, m))"

definition count_release :: "nat \<times> nat \<Rightarrow> nat \<times> nat" where
  "count_release = (\<lambda>(n, m). (min m (n + 1), m))"

interpretation counter: counting_semaphore count_create count_wait count_release fst snd
  by unfold_locales (auto simp: count_create_def count_wait_def count_release_def)

section \<open>The semaphore example\<close>

datatype sem_main = Creating nat | Polling nat | Cleaning nat | Returned int

record 's sem_demo =
  cs :: "'s cs_state"
  main :: sem_main

datatype demo_step = Thread nat | Main bool   \<comment> \<open>of the main task: whether a task creation succeeds\<close>

text \<open>\<^verbatim>\<open>err\<close> is \<^verbatim>\<open>QOSA_ERROR_TASK_CREATE_ERR\<close>.\<close>

definition test_multi_thread_competition :: "int \<Rightarrow> bool \<Rightarrow> 's sem_demo \<Rightarrow> 's sem_demo" where
  "test_multi_thread_competition err created d =
     (case main d of
        Creating i \<Rightarrow>
          if i < 3 then
            if created then d\<lparr>cs := spawn (cs d), main := Creating (Suc i)\<rparr>
            else d\<lparr>cs := fold cleanup_task_handle [0..<i] (cs d), main := Returned err\<rparr>
          else d\<lparr>main := Polling 0\<rparr>
      | Polling n \<Rightarrow>
          if n < 10 \<and> shared (cs d) < 6 then d\<lparr>main := Polling (Suc n)\<rparr> else d\<lparr>main := Cleaning 0\<rparr>
      | Cleaning i \<Rightarrow>
          if i < 3 then d\<lparr>cs := cleanup_task_handle i (cs d), main := Cleaning (Suc i)\<rparr> else d\<lparr>main := Returned 0\<rparr>
      | Returned r \<Rightarrow> d)"

definition semaphore_test_thread :: "('s \<Rightarrow> 's option) \<Rightarrow> ('s \<Rightarrow> 's) \<Rightarrow> nat \<Rightarrow> 's sem_demo \<Rightarrow> 's sem_demo" where
  "semaphore_test_thread sem_wait sem_release i d = d\<lparr>cs := thread_step sem_wait sem_release 2 i (cs d)\<rparr>"

fun sem_step :: "('s \<Rightarrow> 's option) \<Rightarrow> ('s \<Rightarrow> 's) \<Rightarrow> int \<Rightarrow> demo_step \<Rightarrow> 's sem_demo \<Rightarrow> 's sem_demo" where
  "sem_step sem_wait sem_release err (Thread i) d = semaphore_test_thread sem_wait sem_release i d"
| "sem_step sem_wait sem_release err (Main created) d = test_multi_thread_competition err created d"

text \<open>\<^verbatim>\<open>test_basic_semaphore\<close> creates the semaphore with one of one.\<close>

definition test_basic_semaphore :: "(nat \<Rightarrow> nat \<Rightarrow> 's option) \<Rightarrow> int \<Rightarrow> int + 's sem_demo" where
  "test_basic_semaphore sem_create err =
     (case sem_create 1 1 of
        None \<Rightarrow> Inl err
      | Some s \<Rightarrow> Inr \<lparr>cs = \<lparr>lck = s, shared = 0, threads = []\<rparr>, main = Creating 0\<rparr>)"

text \<open>The counts the counting test prints, and whether its third attempt passed.\<close>

definition wait_cnt :: "('s \<Rightarrow> 's option) \<Rightarrow> 's \<Rightarrow> 's" where
  "wait_cnt sem_wait s = (case sem_wait s of None \<Rightarrow> s | Some s' \<Rightarrow> s')"

definition test_counting_semaphore ::
  "(nat \<Rightarrow> nat \<Rightarrow> 's option) \<Rightarrow> ('s \<Rightarrow> 's option) \<Rightarrow> ('s \<Rightarrow> 's) \<Rightarrow> ('s \<Rightarrow> nat) \<Rightarrow> int \<Rightarrow> int + (nat list \<times> bool)" where
  "test_counting_semaphore sem_create sem_wait sem_release sem_cnt err =
     (case sem_create 2 3 of
        None \<Rightarrow> Inl err
      | Some s0 \<Rightarrow>
          let s1 = wait_cnt sem_wait s0; s2 = wait_cnt sem_wait s1; third_timeout = (sem_wait s2 = None);
              s3 = wait_cnt sem_wait s2; s4 = sem_release s3 in
          Inr ([sem_cnt s0, sem_cnt s1, sem_cnt s2, sem_cnt s4], third_timeout))"

definition test_timeout_acquire :: "(nat \<Rightarrow> nat \<Rightarrow> 's option) \<Rightarrow> ('s \<Rightarrow> 's option) \<Rightarrow> int \<Rightarrow> int + bool" where
  "test_timeout_acquire sem_create sem_wait err =
     (case sem_create 0 1 of None \<Rightarrow> Inl err | Some s \<Rightarrow> Inr (sem_wait s = None))"

section \<open>Every schedule of the semaphore example\<close>

definition sem_inv :: "('s \<Rightarrow> bool) \<Rightarrow> ('s \<Rightarrow> bool) \<Rightarrow> 's sem_demo \<Rightarrow> bool" where
  "sem_inv valid free d \<longleftrightarrow> cs_inv valid free 2 0 (cs d) \<and>
     (case main d of Creating i \<Rightarrow> length (threads (cs d)) = i \<and> i \<le> 3 | _ \<Rightarrow> length (threads (cs d)) \<le> 3)"

lemma length_thread_step [simp]: "length (threads (thread_step a r k i s)) = length (threads s)"
  by (auto simp: thread_step_def split: prod.splits cs_pc.splits option.splits)

lemma length_delete [simp]: "length (threads (cleanup_task_handle i s)) = length (threads s)"
  by (simp add: cleanup_task_handle_def)

lemma length_spawn [simp]: "length (threads (spawn s)) = Suc (length (threads s))"
  by (simp add: spawn_def)

lemma length_deletes [simp]: "length (threads (fold cleanup_task_handle is s)) = length (threads s)"
  by (rule fold_frame) simp

lemma deletes_inv: "cs_inv valid free k c s \<Longrightarrow> cs_inv valid free k c (fold cleanup_task_handle is s)"
  by (induction "is" arbitrary: s) (simp_all add: delete_inv)

lemma main_inv: "sem_inv valid free d \<Longrightarrow> sem_inv valid free (test_multi_thread_competition err b d)"
  by (auto simp: sem_inv_def test_multi_thread_competition_def spawn_inv delete_inv deletes_inv
      split: sem_main.splits simp del: fold_simps)

context lock
begin

lemma sem_step_inv: "sem_inv valid free d \<Longrightarrow> sem_inv valid free (sem_step acquire release err e d)"
proof (cases e)
  case (Thread i)
  assume "sem_inv valid free d"
  then show ?thesis
    using Thread by (auto simp: sem_inv_def semaphore_test_thread_def thread_step_inv split: sem_main.splits)
qed (simp add: main_inv)

lemma sem_run_inv: "sem_inv valid free d \<Longrightarrow> sem_inv valid free (fold (sem_step acquire release err) es d)"
  by (induction es arbitrary: d) (simp_all add: sem_step_inv)

end

text \<open>What the invariant says of the counter.\<close>

lemma sem_inv_counter:
  assumes "sem_inv valid free d"
  shows "shared (cs d) = int (updates (threads (cs d)))" and "shared (cs d) \<le> 6"
    and "length (threads (cs d)) = 3 \<Longrightarrow> \<forall>t\<in>set (threads (cs d)). fst t = Ended \<Longrightarrow> shared (cs d) = 6"
proof -
  have inv: "cs_inv valid free 2 0 (cs d)" "length (threads (cs d)) \<le> 3"
    using assms by (auto simp: sem_inv_def split: sem_main.splits)
  then show eq: "shared (cs d) = int (updates (threads (cs d)))" by (simp add: cs_inv_def)
  have ok: "\<forall>i<length (threads (cs d)). thread_ok 2 (shared (cs d)) (threads (cs d) ! i)"
    using inv unfolding cs_inv_def by blast
  have "updates (threads (cs d)) \<le> 6" using updates_bound [OF ok] inv(2) by linarith
  with eq show "shared (cs d) \<le> 6" by simp
  assume "length (threads (cs d)) = 3" "\<forall>t\<in>set (threads (cs d)). fst t = Ended"
  with ok have "updates (threads (cs d)) = 2 * 3"
    by (metis updates_all in_set_conv_nth)
  with eq show "shared (cs d) = 6" by simp
qed

text \<open>C14: The semaphore protects the counter. In every schedule of the three threads and the main task, also when the
  main task deletes threads, the counter is the number of updates made, at most one thread is between
  wait and release, and the counter is 6 when all three threads have ended.\<close>

theorem semaphore_loses_no_update:
  assumes "counting_semaphore sem_create sem_wait sem_release sem_cnt sem_max"
    and "test_basic_semaphore sem_create err = Inr d0"
    and "d = fold (sem_step sem_wait sem_release err) es d0"
  shows "shared (cs d) = int (updates (threads (cs d))) \<and> shared (cs d) \<le> 6 \<and>
    (\<forall>i<length (threads (cs d)). \<forall>j<length (threads (cs d)).
       inside (threads (cs d) ! i) \<longrightarrow> inside (threads (cs d) ! j) \<longrightarrow> i = j) \<and>
    (length (threads (cs d)) = 3 \<and> (\<forall>t\<in>set (threads (cs d)). fst t = Ended) \<longrightarrow> shared (cs d) = 6)"
proof -
  let ?valid = "\<lambda>s. sem_max s = 1 \<and> sem_cnt s \<le> 1" and ?free = "\<lambda>s. sem_cnt s = 1"
  have L: "lock sem_wait sem_release ?valid ?free"
    using assms(1) by (rule counting_semaphore.binary_lock)
  obtain s where "sem_create 1 1 = Some s" "sem_cnt s = 1" "sem_max s = 1"
    using counting_semaphore.created [OF assms(1), of 1 1] by auto
  then have "sem_inv ?valid ?free d0"
    using assms(2) by (auto simp: test_basic_semaphore_def sem_inv_def cs_inv_def updates_def)
  then have inv: "sem_inv ?valid ?free d" unfolding assms(3) by (rule lock.sem_run_inv [OF L])
  then have "\<forall>i<length (threads (cs d)). \<forall>j<length (threads (cs d)).
       inside (threads (cs d) ! i) \<longrightarrow> inside (threads (cs d) ! j) \<longrightarrow> i = j"
    by (simp add: sem_inv_def cs_inv_def)
  with sem_inv_counter [OF inv] show ?thesis by blast
qed

text \<open>Three threads that all come to their end, one after another.\<close>

definition full_schedule :: "demo_step list" where
  "full_schedule = replicate 4 (Main True) @ concat (map (\<lambda>i. replicate 8 (Thread i)) [0, 1, 2])"

theorem semaphore_loses_no_update_witness:
  "\<exists>d0. test_basic_semaphore count_create 1 = Inr d0 \<and>
    shared (cs (fold (sem_step count_wait count_release 1) full_schedule d0)) = 6"
proof -
  define d0 :: "(nat \<times> nat) sem_demo" where "d0 = \<lparr>cs = \<lparr>lck = (1, 1), shared = 0, threads = []\<rparr>, main = Creating 0\<rparr>"
  have start: "test_basic_semaphore count_create 1 = Inr d0"
    by (simp add: test_basic_semaphore_def count_create_def d0_def)
  let ?d = "fold (sem_step count_wait count_release 1) full_schedule d0"
  have "threads (cs ?d) = [(Ended, 2), (Ended, 2), (Ended, 2)]"
    unfolding full_schedule_def d0_def by code_simp
  then show ?thesis
    using semaphore_loses_no_update [OF counter.counting_semaphore_axioms start, of ?d full_schedule] start by auto
qed

text \<open>The other tests of the example see the counts they expect.\<close>

lemma counting_test_counts:
  assumes "counting_semaphore sem_create sem_wait sem_release sem_cnt sem_max"
  shows "test_counting_semaphore sem_create sem_wait sem_release sem_cnt err = Inr ([2, 1, 0, 1], True)"
    and "test_timeout_acquire sem_create sem_wait err = Inr True"
proof -
  note sem = counting_semaphore.created [OF assms] counting_semaphore.takes [OF assms] counting_semaphore.waits [OF assms]
  obtain s0 where s0: "sem_create 2 3 = Some s0" "sem_cnt s0 = 2" "sem_max s0 = 3" using sem(1) [of 3 2] by auto
  obtain s1 where s1: "sem_wait s0 = Some s1" "sem_cnt s1 = 1" "sem_max s1 = 3" using sem(2) [of s0] s0 by auto
  obtain s2 where s2: "sem_wait s1 = Some s2" "sem_cnt s2 = 0" "sem_max s2 = 3" using sem(2) [of s1] s1 by auto
  have "sem_wait s2 = None" "sem_cnt (sem_release s2) = 1"
    using sem(3) [of s2] s2 counting_semaphore.gives(1) [OF assms, of s2] by simp_all
  with s0 s1 s2 show "test_counting_semaphore sem_create sem_wait sem_release sem_cnt err = Inr ([2, 1, 0, 1], True)"
    by (simp add: test_counting_semaphore_def wait_cnt_def Let_def)
  obtain t where "sem_create 0 1 = Some t" "sem_cnt t = 0" using sem(1) [of 1 0] by auto
  with sem(3) [of t] show "test_timeout_acquire sem_create sem_wait err = Inr True"
    by (simp add: test_timeout_acquire_def)
qed

section \<open>The mutex example\<close>

datatype mutex_main = M_creating nat | M_waiting | M_cleanup | M_deleted | M_returned int

record 'm mutex_demo =
  mcs :: "'m cs_state"
  mmain :: mutex_main

text \<open>The test with one thread leaves its update in the counter.\<close>

definition mutex_basic_test :: "('m \<Rightarrow> 'm option) \<Rightarrow> ('m \<Rightarrow> 'm) \<Rightarrow> int \<Rightarrow> 'm cs_state \<Rightarrow> int \<times> 'm cs_state" where
  "mutex_basic_test acquire release err s =
     (case acquire (lck s) of
        None \<Rightarrow> (err, s)
      | Some l \<Rightarrow> (0, s\<lparr>lck := release l, shared := shared s + 1\<rparr>))"

definition mutex_test_thread :: "('m \<Rightarrow> 'm option) \<Rightarrow> ('m \<Rightarrow> 'm) \<Rightarrow> nat \<Rightarrow> 'm mutex_demo \<Rightarrow> 'm mutex_demo" where
  "mutex_test_thread acquire release i d = d\<lparr>mcs := thread_step acquire release 1 i (mcs d)\<rparr>"

definition mutex_multithread_test :: "int \<Rightarrow> bool \<Rightarrow> 'm mutex_demo \<Rightarrow> 'm mutex_demo" where
  "mutex_multithread_test err created d =
     (case mmain d of
        M_creating i \<Rightarrow>
          if i < 3 then
            if created then d\<lparr>mcs := spawn (mcs d), mmain := M_creating (Suc i)\<rparr> else d\<lparr>mmain := M_returned err\<rparr>
          else d\<lparr>mmain := M_waiting\<rparr>
      | M_waiting \<Rightarrow> if shared (mcs d) < 3 then d else d\<lparr>mmain := M_cleanup\<rparr>
      | _ \<Rightarrow> d)"

definition mutex_cleanup_test :: "'m mutex_demo \<Rightarrow> 'm mutex_demo" where
  "mutex_cleanup_test d = d\<lparr>mmain := M_deleted\<rparr>"

text \<open>Nothing is said about what a thread does with the mutex after it has been deleted.\<close>

fun mutex_step :: "('m \<Rightarrow> 'm option) \<Rightarrow> ('m \<Rightarrow> 'm) \<Rightarrow> int \<Rightarrow> demo_step \<Rightarrow> 'm mutex_demo \<Rightarrow> 'm mutex_demo" where
  "mutex_step acquire release err (Thread i) d =
     (if mmain d = M_deleted then d else mutex_test_thread acquire release i d)"
| "mutex_step acquire release err (Main created) d =
     (if mmain d = M_cleanup then mutex_cleanup_test d else mutex_multithread_test err created d)"

text \<open>The timeout test between the two works on a mutex of its own and returns 0.\<close>

definition osMutexTest_init :: "('m \<Rightarrow> 'm option) \<Rightarrow> ('m \<Rightarrow> 'm) \<Rightarrow> int \<Rightarrow> 'm \<Rightarrow> 'm mutex_demo option" where
  "osMutexTest_init acquire release err m =
     (let (ret, s) = mutex_basic_test acquire release err \<lparr>lck = m, shared = 0, threads = []\<rparr> in
      if ret \<noteq> 0 then None else Some \<lparr>mcs = s, mmain = M_creating 0\<rparr>)"

definition mutex_inv :: "('m \<Rightarrow> bool) \<Rightarrow> ('m \<Rightarrow> bool) \<Rightarrow> 'm mutex_demo \<Rightarrow> bool" where
  "mutex_inv valid free d \<longleftrightarrow> cs_inv valid free 1 1 (mcs d) \<and> (mmain d = M_cleanup \<or> mmain d = M_deleted \<longrightarrow> 3 \<le> shared (mcs d))"

lemma shared_mono: "cs_inv valid free k c s \<Longrightarrow> shared s \<le> shared (thread_step a r k i s)"
proof (cases "i < length (threads s)")
  case True
  assume inv: "cs_inv valid free k c s"
  then have "thread_ok k (shared s) (threads s ! i)" using True unfolding cs_inv_def by blast
  then show ?thesis
    using True by (cases "threads s ! i"; cases "fst (threads s ! i)") (auto simp: thread_step_def split: option.splits)
qed (simp add: thread_step_def)

context lock
begin

lemma mutex_step_inv: "mutex_inv valid free d \<Longrightarrow> mutex_inv valid free (mutex_step acquire release err e d)"
proof (cases e)
  case (Thread i)
  assume "mutex_inv valid free d"
  then show ?thesis
    using Thread thread_step_inv [of 1 1 "mcs d" i] shared_mono [of valid free 1 1 "mcs d" acquire release i]
    by (auto simp: mutex_inv_def mutex_test_thread_def)
next
  case (Main created)
  assume "mutex_inv valid free d"
  then show ?thesis
    using Main spawn_inv [of valid free 1 1 "mcs d"]
    by (auto simp: mutex_inv_def mutex_cleanup_test_def mutex_multithread_test_def split: mutex_main.splits)
qed

lemma mutex_run_inv: "mutex_inv valid free d \<Longrightarrow> mutex_inv valid free (fold (mutex_step acquire release err) es d)"
  by (induction es arbitrary: d) (simp_all add: mutex_step_inv)

end

text \<open>Two threads finish, the third has just taken the mutex, and the main task goes on.\<close>

definition early_schedule :: "demo_step list" where
  "early_schedule = replicate 4 (Main True) @ replicate 4 (Thread 0) @ replicate 4 (Thread 1) @ [Thread 2, Main True, Main True]"

text \<open>The mutex is deleted while it is held. The mutex protects the counter in every schedule: it is one, from the
  test before, plus the number of updates. For that very reason the main task, which waits for the
  value 3, goes on when two of the three threads are done: there is a schedule in which it deletes the
  mutex while the third thread holds it.\<close>

theorem mutex_deleted_while_held:
  assumes L: "lock acquire release valid free" and "valid m" "free m"
    and init: "osMutexTest_init acquire release err m = Some d0"
  shows "(\<forall>es. let d = fold (mutex_step acquire release err) es d0 in
            shared (mcs d) = 1 + int (updates (threads (mcs d))) \<and> (mmain d = M_deleted \<longrightarrow> 2 \<le> updates (threads (mcs d)))) \<and>
    (\<exists>es. let d = fold (mutex_step acquire release err) es d0 in
            mmain d = M_deleted \<and> threads (mcs d) = [(Ended, 1), (Ended, 1), (Entered, 0)] \<and> \<not> free (lck (mcs d)))"
proof
  have acq: "\<exists>l'. acquire l = Some l' \<and> valid l' \<and> \<not> free l'" if "valid l" "free l" for l
    using lock.acquire_ready [OF L that] lock.acquire_free [OF L that(1)] by auto
  note rel = lock.release_free [OF L]
  obtain l1 where l1: "acquire m = Some l1" "valid l1" "\<not> free l1" using acq assms(2,3) by blast
  define m1 where "m1 = release l1"
  have m1: "valid m1" "free m1" using rel l1 by (auto simp: m1_def)
  have d0: "d0 = \<lparr>mcs = \<lparr>lck = m1, shared = 1, threads = []\<rparr>, mmain = M_creating 0\<rparr>"
    using init l1 by (simp add: osMutexTest_init_def mutex_basic_test_def m1_def)
  have "mutex_inv valid free d0" using m1 by (simp add: d0 mutex_inv_def cs_inv_def updates_def)
  then have "mutex_inv valid free (fold (mutex_step acquire release err) es d0)" for es
    by (rule lock.mutex_run_inv [OF L])
  then show "\<forall>es. let d = fold (mutex_step acquire release err) es d0 in
      shared (mcs d) = 1 + int (updates (threads (mcs d))) \<and> (mmain d = M_deleted \<longrightarrow> 2 \<le> updates (threads (mcs d)))"
    unfolding Let_def mutex_inv_def cs_inv_def by fastforce
  obtain a1 where a1: "acquire m1 = Some a1" "valid a1" "\<not> free a1" using acq m1 by blast
  obtain a2 where a2: "acquire (release a1) = Some a2" "valid a2" "\<not> free a2" using acq rel [OF a1(2,3)] by blast
  obtain a3 where a3: "acquire (release a2) = Some a3" "\<not> free a3" using acq rel [OF a2(2,3)] by blast
  have "fold (mutex_step acquire release err) early_schedule d0 =
      \<lparr>mcs = \<lparr>lck = a3, shared = 3, threads = [(Ended, 1), (Ended, 1), (Entered, 0)]\<rparr>, mmain = M_deleted\<rparr>"
    using a1(1) a2(1) a3(1)
    by (simp add: d0 early_schedule_def eval_nat_numeral mutex_multithread_test_def mutex_test_thread_def mutex_cleanup_test_def
        thread_step_def spawn_def)
  with a3(2) show "\<exists>es. let d = fold (mutex_step acquire release err) es d0 in
      mmain d = M_deleted \<and> threads (mcs d) = [(Ended, 1), (Ended, 1), (Entered, 0)] \<and> \<not> free (lck (mcs d))"
    by (intro exI [of _ early_schedule]) simp
qed

text \<open>A mutex that only knows whether it is held.\<close>

definition flag_acquire :: "bool \<Rightarrow> bool option" where
  "flag_acquire held = (if held then None else Some True)"

interpretation flag: lock flag_acquire "\<lambda>held. False" "\<lambda>held. True" Not
  by unfold_locales (auto simp: flag_acquire_def split: if_splits)

theorem mutex_deleted_while_held_witness:
  "\<exists>d0. osMutexTest_init flag_acquire (\<lambda>held. False) (-1) False = Some d0 \<and>
    (\<exists>es. let d = fold (mutex_step flag_acquire (\<lambda>held. False) (-1)) es d0 in
       mmain d = M_deleted \<and> threads (mcs d) = [(Ended, 1), (Ended, 1), (Entered, 0)] \<and> lck (mcs d))"
proof -
  have "osMutexTest_init flag_acquire (\<lambda>held. False) (-1) False =
      Some \<lparr>mcs = \<lparr>lck = False, shared = 1, threads = []\<rparr>, mmain = M_creating 0\<rparr>"
    by (simp add: osMutexTest_init_def mutex_basic_test_def flag_acquire_def)
  with mutex_deleted_while_held [OF flag.lock_axioms _ _ this] show ?thesis by simp
qed

end
