(* ===== verification/Sync_Queue.thy ===== *)
theory Sync_Queue
  imports UniRTOS_Prelude
begin

text \<open>
  The message queue example, \<^verbatim>\<open>system/sync_comm/queue/demo/messque_demo.c\<close>.

  The queue of the kernel is a parameter; the interface \<open>fifo\<close> says what the platform documents of it.
  As for the locks, a run is a list of steps of the main task and of the thread it has started, in any
  order.
\<close>

section \<open>Bounded queues\<close>

record test_msg =
  id_of :: int
  data_of :: string
  timestamp :: int

locale fifo =
  fixes q_create :: "nat \<Rightarrow> 'q option" and q_put :: "'q \<Rightarrow> test_msg \<Rightarrow> 'q option" and q_get :: "'q \<Rightarrow> (test_msg \<times> 'q) option"
    and q_items :: "'q \<Rightarrow> test_msg list" and q_cap :: "'q \<Rightarrow> nat"
  assumes created: "0 < n \<Longrightarrow> \<exists>q. q_create n = Some q \<and> q_items q = [] \<and> q_cap q = n"
    and put_room: "length (q_items q) < q_cap q \<Longrightarrow> \<exists>q'. q_put q m = Some q' \<and> q_items q' = q_items q @ [m] \<and> q_cap q' = q_cap q"
    and put_full: "q_cap q \<le> length (q_items q) \<Longrightarrow> q_put q m = None"
    and get_empty: "q_items q = [] \<Longrightarrow> q_get q = None"
    and get_first: "q_items q = m # ms \<Longrightarrow> \<exists>q'. q_get q = Some (m, q') \<and> q_items q' = ms \<and> q_cap q' = q_cap q"

section \<open>The tests with one thread\<close>

text \<open>Two messages in, one out: the result of the test, the message received and the counts it prints.\<close>

definition test_basic_operations ::
  "(nat \<Rightarrow> 'q option) \<Rightarrow> ('q \<Rightarrow> test_msg \<Rightarrow> 'q option) \<Rightarrow> ('q \<Rightarrow> (test_msg \<times> 'q) option) \<Rightarrow> ('q \<Rightarrow> nat) \<Rightarrow> int \<Rightarrow>
   int \<times> test_msg option \<times> nat list" where
  "test_basic_operations q_create q_put q_get q_cnt err =
     (case q_create 5 of
        None \<Rightarrow> (err, None, [])
      | Some q0 \<Rightarrow>
          (case q_put q0 \<lparr>id_of = 1, data_of = ''Hello'', timestamp = 1000\<rparr> of
             None \<Rightarrow> (-1, None, [])
           | Some q1 \<Rightarrow>
               (case q_put q1 \<lparr>id_of = 2, data_of = ''World'', timestamp = 2000\<rparr> of
                  None \<Rightarrow> (-1, None, [q_cnt q1])
                | Some q2 \<Rightarrow>
                    (case q_get q2 of
                       None \<Rightarrow> (-1, None, [q_cnt q1, q_cnt q2])
                     | Some (m, q3) \<Rightarrow> (0, Some m, [q_cnt q1, q_cnt q2, q_cnt q3])))))"

text \<open>Ten attempts to send, up to the first that fails.\<close>

fun fill_queue :: "('q \<Rightarrow> test_msg \<Rightarrow> 'q option) \<Rightarrow> nat \<Rightarrow> nat \<Rightarrow> 'q \<Rightarrow> 'q" where
  "fill_queue q_put i 0 q = q"
| "fill_queue q_put i (Suc n) q =
     (case q_put q \<lparr>id_of = int i, data_of = ''Full queue test'', timestamp = 4000\<rparr> of
        None \<Rightarrow> q
      | Some q' \<Rightarrow> fill_queue q_put (Suc i) n q')"

text \<open>Receive while the count is positive; the result of the receive is not looked at.\<close>

partial_function (option) clear_queue :: "('q \<Rightarrow> (test_msg \<times> 'q) option) \<Rightarrow> ('q \<Rightarrow> nat) \<Rightarrow> 'q \<Rightarrow> 'q option" where
  "clear_queue q_get q_cnt q =
     (if q_cnt q > 0
      then clear_queue q_get q_cnt (case q_get q of None \<Rightarrow> q | Some (m, q') \<Rightarrow> q')
      else Some q)"

text \<open>The count of the full queue, the count after clearing, and whether the last receive timed out;
  \<open>None\<close> when the loop that clears does not end.\<close>

definition test_boundary_conditions ::
  "(nat \<Rightarrow> 'q option) \<Rightarrow> ('q \<Rightarrow> test_msg \<Rightarrow> 'q option) \<Rightarrow> ('q \<Rightarrow> (test_msg \<times> 'q) option) \<Rightarrow> ('q \<Rightarrow> nat) \<Rightarrow>
   (int + nat \<times> nat \<times> bool) option" where
  "test_boundary_conditions q_create q_put q_get q_cnt =
     (case q_create 5 of
        None \<Rightarrow> Some (Inl (-1))
      | Some q0 \<Rightarrow>
          let q1 = fill_queue q_put 0 10 q0 in
          Option.bind (clear_queue q_get q_cnt q1) (\<lambda>q2. Some (Inr (q_cnt q1, q_cnt q2, q_get q2 = None))))"

section \<open>Producer and consumer\<close>

datatype mq_main = Sending nat | Retrying nat | Draining | Finished

record 'q mq_demo =
  mq :: 'q
  mq_state :: mq_main
  to_receive :: nat                    \<comment> \<open>rounds the consumer still has\<close>
  received :: "test_msg list"

definition new_msg :: "nat \<Rightarrow> test_msg" where
  "new_msg i = \<lparr>id_of = int i + 10, data_of = snprintf_buf 32 (''Message'' @ fmt_u (i + 1)), timestamp = 3000 + int i * 100\<rparr>"

text \<open>A failed send is tried once more; after a second failure the producer gives up.\<close>

definition test_multithread :: "('q \<Rightarrow> test_msg \<Rightarrow> 'q option) \<Rightarrow> ('q \<Rightarrow> nat) \<Rightarrow> 'q mq_demo \<Rightarrow> 'q mq_demo" where
  "test_multithread q_put q_cnt d =
     (case mq_state d of
        Sending i \<Rightarrow>
          if i < 3 then
            (case q_put (mq d) (new_msg i) of
               None \<Rightarrow> d\<lparr>mq_state := Retrying i\<rparr>
             | Some q \<Rightarrow> d\<lparr>mq := q, mq_state := Sending (Suc i)\<rparr>)
          else d\<lparr>mq_state := Draining\<rparr>
      | Retrying i \<Rightarrow>
          (case q_put (mq d) (new_msg i) of
             None \<Rightarrow> d\<lparr>mq_state := Draining\<rparr>
           | Some q \<Rightarrow> d\<lparr>mq := q, mq_state := Sending (Suc i)\<rparr>)
      | Draining \<Rightarrow> if q_cnt (mq d) > 0 then d else d\<lparr>mq_state := Finished\<rparr>
      | Finished \<Rightarrow> d)"

text \<open>The main task has deleted the thread and the queue when it is finished.\<close>

definition msgq_consumer_thread :: "('q \<Rightarrow> (test_msg \<times> 'q) option) \<Rightarrow> 'q mq_demo \<Rightarrow> 'q mq_demo" where
  "msgq_consumer_thread q_get d =
     (if to_receive d = 0 \<or> mq_state d = Finished then d
      else
        (case q_get (mq d) of
           None \<Rightarrow> d
         | Some (m, q) \<Rightarrow> d\<lparr>mq := q, to_receive := to_receive d - 1, received := received d @ [m]\<rparr>))"

datatype mq_turn = Producer | Consumer

fun mq_step ::
  "('q \<Rightarrow> test_msg \<Rightarrow> 'q option) \<Rightarrow> ('q \<Rightarrow> (test_msg \<times> 'q) option) \<Rightarrow> ('q \<Rightarrow> nat) \<Rightarrow> mq_turn \<Rightarrow> 'q mq_demo \<Rightarrow> 'q mq_demo" where
  "mq_step q_put q_get q_cnt Producer d = test_multithread q_put q_cnt d"
| "mq_step q_put q_get q_cnt Consumer d = msgq_consumer_thread q_get d"

definition mq_start :: "'q \<Rightarrow> 'q mq_demo" where
  "mq_start q = \<lparr>mq = q, mq_state = Sending 0, to_receive = 3, received = []\<rparr>"

text \<open>How many messages the producer has sent.\<close>

definition sent_of :: "mq_main \<Rightarrow> nat" where
  "sent_of st = (case st of Sending i \<Rightarrow> i | Retrying i \<Rightarrow> i | _ \<Rightarrow> 3)"

definition mq_inv :: "('q \<Rightarrow> test_msg list) \<Rightarrow> ('q \<Rightarrow> nat) \<Rightarrow> 'q mq_demo \<Rightarrow> bool" where
  "mq_inv q_items q_cap d \<longleftrightarrow>
     q_cap (mq d) = 10 \<and> sent_of (mq_state d) \<le> 3 \<and> (\<forall>i. mq_state d \<noteq> Retrying i) \<and>
     received d @ q_items (mq d) = map new_msg [0..<sent_of (mq_state d)] \<and>
     to_receive d + length (received d) = 3 \<and> (mq_state d = Finished \<longrightarrow> q_items (mq d) = [])"

context fifo
begin

text \<open>Receiving while there is something empties the queue.\<close>

lemma clear_empties: "\<exists>q'. clear_queue q_get (\<lambda>q. length (q_items q)) q = Some q' \<and> q_items q' = []"
proof (induction "length (q_items q)" arbitrary: q)
  case 0
  then show ?case by (subst clear_queue.simps) simp
next
  case (Suc n)
  then obtain m ms where ms: "q_items q = m # ms" by (cases "q_items q") auto
  obtain q1 where q1: "q_get q = Some (m, q1)" "q_items q1 = ms" using get_first [OF ms] by blast
  with Suc ms have "\<exists>q'. clear_queue q_get (\<lambda>q. length (q_items q)) q1 = Some q' \<and> q_items q' = []" by auto
  with q1 ms show ?case by (subst clear_queue.simps) simp
qed

text \<open>Sending stops when the queue is full.\<close>

lemma fill_fills:
  "length (q_items q) + n \<ge> q_cap q \<Longrightarrow> length (q_items q) \<le> q_cap q \<Longrightarrow> length (q_items (fill_queue q_put i n q)) = q_cap q"
proof (induction n arbitrary: i q)
  case 0
  then show ?case by simp
next
  case (Suc n)
  show ?case
  proof (cases "length (q_items q) < q_cap q")
    case True
    let ?m = "\<lparr>id_of = int i, data_of = ''Full queue test'', timestamp = 4000\<rparr>"
    obtain q' where q': "q_put q ?m = Some q'" "q_items q' = q_items q @ [?m]" "q_cap q' = q_cap q"
      using put_room [OF True] by blast
    with Suc True show ?thesis by simp
  next
    case False
    with Suc.prems put_full [of q] show ?thesis by simp
  qed
qed

lemma producer_inv:
  assumes "mq_inv q_items q_cap d"
  shows "mq_inv q_items q_cap (test_multithread q_put (\<lambda>q. length (q_items q)) d)"
proof (cases "mq_state d")
  case (Sending i)
  show ?thesis
  proof (cases "i < 3")
    case True
    have "length (received d) + length (q_items (mq d)) = i"
      using assms Sending by (auto simp: mq_inv_def sent_of_def dest: arg_cong [where f = length])
    then have "length (q_items (mq d)) < q_cap (mq d)" using assms True by (simp add: mq_inv_def)
    then obtain q where "q_put (mq d) (new_msg i) = Some q" "q_items q = q_items (mq d) @ [new_msg i]" "q_cap q = q_cap (mq d)"
      using put_room by blast
    then show ?thesis
      using assms Sending True by (simp add: test_multithread_def mq_inv_def sent_of_def flip: append_assoc)
  next
    case False
    then have "i = 3" using assms Sending by (simp add: mq_inv_def sent_of_def)
    with assms Sending show ?thesis by (simp add: test_multithread_def mq_inv_def sent_of_def)
  qed
qed (use assms in \<open>auto simp: test_multithread_def mq_inv_def sent_of_def\<close>)

lemma consumer_inv:
  assumes "mq_inv q_items q_cap d"
  shows "mq_inv q_items q_cap (msgq_consumer_thread q_get d)"
proof (cases "q_items (mq d)")
  case Nil
  then show ?thesis using assms get_empty [of "mq d"] by (simp add: msgq_consumer_thread_def)
next
  case (Cons m ms)
  obtain q where "q_get (mq d) = Some (m, q)" "q_items q = ms" "q_cap q = q_cap (mq d)" using get_first [OF Cons] by blast
  with assms Cons show ?thesis by (auto simp: msgq_consumer_thread_def mq_inv_def)
qed

lemma mq_run_inv:
  "mq_inv q_items q_cap d \<Longrightarrow> mq_inv q_items q_cap (fold (mq_step q_put q_get (\<lambda>q. length (q_items q))) es d)"
proof (induction es arbitrary: d)
  case Nil
  then show ?case by simp
next
  case (Cons e es)
  then have "mq_inv q_items q_cap (mq_step q_put q_get (\<lambda>q. length (q_items q)) e d)"
    by (cases e) (simp_all add: producer_inv consumer_inv)
  then show ?case using Cons.IH by simp
qed

end

text \<open>A list with its capacity is such a queue.\<close>

definition list_put :: "'m list \<times> nat \<Rightarrow> 'm \<Rightarrow> ('m list \<times> nat) option" where
  "list_put = (\<lambda>(ms, c) m. if length ms < c then Some (ms @ [m], c) else None)"

definition list_get :: "'m list \<times> nat \<Rightarrow> ('m \<times> 'm list \<times> nat) option" where
  "list_get = (\<lambda>(ms, c). case ms of [] \<Rightarrow> None | m # rest \<Rightarrow> Some (m, rest, c))"

interpretation list_queue: fifo "\<lambda>n. Some ([], n)" list_put list_get fst snd
  by unfold_locales (auto simp: list_put_def list_get_def)

text \<open>C15: The consumer gets every message. In every schedule of producer and consumer what was received followed by
  what is in the queue is what was sent, in order; and when the main task ends the test and deletes
  the consumer and the queue, the consumer has received all three messages.\<close>

theorem consumer_gets_every_message:
  assumes "fifo q_create q_put q_get q_items q_cap" and "q_create 10 = Some q"
    and "d = fold (mq_step q_put q_get (\<lambda>q. length (q_items q))) es (mq_start q)"
  shows "received d @ q_items (mq d) = map new_msg [0..<sent_of (mq_state d)] \<and>
    (mq_state d = Finished \<longrightarrow> received d = [new_msg 0, new_msg 1, new_msg 2])"
proof -
  have "q_items q = []" "q_cap q = 10" using fifo.created [OF assms(1), of 10] assms(2) by auto
  then have "mq_inv q_items q_cap (mq_start q)" by (simp add: mq_inv_def mq_start_def sent_of_def)
  then have "mq_inv q_items q_cap d" unfolding assms(3) by (rule fifo.mq_run_inv [OF assms(1)])
  then show ?thesis by (auto simp: mq_inv_def sent_of_def eval_nat_numeral)
qed

theorem consumer_gets_every_message_witness:
  "received (fold (mq_step list_put list_get (\<lambda>q. length (fst q)))
     [Producer, Producer, Consumer, Producer, Consumer, Producer, Consumer, Producer, Producer] (mq_start ([], 10)))
   = [new_msg 0, new_msg 1, new_msg 2]"
proof -
  let ?d = "fold (mq_step list_put list_get (\<lambda>q. length (fst q)))
     [Producer, Producer, Consumer, Producer, Consumer, Producer, Consumer, Producer, Producer] (mq_start ([], 10))"
  have "mq_state ?d = Finished"
    by (simp add: mq_start_def test_multithread_def msgq_consumer_thread_def list_put_def list_get_def)
  then show ?thesis
    using consumer_gets_every_message [OF list_queue.fifo_axioms refl, of ?d] by blast
qed

text \<open>The tests with one thread: the first message comes out first, five messages fill a queue of five, and
  the loop that clears it ends.\<close>

lemma single_thread_tests:
  assumes "fifo q_create q_put q_get q_items q_cap"
  shows "test_basic_operations q_create q_put q_get (\<lambda>q. length (q_items q)) err =
      (0, Some \<lparr>id_of = 1, data_of = ''Hello'', timestamp = 1000\<rparr>, [1, 2, 1])"
    and "test_boundary_conditions q_create q_put q_get (\<lambda>q. length (q_items q)) = Some (Inr (5, 0, True))"
proof -
  let ?m1 = "\<lparr>id_of = 1, data_of = ''Hello'', timestamp = 1000\<rparr>" and ?m2 = "\<lparr>id_of = 2, data_of = ''World'', timestamp = 2000\<rparr>"
  obtain q0 where q0: "q_create 5 = Some q0" "q_items q0 = []" "q_cap q0 = 5" using fifo.created [OF assms, of 5] by auto
  obtain q1 where q1: "q_put q0 ?m1 = Some q1" "q_items q1 = [?m1]" "q_cap q1 = 5"
    using fifo.put_room [OF assms, of q0 ?m1] q0 by auto
  obtain q2 where q2: "q_put q1 ?m2 = Some q2" "q_items q2 = [?m1, ?m2]" using fifo.put_room [OF assms, of q1 ?m2] q1 by auto
  obtain q3 where q3: "q_get q2 = Some (?m1, q3)" "q_items q3 = [?m2]" using fifo.get_first [OF assms q2(2)] by auto
  from q0 q1 q2 q3 show "test_basic_operations q_create q_put q_get (\<lambda>q. length (q_items q)) err = (0, Some ?m1, [1, 2, 1])"
    by (simp add: test_basic_operations_def)
  have full: "length (q_items (fill_queue q_put 0 10 q0)) = 5" using fifo.fill_fills [OF assms, of q0 10 0] q0 by simp
  obtain q where "clear_queue q_get (\<lambda>q. length (q_items q)) (fill_queue q_put 0 10 q0) = Some q" "q_items q = []"
    using fifo.clear_empties [OF assms] by blast
  with q0 full fifo.get_empty [OF assms] show
    "test_boundary_conditions q_create q_put q_get (\<lambda>q. length (q_items q)) = Some (Inr (5, 0, True))"
    by (simp add: test_boundary_conditions_def del: fill_queue.simps)
qed

end
