(* ===== verification/Event_Flags.thy ===== *)
theory Event_Flags
  imports UniRTOS_Prelude
begin

text \<open>
  The event flag example, \<^verbatim>\<open>system/sync_comm/event_flag/event_demo.c\<close>.

  A thread waits three times for flags that the main task sets and clears. The flags of the kernel are
  a parameter with the interface \<open>event_flags\<close>: setting and clearing work on the bits of a word. A run is
  a list of turns of the two tasks in any order.
\<close>

unbundle bit_operations_syntax

locale event_flags =
  fixes flag_set flag_clear :: "'f \<Rightarrow> u32 \<Rightarrow> 'f" and bits :: "'f \<Rightarrow> u32"
  assumes set_bits: "bits (flag_set f m) = bits f OR m"
    and clear_bits: "bits (flag_clear f m) = bits f AND NOT m"

section \<open>The example\<close>

datatype wait_mode = WAIT_ANY | WAIT_ALL

text \<open>\<^verbatim>\<open>qosa_flag_wait\<close>: \<open>None\<close> while the condition does not hold.\<close>

definition flag_wait :: "('f \<Rightarrow> u32 \<Rightarrow> 'f) \<Rightarrow> ('f \<Rightarrow> u32) \<Rightarrow> u32 \<Rightarrow> bool \<Rightarrow> wait_mode \<Rightarrow> 'f \<Rightarrow> 'f option" where
  "flag_wait flag_clear bits m clear mode f =
     (if (case mode of WAIT_ANY \<Rightarrow> bits f AND m \<noteq> 0 | WAIT_ALL \<Rightarrow> bits f AND m = m)
      then Some (if clear then flag_clear f m else f) else None)"

record 'f flag_demo =
  ef :: 'f
  thread_pc :: nat                     \<comment> \<open>how many of its waits have returned\<close>
  main_pc :: nat
  thread_there :: bool

text \<open>The third wait has a timeout, so it returns in any case.\<close>

definition event_flags_test_thread :: "('f \<Rightarrow> u32 \<Rightarrow> 'f) \<Rightarrow> ('f \<Rightarrow> u32) \<Rightarrow> 'f flag_demo \<Rightarrow> 'f flag_demo" where
  "event_flags_test_thread flag_clear bits d =
     (if \<not> thread_there d then d
      else if thread_pc d = 0 then
        (case flag_wait flag_clear bits 0x03 True WAIT_ANY (ef d) of
           None \<Rightarrow> d | Some f \<Rightarrow> d\<lparr>ef := f, thread_pc := 1\<rparr>)
      else if thread_pc d = 1 then
        (case flag_wait flag_clear bits 0x07 True WAIT_ALL (ef d) of
           None \<Rightarrow> d | Some f \<Rightarrow> d\<lparr>ef := f, thread_pc := 2\<rparr>)
      else if thread_pc d = 2 then d\<lparr>thread_pc := 3\<rparr>
      else d)"

definition test_set_flags :: "('f \<Rightarrow> u32 \<Rightarrow> 'f) \<Rightarrow> 'f flag_demo \<Rightarrow> 'f flag_demo" where
  "test_set_flags flag_set d =
     (if main_pc d = 0 then d\<lparr>ef := flag_set (ef d) 0x01, main_pc := 1\<rparr>
      else if main_pc d = 1 then d\<lparr>ef := flag_set (ef d) 0x02, main_pc := 2\<rparr>
      else d)"

definition test_clear_flags :: "('f \<Rightarrow> u32 \<Rightarrow> 'f) \<Rightarrow> ('f \<Rightarrow> u32 \<Rightarrow> 'f) \<Rightarrow> 'f flag_demo \<Rightarrow> 'f flag_demo" where
  "test_clear_flags flag_set flag_clear d =
     (if main_pc d = 2 then d\<lparr>ef := flag_clear (ef d) 0x01, main_pc := 3\<rparr>
      else if main_pc d = 3 then d\<lparr>ef := flag_set (ef d) 0x04, main_pc := 4\<rparr>
      else d)"

text \<open>The wait of the main task has a timeout too.\<close>

definition test_timeout_wait :: "('f \<Rightarrow> u32 \<Rightarrow> 'f) \<Rightarrow> ('f \<Rightarrow> u32) \<Rightarrow> 'f flag_demo \<Rightarrow> 'f flag_demo" where
  "test_timeout_wait flag_clear bits d =
     (case flag_wait flag_clear bits 0x08 True WAIT_ANY (ef d) of
        None \<Rightarrow> d\<lparr>main_pc := 5\<rparr> | Some f \<Rightarrow> d\<lparr>ef := f, main_pc := 5\<rparr>)"

definition cleanup_test :: "'f flag_demo \<Rightarrow> 'f flag_demo" where
  "cleanup_test d = d\<lparr>main_pc := 6, thread_there := False\<rparr>"

definition flag_main :: "('f \<Rightarrow> u32 \<Rightarrow> 'f) \<Rightarrow> ('f \<Rightarrow> u32 \<Rightarrow> 'f) \<Rightarrow> ('f \<Rightarrow> u32) \<Rightarrow> 'f flag_demo \<Rightarrow> 'f flag_demo" where
  "flag_main flag_set flag_clear bits d =
     (if main_pc d < 2 then test_set_flags flag_set d
      else if main_pc d < 4 then test_clear_flags flag_set flag_clear d
      else if main_pc d = 4 then test_timeout_wait flag_clear bits d
      else if main_pc d = 5 then cleanup_test d
      else d)"

text \<open>A turn: of the main task, or else of the thread.\<close>

definition flag_step :: "('f \<Rightarrow> u32 \<Rightarrow> 'f) \<Rightarrow> ('f \<Rightarrow> u32 \<Rightarrow> 'f) \<Rightarrow> ('f \<Rightarrow> u32) \<Rightarrow> bool \<Rightarrow> 'f flag_demo \<Rightarrow> 'f flag_demo" where
  "flag_step flag_set flag_clear bits main_turn d =
     (if main_turn then flag_main flag_set flag_clear bits d else event_flags_test_thread flag_clear bits d)"

definition flag_start :: "'f \<Rightarrow> 'f flag_demo" where
  "flag_start f = \<lparr>ef = f, thread_pc = 0, main_pc = 0, thread_there = True\<rparr>"

section \<open>The flags are never all set\<close>

text \<open>Up to the clearing bit 2 is not set, from then on bit 0 is not; bit 3 never is.\<close>

definition flag_inv :: "('f \<Rightarrow> u32) \<Rightarrow> 'f flag_demo \<Rightarrow> bool" where
  "flag_inv bits d \<longleftrightarrow> thread_pc d \<le> 1 \<and> main_pc d \<le> 6 \<and> \<not> bit (bits (ef d)) 3 \<and>
     (main_pc d \<le> 3 \<longrightarrow> \<not> bit (bits (ef d)) 2) \<and> (3 \<le> main_pc d \<longrightarrow> \<not> bit (bits (ef d)) 0)"

lemma mask_bits:
  "bit (0x01 :: u32) n \<longleftrightarrow> n = 0" "bit (0x02 :: u32) n \<longleftrightarrow> n = 1" "bit (0x04 :: u32) n \<longleftrightarrow> n = 2" "bit (0x08 :: u32) n \<longleftrightarrow> n = 3"
  using bit_push_bit_iff [of 1 "1 :: u32" n] bit_push_bit_iff [of 2 "1 :: u32" n] bit_push_bit_iff [of 3 "1 :: u32" n]
  by (auto simp: bit_1_iff push_bit_eq_mult)

lemma all_of_seven:
  assumes "w AND (0x07 :: u32) = 0x07"
  shows "bit w 0" and "bit w 2"
proof -
  have seven: "bit (0x07 :: u32) 0" "bit (0x07 :: u32) 2" by (simp_all add: bit_iff_odd)
  from assms have "bit (w AND 0x07) n = bit (0x07 :: u32) n" for n by simp
  with seven show "bit w 0" and "bit w 2" by (metis bit_and_iff)+
qed

lemma no_eight:
  assumes "\<not> bit w 3"
  shows "w AND (0x08 :: u32) = 0"
proof (rule bit_eqI)
  fix n
  have "\<not> (bit w n \<and> bit (0x08 :: u32) n)" using assms mask_bits(4) [of n] by metis
  then show "bit (w AND (0x08 :: u32)) n = bit (0 :: u32) n" by (simp only: bit_and_iff bit_0_eq bot_apply bot_bool_def)
qed

context event_flags
begin

lemma thread_keeps:
  assumes inv: "flag_inv bits d"
  shows "flag_inv bits (event_flags_test_thread flag_clear bits d)"
proof -
  have pc: "thread_pc d = 0 \<or> thread_pc d = 1" using inv by (auto simp: flag_inv_def)
  have "\<not> (bit (bits (ef d)) 0 \<and> bit (bits (ef d)) 2)" using inv by (auto simp: flag_inv_def)
  then have "bits (ef d) AND 0x07 \<noteq> 0x07" using all_of_seven by blast
  then have "flag_wait flag_clear bits 0x07 True WAIT_ALL (ef d) = None" by (simp add: flag_wait_def)
  with inv pc show ?thesis
    by (auto simp: event_flags_test_thread_def flag_wait_def flag_inv_def clear_bits bit_and_iff split: option.splits if_splits)
qed

lemma main_keeps:
  assumes inv: "flag_inv bits d"
  shows "flag_inv bits (flag_main flag_set flag_clear bits d)"
proof -
  have "flag_wait flag_clear bits 0x08 True WAIT_ANY (ef d) = None"
    using inv no_eight by (simp add: flag_wait_def flag_inv_def)
  moreover have "main_pc d \<in> {0, 1, 2, 3, 4, 5, 6}" using inv by (auto simp: flag_inv_def)
  ultimately show ?thesis
    using inv
    by (auto simp: flag_main_def test_set_flags_def test_clear_flags_def test_timeout_wait_def cleanup_test_def flag_inv_def
        set_bits clear_bits bit_or_iff bit_and_iff bit_not_iff mask_bits)
qed

lemma flag_run_inv: "flag_inv bits d \<Longrightarrow> flag_inv bits (fold (flag_step flag_set flag_clear bits) es d)"
  by (induction es arbitrary: d) (simp_all add: flag_step_def thread_keeps main_keeps)

end

text \<open>Words with the bitwise operations are such flags.\<close>

interpretation word_flags: event_flags "\<lambda>f m. f OR m" "\<lambda>f m. f AND NOT m" "\<lambda>f. f"
  by unfold_locales simp_all

text \<open>The thread never gets all its flags. Flag 1 is cleared before flag 4 is set, so whatever the schedule, the
  second wait of the thread, for flags 1, 2 and 4 together and without a timeout, never returns: the
  third wait of the example is never reached, and the clean-up deletes the thread while it waits.\<close>

theorem wait_for_all_never_returns:
  assumes "event_flags flag_set flag_clear bits" and "bits f = 0"
    and "d = fold (flag_step flag_set flag_clear bits) es (flag_start f)"
  shows "thread_pc d \<le> 1 \<and> bits (ef d) AND 0x07 \<noteq> 0x07"
proof -
  have "flag_inv bits (flag_start f)" using assms(2) by (simp add: flag_inv_def flag_start_def)
  then have inv: "flag_inv bits d" unfolding assms(3) by (rule event_flags.flag_run_inv [OF assms(1)])
  then have "\<not> (bit (bits (ef d)) 0 \<and> bit (bits (ef d)) 2)" by (auto simp: flag_inv_def)
  with inv all_of_seven show ?thesis by (auto simp: flag_inv_def)
qed

theorem wait_for_all_never_returns_witness:
  "thread_pc (fold (flag_step (\<lambda>f m. f OR m) (\<lambda>f m. f AND NOT m) (\<lambda>f. f))
     [True, False, True, False, True, True, False, True, False, True] (flag_start 0)) \<le> 1"
  using wait_for_all_never_returns [OF word_flags.event_flags_axioms _ refl, of 0
      "[True, False, True, False, True, True, False, True, False, True]"]
  by simp

end
