(* ===== verification/Sync_Tests.thy ===== *)
theory Sync_Tests
  imports Sync_Locks Sync_Queue Event_Flags
begin

text \<open>
  What is left of the synchronisation examples (\<^verbatim>\<open>system/sync_comm\<close>): the calls without an
  object, the timed lock of \<^verbatim>\<open>mutex_demo.c\<close>, and the entry functions that run the tests of
  each file one after another. A test that interleaves with threads takes its schedule as an argument;
  \<open>None\<close> says that the schedule ends before the test does.
\<close>

section \<open>The semaphore test\<close>

datatype sync_line =
    Invalid_creation bool     \<comment> \<open>\<^verbatim>\<open>PASSED\<close> is \<open>True\<close>\<close>
  | Initial_above_maximum bool
  | Object_deleted
  | Invalid_answers "int list"
  | Deletion_result int

text \<open>The answers of the calls with a \<^verbatim>\<open>NULL\<close> handle are printed. A handle that a refused creation left behind is deleted.\<close>

definition sem_error_handling :: "(nat \<Rightarrow> nat \<Rightarrow> 's option) \<Rightarrow> int list \<Rightarrow> sync_line list" where
  "sem_error_handling sem_create null_answers =
     (case sem_create 1 0 of None \<Rightarrow> [Invalid_creation True] | Some s \<Rightarrow> [Invalid_creation False, Object_deleted]) @
     (case sem_create 2 1 of None \<Rightarrow> [Initial_above_maximum True] | Some s \<Rightarrow> [Initial_above_maximum False, Object_deleted]) @
     [Invalid_answers null_answers]"

text \<open>The error codes the tests return.\<close>

record sem_codes =
  sema_create_err :: int
  task_create_err :: int
  sema_timeout_err :: int

definition osSemaphoreTest_init ::
  "(nat \<Rightarrow> nat \<Rightarrow> 's option) \<Rightarrow> ('s \<Rightarrow> 's option) \<Rightarrow> ('s \<Rightarrow> 's) \<Rightarrow> ('s \<Rightarrow> nat) \<Rightarrow> sem_codes \<Rightarrow>
   demo_step list \<Rightarrow> int list \<Rightarrow> int \<Rightarrow> (int \<times> sync_line list) option" where
  "osSemaphoreTest_init sem_create sem_wait sem_release sem_cnt k es null_answers delete_result =
     (case test_basic_semaphore sem_create (sema_create_err k) of
        Inl r \<Rightarrow> Some (sema_create_err k, [])
      | Inr d0 \<Rightarrow>
          (case main (fold (sem_step sem_wait sem_release (task_create_err k)) es d0) of
             Returned r \<Rightarrow>
               if r \<noteq> 0 then Some (task_create_err k, []) else
               (case test_timeout_acquire sem_create sem_wait (sema_create_err k) of
                  Inl r \<Rightarrow> Some (sema_timeout_err k, [])
                | Inr timed_out \<Rightarrow>
                    (case test_counting_semaphore sem_create sem_wait sem_release sem_cnt (sema_create_err k) of
                       Inl r \<Rightarrow> Some (sema_create_err k, [])
                     | Inr counts \<Rightarrow>
                         Some (0, sem_error_handling sem_create null_answers @ [Deletion_result delete_result])))
           | _ \<Rightarrow> None))"

text \<open>The main task of the competition test has at most twenty turns before it returns.\<close>

fun turns_left :: "sem_main \<Rightarrow> nat" where
  "turns_left (Creating i) = 16 + (3 - i)"
| "turns_left (Polling n) = 5 + (10 - n)"
| "turns_left (Cleaning i) = 1 + (3 - i)"
| "turns_left (Returned r) = 0"

lemma main_turn_progress:
  "turns_left (main (test_multi_thread_competition err b d)) \<le> turns_left (main d) - 1"
  by (cases "main d") (auto simp: test_multi_thread_competition_def)

lemma thread_turn_main: "main (semaphore_test_thread sem_wait sem_release i d) = main d"
  by (simp add: semaphore_test_thread_def)

definition main_turns :: "demo_step list \<Rightarrow> nat" where
  "main_turns es = length (filter (\<lambda>e. case e of Main b \<Rightarrow> True | Thread i \<Rightarrow> False) es)"

lemma turns_run:
  "turns_left (main (fold (sem_step sem_wait sem_release err) es d)) \<le> turns_left (main d) - main_turns es"
proof (induction es arbitrary: d)
  case Nil
  then show ?case by (simp add: main_turns_def)
next
  case (Cons e es)
  show ?case
  proof (cases e)
    case (Thread i)
    then show ?thesis using Cons.IH [of "semaphore_test_thread sem_wait sem_release i d"]
      by (simp add: main_turns_def thread_turn_main)
  next
    case (Main b)
    let ?d = "test_multi_thread_competition err b d"
    have "turns_left (main ?d) - main_turns es \<le> turns_left (main d) - 1 - main_turns es"
      using main_turn_progress [of err b d] by (rule diff_le_mono)
    with Main Cons.IH [of ?d] show ?thesis by (simp add: main_turns_def)
  qed
qed

text \<open>With every creation of a thread successful the competition test returns 0.\<close>

definition creations_succeed :: "demo_step list \<Rightarrow> bool" where
  "creations_succeed es \<longleftrightarrow> Main False \<notin> set es"

lemma returns_zero:
  "creations_succeed es \<Longrightarrow> (\<forall>r. main d = Returned r \<longrightarrow> r = 0) \<Longrightarrow>
   main (fold (sem_step sem_wait sem_release err) es d) = Returned r \<Longrightarrow> r = 0"
proof (induction es arbitrary: d)
  case Nil
  then show ?case by simp
next
  case (Cons e es)
  have rest: "creations_succeed es" using Cons.prems(1) by (simp add: creations_succeed_def)
  have "\<forall>r. main (sem_step sem_wait sem_release err e d) = Returned r \<longrightarrow> r = 0"
    using Cons.prems(1,2)
    by (cases e; cases "main d")
      (auto simp: thread_turn_main test_multi_thread_competition_def creations_succeed_def)
  then show ?case using Cons.IH [OF rest] Cons.prems(3) by simp
qed



section \<open>The message queue test\<close>

definition mq_error_handling :: "(nat \<Rightarrow> 'q option) \<Rightarrow> int list \<Rightarrow> sync_line list" where
  "mq_error_handling q_create null_answers =
     (case q_create 0 of None \<Rightarrow> [Invalid_creation True] | Some q \<Rightarrow> [Invalid_creation False, Object_deleted]) @
     [Invalid_answers null_answers]"

text \<open>The test with two threads needs a semaphore and a queue of ten. The result of creating its thread
  is not looked at: without the thread the wait for it, which has no timeout, never returns.\<close>

definition osMessageQueueTest_init ::
  "(nat \<Rightarrow> 'q option) \<Rightarrow> ('q \<Rightarrow> test_msg \<Rightarrow> 'q option) \<Rightarrow> ('q \<Rightarrow> (test_msg \<times> 'q) option) \<Rightarrow> ('q \<Rightarrow> nat) \<Rightarrow> int \<Rightarrow>
   bool \<Rightarrow> bool \<Rightarrow> mq_turn list \<Rightarrow> int list \<Rightarrow> (int \<times> sync_line list) option" where
  "osMessageQueueTest_init q_create q_put q_get q_cnt err sem_created created es null_answers =
     (if fst (test_basic_operations q_create q_put q_get q_cnt err) \<noteq> 0 then Some (- 1, [])
      else if \<not> sem_created then Some (- 1, [])
      else
        (case q_create 10 of
           None \<Rightarrow> Some (- 1, [])
         | Some q \<Rightarrow>
             if \<not> created then None
             else if mq_state (fold (mq_step q_put q_get q_cnt) es (mq_start q)) \<noteq> Finished then None
             else
               (case test_boundary_conditions q_create q_put q_get q_cnt of
                  None \<Rightarrow> None
                | Some (Inl r) \<Rightarrow> Some (- 1, [])
                | Some (Inr counts) \<Rightarrow> Some (0, mq_error_handling q_create null_answers))))"

text \<open>Whenever the schedule brings the producer to its end, the tests pass.\<close>

theorem message_queue_test_passes:
  assumes "fifo q_create q_put q_get q_items q_cap" "q_create 0 = None" "q_create 10 = Some q"
    and "mq_state (fold (mq_step q_put q_get (\<lambda>q. length (q_items q))) es (mq_start q)) = Finished"
  shows "osMessageQueueTest_init q_create q_put q_get (\<lambda>q. length (q_items q)) err True True es as =
    Some (0, [Invalid_creation True, Invalid_answers as])"
  using assms(2-4)
  by (simp add: osMessageQueueTest_init_def single_thread_tests [OF assms(1)] mq_error_handling_def)

section \<open>The event flag test\<close>

definition create_event_flags :: "'f option \<Rightarrow> bool \<times> 'f option" where
  "create_event_flags f = (case f of None \<Rightarrow> (False, None) | Some f \<Rightarrow> (True, Some f))"

definition create_test_thread :: "bool \<Rightarrow> 'f \<Rightarrow> 'f flag_demo option" where
  "create_test_thread created f = (if created then Some (flag_start f) else None)"

definition flag_error_cases :: "int list \<Rightarrow> sync_line list" where
  "flag_error_cases null_answers = [Invalid_answers null_answers]"

text \<open>The four tests and the clean-up return true, so only the two creations can end the test
  early; the flags are deleted when the thread could not be created. The result is \<open>None\<close> while the main
  task has not come to its end.\<close>

definition osEventFlagsTest_init ::
  "('f \<Rightarrow> u32 \<Rightarrow> 'f) \<Rightarrow> ('f \<Rightarrow> u32 \<Rightarrow> 'f) \<Rightarrow> ('f \<Rightarrow> u32) \<Rightarrow> 'f option \<Rightarrow> bool \<Rightarrow> bool list \<Rightarrow> int list \<Rightarrow> int \<Rightarrow>
   (bool \<times> sync_line list) option" where
  "osEventFlagsTest_init flag_set flag_clear bits flags created es null_answers delete_result =
     (case create_event_flags flags of
        (_, None) \<Rightarrow> Some (False, [])
      | (_, Some f) \<Rightarrow>
          (case create_test_thread created f of
             None \<Rightarrow> Some (False, [Object_deleted])
           | Some d0 \<Rightarrow>
               if main_pc (fold (flag_step flag_set flag_clear bits) es d0) = 6
               then Some (True, Deletion_result delete_result # flag_error_cases null_answers) else None))"

text \<open>Six turns of the main task complete the test, although the thread never gets past its second
  wait (\<open>wait_for_all_never_returns\<close>): it is deleted while it waits, and the test passes.\<close>

lemma main_pc_turn: "main_pc d \<le> 6 \<Longrightarrow> main_pc (flag_main s c b d) = min 6 (main_pc d + 1)"
  by (auto simp: flag_main_def test_set_flags_def test_clear_flags_def test_timeout_wait_def cleanup_test_def
      split: option.splits)

lemma main_pc_thread: "main_pc (event_flags_test_thread c b d) = main_pc d"
  by (auto simp: event_flags_test_thread_def split: option.splits)

lemma main_pc_run:
  "main_pc d \<le> 6 \<Longrightarrow> main_pc (fold (flag_step s c b) es d) = min 6 (main_pc d + length (filter id es))"
  by (induction es arbitrary: d) (auto simp: flag_step_def main_pc_turn main_pc_thread)

theorem event_flag_test_passes_without_thread:
  assumes "event_flags flag_set flag_clear bits" "bits f = 0" "6 \<le> length (filter id es)"
  shows "osEventFlagsTest_init flag_set flag_clear bits (Some f) True es as r =
      Some (True, [Deletion_result r, Invalid_answers as]) \<and>
    thread_pc (fold (flag_step flag_set flag_clear bits) es (flag_start f)) \<le> 1"
proof -
  have "main_pc (fold (flag_step flag_set flag_clear bits) es (flag_start f)) = 6"
    using assms(3) by (simp add: main_pc_run flag_start_def)
  moreover have "flag_inv bits (flag_start f)"
    using assms(2) by (simp add: flag_inv_def flag_start_def)
  then have "flag_inv bits (fold (flag_step flag_set flag_clear bits) es (flag_start f))"
    by (rule event_flags.flag_run_inv [OF assms(1)])
  ultimately show ?thesis
    by (simp add: osEventFlagsTest_init_def create_event_flags_def create_test_thread_def flag_error_cases_def flag_inv_def)
qed

section \<open>The timed lock\<close>

text \<open>Times in milliseconds since the two tasks were created: when each begins to run, how long the
  sleep of 500 of the low task, the sleep of 100 of the high task and the sleep of 1200 of
  the main task take.\<close>

record lock_times =
  low_begins :: nat
  low_sleep :: nat
  high_begins :: nat
  high_sleep :: nat
  main_sleep :: nat

datatype lock_answer = Locked_at nat | Timed_out_at nat

text \<open>The low task holds the mutex from when it begins; should the high task have come first, it has
  released it without any time passing.\<close>

definition low_priority_task :: "lock_times \<Rightarrow> nat \<times> nat" where
  "low_priority_task t = (low_begins t, low_begins t + low_sleep t)"

definition high_priority_task :: "lock_times \<Rightarrow> lock_answer" where
  "high_priority_task t =
     (let now = high_begins t + high_sleep t; (taken, released) = low_priority_task t in
      if now < taken \<or> released \<le> now then Locked_at now
      else if released \<le> now + 1000 then Locked_at released
      else Timed_out_at (now + 1000))"

text \<open>When the last task is through with the mutex.\<close>

definition mutex_last_use :: "lock_times \<Rightarrow> nat" where
  "mutex_last_use t =
     (case high_priority_task t of
        Locked_at u \<Rightarrow> sup u (snd (low_priority_task t))
      | Timed_out_at u \<Rightarrow> sup u (snd (low_priority_task t)))"

text \<open>\<^verbatim>\<open>app_main_01\<close>: the mutex, then both tasks; without the mutex there are no tasks, and the
  creation of either task can fail. The tasks that run and whether there is a mutex.\<close>

definition app_main_01 :: "bool \<Rightarrow> bool \<Rightarrow> bool \<Rightarrow> bool \<times> bool \<times> bool" where
  "app_main_01 mutex_created low_created high_created =
     (if \<not> mutex_created then (False, False, False) else (True, low_created, high_created))"

text \<open>The main task deletes the mutex after its sleep, whoever uses it; the test returns
  \<^verbatim>\<open>QOSA_OK\<close>. Given is when it was deleted and what the high task got.\<close>

definition mutex_timeout_test :: "bool \<Rightarrow> bool \<Rightarrow> bool \<Rightarrow> lock_times \<Rightarrow> nat option \<times> lock_answer option" where
  "mutex_timeout_test mutex_created low_created high_created t =
     (let (m, l, h) = app_main_01 mutex_created low_created high_created in
      (if m then Some (main_sleep t) else None,
       if \<not> h then None
       else if l then Some (high_priority_task t)
       else Some (Locked_at (high_begins t + high_sleep t))))"

definition mutex_error_test :: "int list \<Rightarrow> int \<times> sync_line list" where
  "mutex_error_test null_answers = (0, [Invalid_answers null_answers])"

text \<open>The high task times out exactly when the low one holds the mutex from before its attempt to more than a
  second after it.\<close>

lemma high_task_times_out:
  "(\<exists>u. high_priority_task t = Timed_out_at u) \<longleftrightarrow>
     low_begins t \<le> high_begins t + high_sleep t \<and>
     high_begins t + high_sleep t + 1000 < low_begins t + low_sleep t"
  by (auto simp: high_priority_task_def low_priority_task_def Let_def)

text \<open>When tasks begin and sleeps end at most fifty milliseconds late, the high task waits for the
  low one and gets the mutex as it is released, and the mutex is deleted more than half a second
  after its last use.\<close>

theorem timed_lock_obtained:
  assumes "low_begins t \<le> 50" "high_begins t \<le> 50"
    and "500 \<le> low_sleep t" "low_sleep t \<le> 550" "100 \<le> high_sleep t" "high_sleep t \<le> 150"
    and "1200 \<le> main_sleep t"
  shows "mutex_timeout_test True True True t =
      (Some (main_sleep t), Some (Locked_at (low_begins t + low_sleep t))) \<and>
    mutex_last_use t + 600 \<le> main_sleep t"
  using assms
  by (simp add: mutex_timeout_test_def app_main_01_def high_priority_task_def low_priority_task_def mutex_last_use_def)

end
