(* ===== verification/Websocket.thy ===== *)
theory Websocket
  imports UniRTOS_Prelude "HOL-Library.Sublist"
begin

text \<open>
  The WebSocket client, \<^verbatim>\<open>network/network_protocol/websocket/websocket_demo.c\<close>.

  State: the global context \<open>g_web_ctx\<close> (status, the transfer of the test file) and the queue of the
  task. Operations: the library's callback, configuration and opening, reading, the write test,
  which sends a text and then a file block by block and stops when the library has no room, and the
  task.

  The file is its content and what a read at a position yields; the library's answer to the \<open>k\<close>-th
  write of a call is \<open>ws_write k\<close>. Loops that may not end have the value \<open>None\<close>.
\<close>

section \<open>Data\<close>

definition WEBSOCKET_DEMO_WSS_URL :: string where "WEBSOCKET_DEMO_WSS_URL = ''wss://echo.websocket.events''"
definition WEBSOCKET_DEMO_TEST_CONTENT :: string where "WEBSOCKET_DEMO_TEST_CONTENT = ''Hello Welcome to test websocket!''"
definition WEBSOCKET_DEMO_FILENAME :: string where "WEBSOCKET_DEMO_FILENAME = ''/user/web_test2.txt''"
definition WEBSOCKET_DEMO_PING_INTERVAL :: int where "WEBSOCKET_DEMO_PING_INTERVAL = 10"
definition WEBSOCKET_DEMO_MSG_MAX_CNT :: nat where "WEBSOCKET_DEMO_MSG_MAX_CNT = 5"

datatype web_demo_event = WEB_OPEN | WEB_RECV int | WEB_WRITE | WEB_CLOSEING | WEB_CLOSED

datatype web_demo_status = STATUS_INIT | STATUS_CONNECTING | STATUS_CONNECTED | STATUS_TCP_CLOSING

record web_demo_data =
  is_file :: int
  total_len :: nat
  used_len :: nat
  fd :: int
  buf :: "string option"
  buf_len :: nat
  complete :: int
  fpos :: nat                        \<comment> \<open>the position of the open file, kept by the file system\<close>

record web_demo_ctx =
  states :: web_demo_status
  data :: web_demo_data
  msgq :: "web_demo_event list"

datatype cb_type = TYPE_OPEN int | TYPE_CLOSE | TYPE_RECV int | TYPE_WRITE | TYPE_OTHER

datatype write_result = Ws_ok | Ws_nomem | Ws_error

record web_env =
  send_buf :: nat                    \<comment> \<open>\<^verbatim>\<open>WEBSOCKET_DEMO_SEND_BUF\<close>, a constant of the library\<close>
  buf_alloc :: bool
  opened :: int
  fstat_size :: "nat option"
  content :: string                  \<comment> \<open>of the file\<close>
  vfs_read :: "nat \<Rightarrow> nat \<Rightarrow> int"    \<comment> \<open>position, bytes asked for\<close>
  ws_write :: "nat \<Rightarrow> write_result"
  read_alloc :: bool

datatype web_call =
    Ws_configure string nat
  | Ws_open
  | Ws_write string write_result
  | Ws_close
  | Ws_read int
  | File_open
  | File_close int
  | Buf_free

section \<open>Callback\<close>

text \<open>Posting does not wait: into a full queue the message is lost.\<close>

definition post :: "web_demo_event \<Rightarrow> web_demo_ctx \<Rightarrow> web_demo_ctx" where
  "post m s = (if length (msgq s) < WEBSOCKET_DEMO_MSG_MAX_CNT then s\<lparr>msgq := msgq s @ [m]\<rparr> else s)"

definition quec_web_demo_service_cb :: "cb_type \<Rightarrow> web_demo_ctx \<Rightarrow> web_demo_ctx" where
  "quec_web_demo_service_cb ty s =
     (case ty of
        TYPE_OPEN result \<Rightarrow> post WEB_OPEN (s\<lparr>states := (if result = 0 then STATUS_CONNECTED else STATUS_INIT)\<rparr>)
      | TYPE_CLOSE \<Rightarrow> post WEB_CLOSED (s\<lparr>states := STATUS_INIT\<rparr>)
      | TYPE_RECV len \<Rightarrow> post (WEB_RECV len) s
      | TYPE_WRITE \<Rightarrow> post WEB_CLOSEING s
      | TYPE_OTHER \<Rightarrow> s)"

section \<open>Configuration\<close>

record web_config =
  conn_url :: string
  ca_cert :: "string option"
  own_cert :: "string option"
  own_key :: "string option"
  ping_interval :: int
  write_buffer :: nat

text \<open>\<^verbatim>\<open>WEBSOCKET_DEMO_TEST_WSS\<close> and \<^verbatim>\<open>WEBSOCKET_DEMO_TEST_WSSAUTH\<close> are 1; the three blocks for the paths are
  used without a test.\<close>

definition quec_web_demo_cfg_init :: "bool \<Rightarrow> nat \<Rightarrow> web_config c_result" where
  "quec_web_demo_cfg_init allocs sendbuf =
     (if \<not> allocs then Inl Null_dereference
      else Inr \<lparr>conn_url = WEBSOCKET_DEMO_WSS_URL, ca_cert = Some ''cacert.pem'', own_cert = Some ''clicert.pem'',
                own_key = Some ''clikey.pem'', ping_interval = WEBSOCKET_DEMO_PING_INTERVAL, write_buffer = sendbuf\<rparr>)"

text \<open>Opening: what the library is told; its answer only goes to the log.\<close>

definition quec_web_demo_open :: "bool \<Rightarrow> nat \<Rightarrow> web_call list c_result" where
  "quec_web_demo_open allocs sendbuf =
     c_bind (quec_web_demo_cfg_init allocs sendbuf) (\<lambda>cfg. Inr [Ws_configure (conn_url cfg) (write_buffer cfg), Ws_open])"

section \<open>Reading and writing\<close>

definition quec_web_demo_read_test :: "web_env \<Rightarrow> int \<Rightarrow> web_call list" where
  "quec_web_demo_read_test env len = (if read_alloc env then [Ws_read len] else [])"

text \<open>Only a negative answer ends the read before its length is reached.\<close>

partial_function (option) quec_web_file_read :: "(nat \<Rightarrow> int) \<Rightarrow> nat \<Rightarrow> nat \<Rightarrow> (int \<times> nat) option" where
  "quec_web_file_read io len temp_len =
     (if temp_len < len then
        (if io temp_len < 0 then Some (-1, temp_len)
         else quec_web_file_read io len (temp_len + nat (io temp_len)))
      else Some (0, temp_len))"

definition write_exit :: "web_demo_data \<Rightarrow> web_call list \<Rightarrow> web_demo_data \<times> web_call list" where
  "write_exit d calls =
     ((if fd d > 0 then d\<lparr>fd := 0\<rparr> else d)\<lparr>buf := None, complete := 1\<rparr>,
      calls @ (if fd d > 0 then [File_close (fd d)] else []) @ (if buf d \<noteq> None then [Buf_free] else []))"

text \<open>Opening: a handle that is not positive is opened again, the size is taken and the position is the
  start of the file.\<close>

definition file_open :: "web_env \<Rightarrow> web_demo_data \<Rightarrow> web_demo_data option" where
  "file_open env d =
     (if fd d > 0 then Some d
      else if opened env < 0 then None
      else map_option (\<lambda>n. d\<lparr>fd := opened env, total_len := n, fpos := 0\<rparr>) (fstat_size env))"

text \<open>The bytes of a block are the bytes the reads delivered; the rest of the block is the zeros of
  \<^verbatim>\<open>qosa_memset\<close>.\<close>

definition block :: "web_env \<Rightarrow> nat \<Rightarrow> nat \<Rightarrow> nat \<Rightarrow> string" where
  "block env pos got n = take n (take got (drop pos (content env)) @ replicate n NUL)"

text \<open>The loop over the file. \<open>k\<close> counts the writes.\<close>

partial_function (option) write_loop ::
  "web_env \<Rightarrow> nat \<Rightarrow> web_demo_data \<Rightarrow> web_call list \<Rightarrow> (web_demo_data \<times> web_call list) option" where
  "write_loop env k d calls =
     (let c1 = calls @ (if fd d \<le> 0 then [File_open] else []) in
      case file_open env d of
        None \<Rightarrow> Some (write_exit (d\<lparr>fd := opened env\<rparr>) c1)
      | Some d1 \<Rightarrow>
          let pending = (buf_len d1 > 0);
              c2 = c1 @ (if pending then [Ws_write (take (buf_len d1) (the (buf d1))) (ws_write env k)] else []);
              k2 = (if pending then Suc k else k) in
          if pending \<and> ws_write env k = Ws_nomem then Some (d1, c2)
          else if pending \<and> ws_write env k = Ws_error then Some (write_exit d1 c2)
          else if used_len d1 < total_len d1 then
            let n = min (total_len d1 - used_len d1) (send_buf env) in
            (case quec_web_file_read (\<lambda>off. vfs_read env (fpos d1 + off) (n - off)) n 0 of
               None \<Rightarrow> None
             | Some (ret, got) \<Rightarrow>
                 let b = block env (fpos d1) got n;
                     d2 = d1\<lparr>buf := Some b, buf_len := n, fpos := fpos d1 + got\<rparr> in
                 if ret < 0 then Some (write_exit d2 c2)
                 else
                   let d3 = d2\<lparr>used_len := used_len d1 + n\<rparr>; c3 = c2 @ [Ws_write b (ws_write env k2)] in
                   if ws_write env k2 = Ws_ok then write_loop env (Suc k2) (d3\<lparr>buf_len := 0\<rparr>) c3
                   else if ws_write env k2 = Ws_nomem then Some (d3, c3)
                   else Some (write_exit d3 c3))
          else Some (write_exit (d1\<lparr>buf_len := 0\<rparr>) c2))"

definition quec_web_demo_write_test :: "web_env \<Rightarrow> web_demo_data \<Rightarrow> (web_demo_data \<times> web_call list) option" where
  "quec_web_demo_write_test env d =
     (let first = (is_file d = 0);
          c1 = (if first then [Ws_write WEBSOCKET_DEMO_TEST_CONTENT (ws_write env 0)] else []);
          d1 = (if first then d\<lparr>is_file := 1\<rparr> else d) in
      if buf d1 = None \<and> \<not> buf_alloc env then Some (d1, c1)
      else
        let d2 = (if buf d1 = None then d1\<lparr>buf := Some []\<rparr> else d1) in
        if is_file d2 = 1 then write_loop env (if first then 1 else 0) d2 c1 else Some (d2, c1))"

section \<open>The task\<close>

definition after_event :: "web_demo_ctx \<Rightarrow> web_call list \<Rightarrow> (web_demo_ctx, web_call) outcome" where
  "after_event s calls = Continue (if complete (data s) = 1 then post WEB_CLOSEING s else s) calls"

definition cleanup :: "web_demo_ctx \<Rightarrow> web_call list" where
  "cleanup s = (if fd (data s) > 0 then [File_close (fd (data s))] else []) @ (if buf (data s) \<noteq> None then [Buf_free] else [])"

definition run_write :: "web_env \<Rightarrow> web_demo_ctx \<Rightarrow> (web_demo_ctx, web_call) outcome" where
  "run_write env s =
     (case quec_web_demo_write_test env (data s) of
        None \<Rightarrow> Diverged
      | Some (d, calls) \<Rightarrow> after_event (s\<lparr>data := d\<rparr>) calls)"

fun web_dispatch :: "web_env \<Rightarrow> web_demo_event \<Rightarrow> web_demo_ctx \<Rightarrow> (web_demo_ctx, web_call) outcome" where
  "web_dispatch env WEB_OPEN s = (if states s = STATUS_CONNECTED then run_write env s else after_event s [])"
| "web_dispatch env (WEB_RECV len) s = after_event s (quec_web_demo_read_test env len)"
| "web_dispatch env WEB_WRITE s = run_write env s"
| "web_dispatch env WEB_CLOSEING s = after_event s [Ws_close]"
| "web_dispatch env WEB_CLOSED s = Exit s (cleanup s)"

text \<open>One step: the library calls back, or the task takes the oldest message of its queue.\<close>

datatype web_input = Library cb_type | Task web_env

fun web_step :: "web_demo_ctx \<Rightarrow> web_input \<Rightarrow> (web_demo_ctx, web_call) outcome" where
  "web_step s (Library ty) = Continue (quec_web_demo_service_cb ty s) []"
| "web_step s (Task env) =
     (case msgq s of [] \<Rightarrow> Continue s [] | m # ms \<Rightarrow> web_dispatch env m (s\<lparr>msgq := ms\<rparr>))"

section \<open>Reading a block\<close>

text \<open>With answers between one byte and what was asked for, a block is read whole.\<close>

lemma file_read_whole:
  assumes "\<forall>off<n. 0 < io off \<and> io off \<le> int (n - off)"
  shows "t \<le> n \<Longrightarrow> quec_web_file_read io n t = Some (0, n)"
proof (induction "n - t" arbitrary: t rule: less_induct)
  case less
  show ?case
  proof (cases "t < n")
    case True
    then have io: "0 < io t" "io t \<le> int (n - t)" using assms by blast+
    then have "quec_web_file_read io n (t + nat (io t)) = Some (0, n)"
      by (intro less.hyps) linarith+
    with True io show ?thesis by (simp add: quec_web_file_read.simps [of io n t])
  next
    case False
    with less.prems show ?thesis by (subst quec_web_file_read.simps) simp
  qed
qed

text \<open>A read that delivers nothing is repeated for ever.\<close>

lemma file_read_stuck:
  assumes "t < n" "io t = 0"
  shows "quec_web_file_read io n t = None"
proof -
  have "io t = 0 \<longrightarrow> \<not> t < n" if "quec_web_file_read io n t = Some r" for r
    by (rule quec_web_file_read.raw_induct [where P = "\<lambda>io n t r. io t = 0 \<longrightarrow> \<not> t < n", OF _ that])
      (auto split: if_splits)
  with assms show ?thesis by (cases "quec_web_file_read io n t") auto
qed

section \<open>The transfer of the file\<close>

definition accepted_of :: "web_call \<Rightarrow> string" where
  "accepted_of c = (case c of Ws_write t Ws_ok \<Rightarrow> t | _ \<Rightarrow> [])"

definition accepted :: "web_call list \<Rightarrow> string" where
  "accepted calls = concat (map accepted_of calls)"

lemma accepted_simps [simp]:
  "accepted [] = []" "accepted (xs @ ys) = accepted xs @ accepted ys"
  "accepted (Ws_write t Ws_ok # cs) = t @ accepted cs"
  "accepted (Ws_write t Ws_nomem # cs) = accepted cs"
  "accepted (Ws_write t Ws_error # cs) = accepted cs"
  "accepted (File_open # cs) = accepted cs" "accepted (File_close h # cs) = accepted cs"
  "accepted (Buf_free # cs) = accepted cs"
  by (simp_all add: accepted_def accepted_of_def)

text \<open>The file system serves the file \<open>F\<close>, and the library takes a write or has no room.\<close>

definition serves :: "string \<Rightarrow> web_env \<Rightarrow> bool" where
  "serves F env \<longleftrightarrow>
     opened env > 0 \<and> fstat_size env = Some (length F) \<and> content env = F \<and> send_buf env > 0 \<and> buf_alloc env \<and>
     (\<forall>pos n. 0 < n \<and> pos + n \<le> length F \<longrightarrow> 0 < vfs_read env pos n \<and> vfs_read env pos n \<le> int n) \<and>
     (\<forall>k. ws_write env k \<noteq> Ws_error)"

text \<open>Between two calls: \<open>sent\<close> is what the library has taken, the buffer holds what it refused, and the
  file stands behind both.\<close>

definition resumable :: "string \<Rightarrow> web_demo_data \<Rightarrow> string \<Rightarrow> bool" where
  "resumable F d sent \<longleftrightarrow>
     complete d = 0 \<and>
     (if fd d > 0
      then total_len d = length F \<and> fpos d = used_len d \<and> used_len d \<le> length F \<and> buf_len d \<le> used_len d \<and>
           (buf_len d > 0 \<longrightarrow> buf d \<noteq> None \<and> take (buf_len d) (the (buf d)) = drop (used_len d - buf_len d) (take (used_len d) F)) \<and>
           sent = take (used_len d - buf_len d) F
      else used_len d = 0 \<and> buf_len d = 0 \<and> sent = [])"

definition transferred :: "string \<Rightarrow> web_demo_data \<Rightarrow> string \<Rightarrow> bool" where
  "transferred F d sent \<longleftrightarrow> complete d = 1 \<and> fd d \<le> 0 \<and> buf d = None \<and> sent = F"

lemma file_open_resumable:
  assumes "serves F env" "resumable F d sent"
  obtains d1 where "file_open env d = Some d1" "fd d1 > 0" "resumable F d1 sent" "used_len d1 = used_len d"
    "is_file d1 = is_file d"
proof (cases "fd d > 0")
  case True
  then show ?thesis using assms that [of d] by (simp add: file_open_def)
next
  case False
  then show ?thesis
    using assms that [of "d\<lparr>fd := opened env, total_len := length F, fpos := 0\<rparr>"]
    by (auto simp: file_open_def serves_def resumable_def)
qed

lemma block_read:
  assumes "content env = F" "pos + n \<le> length F"
  shows "block env pos n n = take n (drop pos F)"
  using assms by (simp add: block_def)

text \<open>What a refused write leaves, and where a block that was read stands.\<close>

lemma resumable_next:
  assumes d: "resumable F d sent" "fd d > 0" and n: "used_len d + n \<le> length F"
    and new: "new = d\<lparr>buf := Some (take n (drop (used_len d) F)), buf_len := n, fpos := fpos d + n, used_len := used_len d + n\<rparr>"
  shows "resumable F new (take (used_len d) F)"
    and "resumable F (new\<lparr>buf_len := 0\<rparr>) (take (used_len d) F @ take n (drop (used_len d) F))"
proof -
  have "take n (drop (used_len d) F) = drop (used_len d) (take (used_len d + n) F)"
    by (simp add: take_drop add.commute)
  then show "resumable F new (take (used_len d) F)"
    using d n unfolding new resumable_def by simp
  show "resumable F (new\<lparr>buf_len := 0\<rparr>) (take (used_len d) F @ take n (drop (used_len d) F))"
    using d n unfolding new resumable_def by (simp add: take_add)
qed

lemma pending_text:
  assumes "resumable F d sent" "fd d > 0" "buf_len d > 0"
  shows "sent @ take (buf_len d) (the (buf d)) = take (used_len d) F"
proof -
  have "sent = take (used_len d - buf_len d) (take (used_len d) F)"
    using assms by (simp add: resumable_def)
  moreover have "take (buf_len d) (the (buf d)) = drop (used_len d - buf_len d) (take (used_len d) F)"
    using assms by (simp add: resumable_def)
  ultimately show ?thesis by (simp only: append_take_drop_id)
qed

lemma no_pending_text: "resumable F d sent \<Longrightarrow> fd d > 0 \<Longrightarrow> buf_len d = 0 \<Longrightarrow> sent = take (used_len d) F"
  by (simp add: resumable_def)

text \<open>The block after the pending one: read whole, since the file is served.\<close>

lemma block_served:
  assumes env: "serves F env" and d: "fpos d = used_len d" and n: "used_len d + n \<le> length F"
  shows "quec_web_file_read (\<lambda>off. vfs_read env (fpos d + off) (n - off)) n 0 = Some (0, n)"
    and "block env (fpos d) n n = take n (drop (used_len d) F)"
proof -
  have "\<forall>pos m. 0 < m \<and> pos + m \<le> length F \<longrightarrow> 0 < vfs_read env pos m \<and> vfs_read env pos m \<le> int m"
    using env by (simp add: serves_def)
  then have "0 < vfs_read env (fpos d + off) (n - off) \<and> vfs_read env (fpos d + off) (n - off) \<le> int (n - off)"
    if "off < n" for off
    using d n that by (elim allE [of _ "fpos d + off"] allE [of _ "n - off"] impE) auto
  then show "quec_web_file_read (\<lambda>off. vfs_read env (fpos d + off) (n - off)) n 0 = Some (0, n)"
    by (intro file_read_whole) simp_all
  show "block env (fpos d) n n = take n (drop (used_len d) F)"
    using env d n by (simp add: block_read serves_def)
qed

text \<open>One round of the loop pauses with a refused block, is the last one, or moves a block.\<close>

lemma write_loop_round:
  assumes env: "serves F env" and res: "resumable F d sent"
  obtains
    (paused) d' c where "write_loop env k d calls = Some (d', calls @ c)" "is_file d' = is_file d"
      "resumable F d' (sent @ accepted c)" "fd d' > 0" "\<exists>j. ws_write env j = Ws_nomem"
  | (finished) d' c where "write_loop env k d calls = Some (d', calls @ c)" "is_file d' = is_file d"
      "transferred F d' (sent @ accepted c)"
  | (moved) k' d' c where "write_loop env k d calls = write_loop env k' d' (calls @ c)" "is_file d' = is_file d"
      "resumable F d' (sent @ accepted c)" "used_len d < used_len d'" "used_len d' \<le> length F"
proof -
  obtain d1 where d1: "file_open env d = Some d1" "fd d1 > 0" "resumable F d1 sent" "used_len d1 = used_len d"
      "is_file d1 = is_file d"
    using file_open_resumable [OF env res] by blast
  have lens: "total_len d1 = length F" "fpos d1 = used_len d1" "used_len d1 \<le> length F"
    using d1 by (simp_all add: resumable_def)
  define pending where "pending = (buf_len d1 > 0)"
  define fo where "fo = (if fd d \<le> 0 then [File_open] else [])"
  define t where "t = take (buf_len d1) (the (buf d1))"
  define w where "w = (if pending then [Ws_write t Ws_ok] else [])"
  define k2 where "k2 = (if pending then Suc k else k)"
  have fo: "accepted fo = []" by (simp add: fo_def)
  have sent: "sent @ accepted w = take (used_len d) F"
    using pending_text [OF d1(3,2)] no_pending_text [OF d1(3,2)] d1(4) by (auto simp: w_def pending_def t_def)
  consider (refused) "pending" "ws_write env k = Ws_nomem" | (go) "pending \<longrightarrow> ws_write env k = Ws_ok"
    using env by (cases "ws_write env k") (auto simp: serves_def)
  then show thesis
  proof cases
    case refused
    then have "write_loop env k d calls = Some (d1, calls @ (fo @ [Ws_write t Ws_nomem]))"
      using d1 by (subst write_loop.simps) (simp add: pending_def fo_def t_def)
    then show thesis
      by (rule paused) (use d1 fo refused in auto)
  next
    case go
    show thesis
    proof (cases "used_len d1 < total_len d1")
      case True
      define n where "n = min (total_len d1 - used_len d1) (send_buf env)"
      define b where "b = take n (drop (used_len d1) F)"
      define d3 where "d3 = d1\<lparr>buf := Some b, buf_len := n, fpos := fpos d1 + n, used_len := used_len d1 + n\<rparr>"
      have n: "0 < n" "used_len d1 + n \<le> length F"
        using True lens env by (auto simp: n_def serves_def)
      note served = block_served [OF env lens(2) n(2)]
      note stand = resumable_next [OF d1(3,2) n(2), of d3, unfolded d3_def b_def, OF refl]
      have unfold: "write_loop env k d calls =
          (if ws_write env k2 = Ws_ok then write_loop env (Suc k2) (d3\<lparr>buf_len := 0\<rparr>) (calls @ (fo @ w @ [Ws_write b Ws_ok]))
           else if ws_write env k2 = Ws_nomem then Some (d3, calls @ (fo @ w @ [Ws_write b Ws_nomem]))
           else Some (write_exit d3 (calls @ (fo @ w @ [Ws_write b Ws_error]))))"
        using d1(1) True served go
        by (subst write_loop.simps)
          (cases "ws_write env k2"; cases pending; simp add: Let_def fo_def w_def t_def k2_def pending_def d3_def b_def flip: n_def)
      consider "ws_write env k2 = Ws_ok" | "ws_write env k2 = Ws_nomem"
        using env by (cases "ws_write env k2") (auto simp: serves_def)
      then show thesis
      proof cases
        case 1
        then have "write_loop env k d calls = write_loop env (Suc k2) (d3\<lparr>buf_len := 0\<rparr>) (calls @ (fo @ w @ [Ws_write b Ws_ok]))"
          using unfold by simp
        then show thesis
          by (rule moved)
            (use stand(2) fo sent d1(4,5) n in \<open>simp_all add: d3_def b_def flip: append_assoc\<close>)
      next
        case 2
        then have "write_loop env k d calls = Some (d3, calls @ (fo @ w @ [Ws_write b Ws_nomem]))"
          using unfold by simp
        then show thesis
          by (rule paused) (use 2 stand(1) fo sent d1(2,4,5) in \<open>auto simp: d3_def b_def simp flip: append_assoc\<close>)
      qed
    next
      case False
      then have "take (used_len d) F = F" using lens d1(4) by simp
      moreover have "write_loop env k d calls = Some (write_exit (d1\<lparr>buf_len := 0\<rparr>) (calls @ fo @ w))"
        using d1(1) False go by (subst write_loop.simps) (auto simp: fo_def w_def t_def pending_def)
      ultimately have "write_loop env k d calls = Some (fst (write_exit (d1\<lparr>buf_len := 0\<rparr>) []),
          calls @ fo @ w @ snd (write_exit (d1\<lparr>buf_len := 0\<rparr>) []))" "sent @ accepted w = F"
        using sent by (simp_all add: write_exit_def)
      note last = this
      show thesis
        by (rule finished [OF last(1)]) (use last(2) fo d1(5) in \<open>auto simp: write_exit_def transferred_def\<close>)
    qed
  qed
qed

lemma write_loop_progress:
  assumes env: "serves F env"
  shows "resumable F d sent \<Longrightarrow>
    \<exists>d' c. write_loop env k d calls = Some (d', calls @ c) \<and> is_file d' = is_file d \<and>
      (resumable F d' (sent @ accepted c) \<and> fd d' > 0 \<and> (\<exists>j. ws_write env j = Ws_nomem) \<or>
       transferred F d' (sent @ accepted c))"
proof (induction "length F - used_len d" arbitrary: k d sent calls rule: less_induct)
  case less
  from env less.prems show ?case
  proof (cases rule: write_loop_round [of F env d sent k calls])
    case (paused d' c)
    then show ?thesis by blast
  next
    case (finished d' c)
    then show ?thesis by blast
  next
    case (moved k' d' c)
    have "length F - used_len d' < length F - used_len d" using moved(4,5) by linarith
    from less.hyps [OF this moved(3), of k' "calls @ c"] obtain d2 c2 where
      "write_loop env k' d' (calls @ c) = Some (d2, (calls @ c) @ c2)" "is_file d2 = is_file d'"
      "resumable F d2 ((sent @ accepted c) @ accepted c2) \<and> fd d2 > 0 \<and> (\<exists>j. ws_write env j = Ws_nomem) \<or>
       transferred F d2 ((sent @ accepted c) @ accepted c2)" by blast
    then show ?thesis
      using moved(1,2) by (intro exI [of _ d2] exI [of _ "c @ c2"]) simp
  qed
qed

lemma resumable_frame [simp]:
  "resumable F (d\<lparr>is_file := x\<rparr>) sent = resumable F d sent"
  by (simp add: resumable_def)

lemma resumable_buffer: "resumable F d sent \<Longrightarrow> buf d = None \<Longrightarrow> resumable F (d\<lparr>buf := b\<rparr>) sent"
  by (auto simp: resumable_def split: if_splits)

definition text_taken :: "web_env \<Rightarrow> web_demo_data \<Rightarrow> string" where
  "text_taken env d = (if is_file d = 0 \<and> ws_write env 0 = Ws_ok then WEBSOCKET_DEMO_TEST_CONTENT else [])"

text \<open>A call of the write test, the first or a later one.\<close>

lemma write_test_progress:
  assumes env: "serves F env" and res: "resumable F d sent" and flag: "is_file d = 0 \<or> is_file d = 1"
  obtains d' c rest where "quec_web_demo_write_test env d = Some (d', c)" "is_file d' = 1"
    "accepted c = text_taken env d @ rest"
    "resumable F d' (sent @ rest) \<and> fd d' > 0 \<and> (\<exists>j. ws_write env j = Ws_nomem) \<or> transferred F d' (sent @ rest)"
proof -
  define k where "k = (if is_file d = 0 then Suc 0 else 0)"
  define c1 where "c1 = (if is_file d = 0 then [Ws_write WEBSOCKET_DEMO_TEST_CONTENT (ws_write env 0)] else [])"
  define d2 where "d2 = (let d1 = (if is_file d = 0 then d\<lparr>is_file := 1\<rparr> else d) in if buf d1 = None then d1\<lparr>buf := Some []\<rparr> else d1)"
  have unfold: "quec_web_demo_write_test env d = write_loop env k d2 c1"
    using env flag by (auto simp: quec_web_demo_write_test_def serves_def k_def c1_def d2_def Let_def)
  have "resumable F d2 sent" "is_file d2 = 1"
    using res flag by (auto simp: d2_def Let_def resumable_buffer)
  from write_loop_progress [OF env this(1), of k c1] this(2) obtain d' c where
    "write_loop env k d2 c1 = Some (d', c1 @ c)" "is_file d' = 1"
    "resumable F d' (sent @ accepted c) \<and> fd d' > 0 \<and> (\<exists>j. ws_write env j = Ws_nomem) \<or> transferred F d' (sent @ accepted c)"
    by auto
  moreover have "accepted c1 = text_taken env d"
    using env by (cases "ws_write env 0") (auto simp: c1_def text_taken_def serves_def)
  ultimately show thesis
    using unfold by (intro that [of d' "c1 @ c" "accepted c"]) simp_all
qed

text \<open>A transfer in pieces: the calls of the write test up to the one that completes it.\<close>

fun write_tests :: "web_env list \<Rightarrow> web_demo_data \<Rightarrow> (web_demo_data \<times> web_call list) option" where
  "write_tests [] d = Some (d, [])"
| "write_tests (env # envs) d =
     (case quec_web_demo_write_test env d of
        None \<Rightarrow> None
      | Some (d', c) \<Rightarrow>
          if complete d' = 1 then Some (d', c)
          else map_option (\<lambda>(d2, c2). (d2, c @ c2)) (write_tests envs d'))"

definition zero_data :: web_demo_data where
  "zero_data = \<lparr>is_file = 0, total_len = 0, used_len = 0, fd = 0, buf = None, buf_len = 0, complete = 0, fpos = 0\<rparr>"

lemma write_tests_progress:
  assumes "\<forall>env\<in>set envs. serves F env" "\<forall>k. ws_write final k = Ws_ok" "serves F final"
  shows "resumable F d sent \<Longrightarrow> is_file d = 1 \<Longrightarrow>
    \<exists>d' c. write_tests (envs @ [final]) d = Some (d', c) \<and> transferred F d' (sent @ accepted c)"
  using assms(1)
proof (induction envs arbitrary: d sent)
  case Nil
  obtain d' c rest where "quec_web_demo_write_test final d = Some (d', c)" "accepted c = text_taken final d @ rest"
      "transferred F d' (sent @ rest)"
    by (rule write_test_progress [of F final d sent]) (use assms(2,3) Nil in auto)
  with Nil show ?case by (simp add: text_taken_def transferred_def)
next
  case (Cons env envs)
  obtain d' c rest where call: "quec_web_demo_write_test env d = Some (d', c)" "is_file d' = 1"
      "accepted c = text_taken env d @ rest"
      "resumable F d' (sent @ rest) \<and> fd d' > 0 \<or> transferred F d' (sent @ rest)"
    by (rule write_test_progress [of F env d sent]) (use Cons.prems in auto)
  show ?case
  proof (cases "complete d' = 1")
    case True
    then show ?thesis using call Cons.prems by (auto simp: resumable_def text_taken_def)
  next
    case False
    then have "resumable F d' (sent @ rest)" "fd d' > 0" using call by (auto simp: transferred_def)
    then have "\<exists>d2 c2. write_tests (envs @ [final]) d' = Some (d2, c2) \<and> transferred F d2 ((sent @ rest) @ accepted c2)"
      using Cons.prems call(2) by (intro Cons.IH) (auto simp: resumable_def)
    then show ?thesis using False call Cons.prems by (auto simp: text_taken_def)
  qed
qed


definition ex_env :: "(nat \<Rightarrow> write_result) \<Rightarrow> web_env" where
  "ex_env w = \<lparr>send_buf = 3, buf_alloc = True, opened = 4, fstat_size = Some 5, content = ''hello'',
     vfs_read = (\<lambda>pos n. int (min n 2)), ws_write = w, read_alloc = True\<rparr>"

lemma ex_serves: "\<forall>k. w k \<noteq> Ws_error \<Longrightarrow> serves ''hello'' (ex_env w)"
  by (auto simp: serves_def ex_env_def)


section \<open>The task abandons a paused transfer\<close>

definition quiet :: "web_demo_event \<Rightarrow> bool" where
  "quiet m = (case m of WEB_OPEN \<Rightarrow> False | WEB_WRITE \<Rightarrow> False | _ \<Rightarrow> True)"

definition no_open :: "web_input \<Rightarrow> bool" where
  "no_open i = (case i of Library (TYPE_OPEN r) \<Rightarrow> False | _ \<Rightarrow> True)"

lemma post_keeps [simp]: "data (post m s) = data s" "states (post m s) = states s"
  by (simp_all add: post_def)

lemma post_quiet: "quiet m \<Longrightarrow> list_all quiet (msgq s) \<Longrightarrow> list_all quiet (msgq (post m s))"
  by (simp add: post_def)

lemma cb_quiet:
  assumes "no_open (Library ty)"
  shows "data (quec_web_demo_service_cb ty s) = data s"
    and "list_all quiet (msgq s) \<Longrightarrow> list_all quiet (msgq (quec_web_demo_service_cb ty s))"
  using assms by (auto simp: quec_web_demo_service_cb_def no_open_def quiet_def intro!: post_quiet split: cb_type.splits)

lemma accepted_cleanup [simp]: "accepted (cleanup s) = []"
  by (simp add: cleanup_def)

lemma accepted_other [simp]: "accepted [Ws_close] = []" "accepted (quec_web_demo_read_test env n) = []"
  by (simp_all add: accepted_def accepted_of_def quec_web_demo_read_test_def)

lemma web_step_quiet:
  assumes "list_all quiet (msgq s)" "no_open i"
  obtains s' os where "web_step s i = Continue s' os" "data s' = data s" "accepted os = []" "list_all quiet (msgq s')"
  | s' os where "web_step s i = Exit s' os" "data s' = data s" "accepted os = []"
proof (cases i)
  case (Library ty)
  then show ?thesis using assms cb_quiet [of ty s] that(1) by simp
next
  case (Task env)
  show ?thesis
  proof (cases "msgq s")
    case Nil
    then show ?thesis using Task that(1) by simp
  next
    case (Cons m ms)
    have "list_all quiet ms" "quiet m" using assms Cons by simp_all
    moreover have "list_all quiet (msgq (post WEB_CLOSEING (s\<lparr>msgq := ms\<rparr>)))"
      using \<open>list_all quiet ms\<close> by (intro post_quiet) (simp_all add: quiet_def)
    ultimately show ?thesis
      using Task Cons that by (cases m) (auto simp: after_event_def quiet_def)
  qed
qed

lemma web_run_quiet:
  "list_all quiet (msgq s) \<Longrightarrow> list_all no_open is \<Longrightarrow>
   \<exists>s' os. (run_loop web_step s is = Continue s' os \<or> run_loop web_step s is = Exit s' os) \<and> data s' = data s \<and> accepted os = []"
proof (induction "is" arbitrary: s)
  case Nil
  then show ?case by simp
next
  case (Cons i ins)
  then have "list_all quiet (msgq s)" "no_open i" by simp_all
  then show ?case
  proof (cases rule: web_step_quiet)
    case (1 s' os)
    from Cons.IH [OF 1(4)] Cons.prems obtain s2 os2 where
      "run_loop web_step s' ins = Continue s2 os2 \<or> run_loop web_step s' ins = Exit s2 os2" "data s2 = data s'" "accepted os2 = []"
      by auto
    then show ?thesis using 1 by (intro exI [of _ s2] exI [of _ "os @ os2"]) auto
  next
    case (2 s' os)
    then show ?thesis by auto
  qed
qed

text \<open>C39: A paused transfer is never resumed. The library announces room for more data with \<^verbatim>\<open>QCM_WEB_TYPE_WRITE\<close>;
  the callback turns that into a close request, and nothing in the program ever posts the write event
  the task has a branch for. From any state in which no open or write event waits, whatever the library
  reports (a new connection apart), no further byte of the file is taken and the transfer stays where it
  was; the announcement itself closes the connection.\<close>

theorem paused_transfer_is_abandoned:
  assumes "resumable F (data s) sent" "list_all quiet (msgq s)" "list_all no_open ins"
  shows "(\<exists>s' os. (run_loop web_step s ins = Continue s' os \<or> run_loop web_step s ins = Exit s' os) \<and>
            resumable F (data s') sent \<and> accepted os = []) \<and>
    run_loop web_step (s\<lparr>msgq := []\<rparr>) [Library TYPE_WRITE, Task env] = Continue (s\<lparr>msgq := []\<rparr>) [Ws_close]"
proof
  show "\<exists>s' os. (run_loop web_step s ins = Continue s' os \<or> run_loop web_step s ins = Exit s' os) \<and>
      resumable F (data s') sent \<and> accepted os = []"
    using web_run_quiet [OF assms(2,3)] assms(1) by metis
  have "complete (data s) = 0" using assms(1) by (simp add: resumable_def)
  then show "run_loop web_step (s\<lparr>msgq := []\<rparr>) [Library TYPE_WRITE, Task env] = Continue (s\<lparr>msgq := []\<rparr>) [Ws_close]"
    by (simp add: quec_web_demo_service_cb_def post_def WEBSOCKET_DEMO_MSG_MAX_CNT_def after_event_def)
qed

theorem paused_transfer_is_abandoned_witness:
  "\<exists>s' os. (let d = zero_data\<lparr>is_file := 1, total_len := 5, used_len := 3, fd := 4, buf := Some ''hel'', buf_len := 3, fpos := 3\<rparr>;
       r = run_loop web_step \<lparr>states = STATUS_CONNECTED, data = d, msgq = []\<rparr> [Library TYPE_WRITE, Task (ex_env (\<lambda>k. Ws_ok)), Library TYPE_CLOSE] in
     (r = Continue s' os \<or> r = Exit s' os) \<and> resumable ''hello'' (data s') [] \<and> accepted os = [])"
proof -
  let ?d = "zero_data\<lparr>is_file := 1, total_len := 5, used_len := 3, fd := 4, buf := Some ''hel'', buf_len := 3, fpos := 3\<rparr>"
  have "resumable ''hello'' ?d []" by (simp add: resumable_def zero_data_def)
  then show ?thesis
    using paused_transfer_is_abandoned [of "''hello''" "\<lparr>states = STATUS_CONNECTED, data = ?d, msgq = []\<rparr>" "[]"
        "[Library TYPE_WRITE, Task (ex_env (\<lambda>k. Ws_ok)), Library TYPE_CLOSE]"]
    by (simp only: Let_def) (simp add: no_open_def)
qed

text \<open>A file that is shorter than its size says stops the task: the read loop takes an answer of zero bytes
  for progress and repeats it for ever, so the handler of the open event never comes back.\<close>

theorem short_file_hangs_task:
  assumes "states s = STATUS_CONNECTED" "msgq s = WEB_OPEN # ms" "data s = zero_data"
    and "buf_alloc env" "opened env > 0" "fstat_size env = Some n" "n > 0" "send_buf env > 0"
    and "vfs_read env 0 (min n (send_buf env)) = 0"
  shows "web_step s (Task env) = Diverged"
proof -
  have "quec_web_file_read (\<lambda>off. vfs_read env off (min n (send_buf env) - off)) (min n (send_buf env)) 0 = None"
    using assms by (intro file_read_stuck) simp_all
  moreover have "quec_web_demo_write_test env zero_data =
      write_loop env 1 (zero_data\<lparr>is_file := 1, buf := Some []\<rparr>) [Ws_write WEBSOCKET_DEMO_TEST_CONTENT (ws_write env 0)]"
    using assms by (simp add: quec_web_demo_write_test_def zero_data_def)
  ultimately have "quec_web_demo_write_test env zero_data = None"
    using assms by (simp add: write_loop.simps file_open_def zero_data_def)
  then show ?thesis
    using assms by (simp add: run_write_def)
qed

theorem short_file_hangs_task_witness:
  "web_step \<lparr>states = STATUS_CONNECTED, data = zero_data, msgq = [WEB_OPEN]\<rparr>
     (Task ((ex_env (\<lambda>k. Ws_ok))\<lparr>vfs_read := \<lambda>pos n. 0\<rparr>)) = Diverged"
  by (rule short_file_hangs_task [where n = 5]) (simp_all add: ex_env_def)

end
