(* ===== verification/Fota.thy ===== *)
theory Fota
  imports UniRTOS_Prelude
begin

text \<open>
  Firmware update over the air, \<^verbatim>\<open>system/fota/http/http_fota_demo.c\<close> and \<^verbatim>\<open>system/fota/ftp/ftp_fota_demo.c\<close>.

  State: the transfer's counters and the package written to flash so far. Operations: bringing up
  the data call, the callbacks that write received data to flash, one download, and the two
  processes: download, verify, set the update flag and reset.

  Network, flash and transfer library are not part of the repository. A server is a function from the
  start position asked for to the chunks it sends; the answers of the other calls are fields of an
  environment. \<open>fota_loop\<close> has the value \<open>None\<close> when the process never comes to an end.
\<close>

section \<open>Data\<close>

definition UNIR_FOTA_PATH :: string where "UNIR_FOTA_PATH = ''http://112.31.84.164:8300/Bob/fotatest.par''"

record unir_fota_http =
  http_hd :: bool                    \<comment> \<open>the handle is not \<^verbatim>\<open>NULL\<close>\<close>
  time_out :: nat
  start_pos :: nat
  dload_want_size :: nat
  resume_dload_count :: nat
  fs_free_size :: nat
  event_errcode :: int
  write_errcode :: int
  chunk_encode :: int
  first_flag :: int
  write_size :: nat
  total_recv_cnt :: nat
  flash :: string                    \<comment> \<open>what the package on flash holds\<close>

record attempt =
  size_err1 :: "int option"          \<comment> \<open>\<^verbatim>\<open>qosa_fota_get_current_file_size\<close> fails with this value\<close>
  free_size :: int
  core_create_ret :: int
  resp_code :: int
  content_length :: "nat \<Rightarrow> int"     \<comment> \<open>for a request from a position on\<close>
  serve :: "nat \<Rightarrow> string list"
  flash_ok :: "nat \<Rightarrow> bool"          \<comment> \<open>writing at a position succeeds\<close>
  perform_ret :: int
  size_err2 :: "int option"

datatype datacall_state = Not_active | Active | Failed

record net_env =
  ip_info :: datacall_state
  start_ok :: bool

datatype fota_call =
    Get "string option"              \<comment> \<open>a request, with the range asked for\<close>
  | Verify bool                      \<comment> \<open>whether the update handle is not \<^verbatim>\<open>NULL\<close>\<close>
  | Flag_set
  | Reset
  | Fota_deinit bool

section \<open>The data call\<close>

definition unir_fota_net_active :: "net_env \<Rightarrow> bool" where
  "unir_fota_net_active env =
     (case ip_info env of Not_active \<Rightarrow> start_ok env | Active \<Rightarrow> True | Failed \<Rightarrow> False)"

section \<open>Download by HTTP\<close>

text \<open>The callback for received data: what it returns and the state. The first call looks at the
  response.\<close>

definition http_read_body_cb :: "attempt \<Rightarrow> string \<Rightarrow> unir_fota_http \<Rightarrow> nat \<times> unir_fota_http" where
  "http_read_body_cb env buf s =
     (let len = content_length env (start_pos s);
          write = (\<lambda>s1.
            if \<not> flash_ok env (length (flash s1)) then (0, s1)
            else (length buf, s1\<lparr>flash := flash s1 @ buf, total_recv_cnt := total_recv_cnt s1 + length buf,
                                write_size := write_size s1 + length buf\<rparr>)) in
      if first_flag s = 0 then
        (if 200 \<le> resp_code env \<and> resp_code env < 300 then
           (if len > 0 then
              (if len > int (fs_free_size s) then (0, s\<lparr>write_errcode := -1\<rparr>)
               else write (s\<lparr>chunk_encode := 0, dload_want_size := nat len, first_flag := 1\<rparr>))
            else write (s\<lparr>chunk_encode := 1, dload_want_size := 0, first_flag := 1\<rparr>))
         else (0, s\<lparr>event_errcode := -1\<rparr>))
      else write s)"

text \<open>The library passes the chunks on until the callback takes less than it was given.\<close>

fun receive :: "attempt \<Rightarrow> string list \<Rightarrow> unir_fota_http \<Rightarrow> unir_fota_http" where
  "receive env [] s = s"
| "receive env (b # bs) s =
     (let (n, s1) = http_read_body_cb env b s in if n = length b then receive env bs s1 else s1)"

definition range_header :: "nat \<Rightarrow> string option" where
  "range_header pos = (if pos > 0 then Some (snprintf_buf 31 (fmt_u pos @ ''-'')) else None)"

definition unirtos_fota_http_start :: "attempt \<Rightarrow> unir_fota_http \<Rightarrow> int \<times> unir_fota_http \<times> fota_call list" where
  "unirtos_fota_http_start env s =
     (if \<not> http_hd s \<and> core_create_ret env \<noteq> 0 then (core_create_ret env, s\<lparr>http_hd := False\<rparr>, [])
      else
        let s1 = receive env (serve env (start_pos s)) (s\<lparr>http_hd := True\<rparr>) in
        (perform_ret env, s1\<lparr>http_hd := False\<rparr>, [Get (range_header (start_pos s))]))"

definition unirtos_fota_http_deinit :: "unir_fota_http \<Rightarrow> unir_fota_http" where
  "unirtos_fota_http_deinit s = s\<lparr>http_hd := False\<rparr>"

text \<open>The loop of the process. The counter it tests is never changed.\<close>

partial_function (option) fota_loop ::
  "(nat \<Rightarrow> attempt) \<Rightarrow> nat \<Rightarrow> unir_fota_http \<Rightarrow> fota_call list \<Rightarrow> (int \<times> unir_fota_http \<times> fota_call list) option" where
  "fota_loop env k s calls =
     (if resume_dload_count s \<le> 3 then
        (case size_err1 (env k) of
           Some e \<Rightarrow> Some (e, s, calls)
         | None \<Rightarrow>
             if free_size (env k) < 0 then Some (free_size (env k), s\<lparr>start_pos := length (flash s)\<rparr>, calls)
             else
               (case unirtos_fota_http_start (env k)
                       (s\<lparr>start_pos := length (flash s), fs_free_size := nat (free_size (env k))\<rparr>) of
                  (ret, s1, c1) \<Rightarrow>
                    if ret \<noteq> 0 then Some (ret, s1, calls @ c1)
                    else if size_err2 (env k) \<noteq> None then Some (ret, s1, calls @ c1)
                    else if dload_want_size s1 > length (flash s1)
                    then fota_loop env (Suc k) (unirtos_fota_http_deinit s1) (calls @ c1)
                    else Some (ret, s1, calls @ c1)))
      else Some (0, s, calls))"

definition zero_fota_http :: "string \<Rightarrow> unir_fota_http" where
  "zero_fota_http old =
     \<lparr>http_hd = False, time_out = 60, start_pos = 0, dload_want_size = 0, resume_dload_count = 0, fs_free_size = 0,
      event_errcode = 0, write_errcode = 0, chunk_encode = 0, first_flag = 0, write_size = 0, total_recv_cnt = 0,
      flash = old\<rparr>"

text \<open>The exit: on success verify, then set the flag and reset.\<close>

definition fota_exit :: "bool \<Rightarrow> bool \<Rightarrow> int \<Rightarrow> fota_call list" where
  "fota_exit handle verify_ok ret =
     (if ret = 0 then Verify handle # (if verify_ok then [Flag_set, Reset] else []) else [])"

text \<open>\<open>old\<close> is what the package holds from an earlier, interrupted update.\<close>

definition unir_http_fota_demo_process ::
  "net_env \<Rightarrow> bool \<Rightarrow> bool \<Rightarrow> (nat \<Rightarrow> attempt) \<Rightarrow> string \<Rightarrow> (string \<times> fota_call list) option" where
  "unir_http_fota_demo_process net init_ok verify_ok env old =
     (let s = zero_fota_http old in
      if \<not> unir_fota_net_active net then Some (old, fota_exit False verify_ok 1 @ [Fota_deinit False])
      else if \<not> init_ok then Some (old, fota_exit False verify_ok 0 @ [Fota_deinit False])
      else
        case fota_loop env 0 s [] of
          None \<Rightarrow> None
        | Some (ret, s1, calls) \<Rightarrow> Some (flash s1, calls @ fota_exit True verify_ok ret @ [Fota_deinit True]))"

section \<open>Download by FTP\<close>

definition UNIR_FOTA_URL :: string where "UNIR_FOTA_URL = ''ftp://112.31.84.164:8309/BOB/default_ftp.par''"

record fota_ftp_info =
  current_dl_offset :: nat
  current_dl_len :: int
  error_code :: int
  ftp_flash :: string

record unir_ftp_context =
  ftp_pdp_cid :: int
  ftp_timeout :: int
  ftp_server_port :: int
  ftp_username :: string
  ftp_password :: string
  ftp_transfer :: int
  ftp_skip_pasv_ip :: int
  ftp_port :: int

record ftp_fota_env =
  ctx_alloc_ok :: bool
  size_core_ok :: bool
  size_ret :: int                    \<comment> \<open>of the request for the size\<close>
  info_ret :: int                    \<comment> \<open>of reading the size out of the answer\<close>
  remote_size :: int
  ftp_free :: int
  get_core_ok :: bool
  ftp_chunks :: "string list"
  ftp_flash_ok :: "nat \<Rightarrow> bool"
  get_ret :: int

definition unir_ftp_client_new_cfg :: "bool \<Rightarrow> unir_ftp_context option" where
  "unir_ftp_client_new_cfg ok =
     (if \<not> ok then None
      else Some \<lparr>ftp_pdp_cid = 1, ftp_timeout = 90, ftp_server_port = 0, ftp_username = [], ftp_password = [],
                ftp_transfer = 0, ftp_skip_pasv_ip = 2, ftp_port = 1\<rparr>)"

definition unir_fota_ftp_handle_new :: "bool \<Rightarrow> unir_ftp_context option" where
  "unir_fota_ftp_handle_new ok =
     map_option (\<lambda>c. c\<lparr>ftp_server_port := 8309, ftp_username := ''test'', ftp_password := ''test''\<rparr>)
       (unir_ftp_client_new_cfg ok)"

text \<open>\<open>None\<close> for a \<^verbatim>\<open>NULL\<close> buffer. The whole buffer is written, also when only a part of it is wanted.\<close>

definition unir_fota_ftp_transmitter_cb :: "ftp_fota_env \<Rightarrow> string option \<Rightarrow> fota_ftp_info \<Rightarrow> nat \<times> fota_ftp_info" where
  "unir_fota_ftp_transmitter_cb env p s =
     (case p of
        None \<Rightarrow> (0, s\<lparr>error_code := -1\<rparr>)
      | Some buf \<Rightarrow>
          let realsize = (if current_dl_len s \<noteq> 0xFFFFFFFF
                          then min (int (length buf)) (current_dl_len s - int (current_dl_offset s))
                          else int (length buf)) in
          if realsize = 0 then (0, s\<lparr>error_code := -2\<rparr>)
          else if \<not> ftp_flash_ok env (length (ftp_flash s)) then (0, s)
          else (length buf, s\<lparr>ftp_flash := ftp_flash s @ buf,
                              current_dl_offset := current_dl_offset s + length buf, error_code := 0\<rparr>))"

fun ftp_receive :: "ftp_fota_env \<Rightarrow> string list \<Rightarrow> fota_ftp_info \<Rightarrow> fota_ftp_info" where
  "ftp_receive env [] s = s"
| "ftp_receive env (b # bs) s =
     (let (n, s1) = unir_fota_ftp_transmitter_cb env (Some b) s in if n = length b then ftp_receive env bs s1 else s1)"

text \<open>Result and size; the size stays as it was unless the answer holds one.\<close>

definition unir_ftp_fota_get_file_size :: "ftp_fota_env \<Rightarrow> int \<Rightarrow> int \<times> int" where
  "unir_ftp_fota_get_file_size env nSize =
     (if \<not> size_core_ok env then (-1, nSize)
      else if size_ret env \<noteq> 0 then (size_ret env, nSize)
      else (info_ret env, if info_ret env = 0 \<and> remote_size env \<ge> 0 then remote_size env else nSize))"

definition unir_ftp_fota_get_file :: "ftp_fota_env \<Rightarrow> fota_ftp_info \<Rightarrow> int \<times> fota_ftp_info \<times> fota_call list" where
  "unir_ftp_fota_get_file env s =
     (if \<not> get_core_ok env then (-1, s, [])
      else (get_ret env, ftp_receive env (ftp_chunks env) s,
            [Get (if current_dl_offset s \<noteq> 0 then Some (fmt_u (current_dl_offset s)) else None)]))"

definition unir_ftp_fota_demo_process ::
  "net_env \<Rightarrow> bool \<Rightarrow> bool \<Rightarrow> ftp_fota_env \<Rightarrow> string \<Rightarrow> string \<times> fota_call list" where
  "unir_ftp_fota_demo_process net init_ok verify_ok env old =
     (let s = \<lparr>current_dl_offset = 0, current_dl_len = 0xFFFFFFFF, error_code = 0, ftp_flash = old\<rparr> in
      if \<not> unir_fota_net_active net then (old, fota_exit False verify_ok 1)
      else if \<not> init_ok then (old, fota_exit False verify_ok 0)
      else case unir_fota_ftp_handle_new (ctx_alloc_ok env) of
        None \<Rightarrow> (old, fota_exit True verify_ok 0 @ [Fota_deinit True])
      | Some c \<Rightarrow>
          let (err, file_Size) = unir_ftp_fota_get_file_size env 0 in
          if err \<noteq> 0 then (old, fota_exit True verify_ok err @ [Fota_deinit True])
          else
            let s1 = s\<lparr>current_dl_len := file_Size\<rparr> in
            if ftp_free env < current_dl_len s1 - int (current_dl_offset s1)
            then (old, fota_exit True verify_ok err @ [Fota_deinit True])
            else
              let (err2, s2, calls) = unir_ftp_fota_get_file env s1 in
              (ftp_flash s2, calls @ fota_exit True verify_ok err2 @ [Fota_deinit True]))"

section \<open>Lemmas\<close>

text \<open>Nothing but the download itself goes wrong in an attempt.\<close>

definition attempt_ok :: "attempt \<Rightarrow> bool" where
  [env_defs]: "attempt_ok e \<longleftrightarrow> size_err1 e = None \<and> size_err2 e = None \<and> 0 \<le> free_size e \<and> core_create_ret e = 0 \<and>
     200 \<le> resp_code e \<and> resp_code e < 300 \<and> (\<forall>pos. flash_ok e pos) \<and> perform_ret e = 0"

text \<open>A server that has the image and enough room for it: it answers a request with some of what is missing.\<close>

definition serves :: "string \<Rightarrow> attempt \<Rightarrow> bool" where
  [env_defs]: "serves img e \<longleftrightarrow> int (length img) \<le> free_size e \<and>
     (\<forall>pos < length img. content_length e pos = int (length img - pos) \<and>
       (\<exists>n > 0. concat (serve e pos) = take n (drop pos img)))"

lemma receive_rest:
  assumes "\<forall>pos. flash_ok e pos" and "first_flag s \<noteq> 0"
  shows "receive e cs s = s\<lparr>flash := flash s @ concat cs, total_recv_cnt := total_recv_cnt s + length (concat cs),
    write_size := write_size s + length (concat cs)\<rparr>"
  using assms(2)
  by (induction cs arbitrary: s) (simp_all add: http_read_body_cb_def assms(1) Let_def add.assoc)

lemma receive_first:
  assumes "attempt_ok e" and "first_flag s = 0" and "cs \<noteq> []"
    and "0 < content_length e (start_pos s)" and "content_length e (start_pos s) \<le> int (fs_free_size s)"
  shows "receive e cs s = s\<lparr>first_flag := 1, chunk_encode := 0, dload_want_size := nat (content_length e (start_pos s)),
    flash := flash s @ concat cs, total_recv_cnt := total_recv_cnt s + length (concat cs),
    write_size := write_size s + length (concat cs)\<rparr>"
proof -
  obtain b bs where cs: "cs = b # bs" using assms(3) by (cases cs) auto
  have ok: "\<forall>pos. flash_ok e pos" using assms(1) by (simp add: attempt_ok_def)
  with assms cs receive_rest [OF ok] show ?thesis
    by (simp add: http_read_body_cb_def attempt_ok_def Let_def add.assoc)
qed

text \<open>One successful round of the loop.\<close>

lemma fota_round:
  assumes "attempt_ok (env k)" and "resume_dload_count s \<le> 3"
    and "t = receive (env k) (serve (env k) (length (flash s)))
      (s\<lparr>start_pos := length (flash s), fs_free_size := nat (free_size (env k)), http_hd := True\<rparr>)"
    and "c = Get (range_header (length (flash s)))"
  shows "fota_loop env k s calls =
    (if dload_want_size t > length (flash t) then fota_loop env (Suc k) (t\<lparr>http_hd := False\<rparr>) (calls @ [c])
     else Some (0, t\<lparr>http_hd := False\<rparr>, calls @ [c]))"
  using assms
  by (subst fota_loop.simps)
    (simp add: attempt_ok_def unirtos_fota_http_start_def unirtos_fota_http_deinit_def Let_def)

lemma receive_keeps:
  "resume_dload_count (receive e cs s) = resume_dload_count s"
  by (induction cs arbitrary: s) (auto simp: http_read_body_cb_def Let_def split: if_splits)

text \<open>From the second round on the size wanted is known; each round adds a piece.\<close>

lemma fota_loop_completes:
  assumes "\<And>i. attempt_ok (env i)" and "\<And>i. serves img (env i)"
    and "first_flag s = 1" and "dload_want_size s = length img" and "resume_dload_count s \<le> 3"
    and "flash s = take p img" and "p < length img"
  shows "\<exists>s' calls'. fota_loop env k s calls = Some (0, s', calls') \<and> flash s' = img"
  using assms(3-7)
proof (induction "length img - p" arbitrary: s p k calls rule: less_induct)
  case less
  have len: "length (flash s) = p" using less.prems by simp
  obtain n where n: "0 < n" "concat (serve (env k) p) = take n (drop p img)"
    using assms(2) [of k] less.prems(5) unfolding serves_def by blast
  define s1 where "s1 = receive (env k) (serve (env k) p) (s\<lparr>start_pos := p, fs_free_size := nat (free_size (env k)), http_hd := True\<rparr>)"
  have "flash s1 = take (p + n) img" "dload_want_size s1 = length img" "first_flag s1 = 1" "resume_dload_count s1 \<le> 3"
    using less.prems n(2) assms(1) [of k]
    by (simp_all add: s1_def receive_rest attempt_ok_def take_add)
  note s1 = this
  have round: "fota_loop env k s calls = (if length img > length (flash s1)
      then fota_loop env (Suc k) (s1\<lparr>http_hd := False\<rparr>) (calls @ [Get (range_header p)])
      else Some (0, s1\<lparr>http_hd := False\<rparr>, calls @ [Get (range_header p)]))"
    using fota_round [of env k s s1 "Get (range_header p)" calls] assms(1) [of k] less.prems(3) len s1(2) by (simp add: s1_def)
  show ?case
  proof (cases "p + n < length img")
    case True
    then have "length img - (p + n) < length img - p" using n(1) by simp
    from less.hyps [OF this, of "s1\<lparr>http_hd := False\<rparr>" "Suc k" "calls @ [Get (range_header p)]"] s1 True round show ?thesis
      by simp
  next
    case False
    with s1(1) round show ?thesis by simp
  qed
qed

section \<open>Properties of the updates\<close>


definition stuck :: "unir_fota_http \<Rightarrow> bool" where
  "stuck s \<longleftrightarrow> resume_dload_count s \<le> 3 \<and> length (flash s) < dload_want_size s"

text \<open>The update has no limit on its attempts: the counter in the loop's condition is never changed, so when
  the server answers without sending anything more the process repeats the request for ever.\<close>

theorem http_fota_never_gives_up:
  assumes "\<forall>i. attempt_ok (env i) \<and> (\<forall>pos. serve (env i) pos = [])"
    and "resume_dload_count s \<le> 3" and "length (flash s) < dload_want_size s"
  shows "fota_loop env k s calls = None"
proof -
  have "\<not> stuck s" if "fota_loop env k s calls = Some r" for k s calls r
  proof -
    have "env = env \<longrightarrow> \<not> stuck s"
    proof (rule fota_loop.raw_induct [where P = "\<lambda>e k s calls r. e = env \<longrightarrow> \<not> stuck s", OF _ that], intro impI notI)
      fix loop :: "(nat \<Rightarrow> attempt) \<Rightarrow> nat \<Rightarrow> unir_fota_http \<Rightarrow> fota_call list \<Rightarrow> (int \<times> unir_fota_http \<times> fota_call list) option"
        and e k s calls r
      assume IH: "\<And>e k s calls r. loop e k s calls = Some r \<Longrightarrow> e = env \<longrightarrow> \<not> stuck s" and "e = env" "stuck s"
      assume body: "(if resume_dload_count s \<le> 3 then
          (case size_err1 (e k) of Some err \<Rightarrow> Some (err, s, calls)
           | None \<Rightarrow> if free_size (e k) < 0 then Some (free_size (e k), s\<lparr>start_pos := length (flash s)\<rparr>, calls)
             else (case unirtos_fota_http_start (e k)
                 (s\<lparr>start_pos := length (flash s), fs_free_size := nat (free_size (e k))\<rparr>) of
               (ret, s1, c1) \<Rightarrow>
                 if ret \<noteq> 0 then Some (ret, s1, calls @ c1)
                 else if size_err2 (e k) \<noteq> None then Some (ret, s1, calls @ c1)
                 else if length (flash s1) < dload_want_size s1
                 then loop e (Suc k) (unirtos_fota_http_deinit s1) (calls @ c1) else Some (ret, s1, calls @ c1)))
          else Some (0, s, calls)) = Some r"
      let ?s1 = "s\<lparr>start_pos := length (flash s), fs_free_size := nat (free_size (env k)), http_hd := False\<rparr>"
      have ok: "attempt_ok (env k)" "serve (env k) (length (flash s)) = []" using assms(1) by auto
      then have "\<not> free_size (env k) < 0" by (simp add: attempt_ok_def)
      with body [unfolded \<open>e = env\<close>] \<open>stuck s\<close> ok have "loop env (Suc k) ?s1 (calls @ [Get (range_header (length (flash s)))]) = Some r"
        by (simp add: stuck_def attempt_ok_def unirtos_fota_http_start_def unirtos_fota_http_deinit_def Let_def)
      with IH have "\<not> stuck ?s1" by blast
      with \<open>stuck s\<close> show False by (simp add: stuck_def)
    qed
    then show ?thesis by simp
  qed
  with assms(2,3) show ?thesis by (cases "fota_loop env k s calls") (auto simp: stuck_def)
qed

text \<open>An update that finds a package from an earlier attempt takes the length of the remainder for the
  length of the whole: when more than half was there, it stops after the first answer, however little
  that brought, and installs an incomplete image.\<close>

theorem http_fota_installs_incomplete_image:
  assumes "unir_fota_net_active net" and "attempt_ok (env 0)" and "0 < p" and "p < length img"
    and "content_length (env 0) p = int (length img - p)" and "int (length img) \<le> free_size (env 0)"
    and "serve (env 0) p = [c]" and "length img - p \<le> p"
  shows "unir_http_fota_demo_process net True True env (take p img) =
    Some (take p img @ c, [Get (range_header p), Verify True, Flag_set, Reset, Fota_deinit True])"
proof -
  let ?s = "zero_fota_http (take p img)"
  define s1 where "s1 = receive (env 0) [c]
    (?s\<lparr>start_pos := p, fs_free_size := nat (free_size (env 0)), http_hd := True\<rparr>)"
  have s1: "flash s1 = take p img @ c" "dload_want_size s1 = length img - p"
    using assms(2-6) unfolding s1_def by (subst receive_first; simp add: zero_fota_http_def)+
  have "fota_loop env 0 ?s [] = Some (0, s1\<lparr>http_hd := False\<rparr>, [Get (range_header p)])"
    using fota_round [of env 0 ?s s1 "Get (range_header p)" "[]"] s1 assms(2,4,7,8)
    by (simp add: s1_def zero_fota_http_def)
  with assms(1) s1(1) show ?thesis
    by (simp add: unir_http_fota_demo_process_def fota_exit_def)
qed

text \<open>When there is no room for the package, the FTP update skips the download, but not what follows it: the
  error code is still the success of the call before, so the old contents are verified, the update
  flag is set and the device resets.\<close>

theorem ftp_fota_without_space_installs:
  assumes "unir_fota_net_active net" and "ctx_alloc_ok env" and "size_core_ok env" and "size_ret env = 0"
    and "info_ret env = 0" and "0 \<le> remote_size env" and "ftp_free env < remote_size env"
  shows "unir_ftp_fota_demo_process net True True env old = (old, [Verify True, Flag_set, Reset, Fota_deinit True])"
  using assms
  by (simp add: unir_ftp_fota_demo_process_def unir_fota_ftp_handle_new_def unir_ftp_client_new_cfg_def
      unir_ftp_fota_get_file_size_def fota_exit_def)

section \<open>The properties at concrete inputs\<close>

text \<open>A server with the image \<^verbatim>\<open>abcde\<close> that sends two bytes at a time.\<close>

definition ex_attempt :: attempt where
  "ex_attempt = \<lparr>size_err1 = None, free_size = 1000, core_create_ret = 0, resp_code = 206,
     content_length = (\<lambda>pos. 5 - int pos), serve = (\<lambda>pos. [take 2 (drop pos ''abcde'')]), flash_ok = (\<lambda>pos. True),
     perform_ret = 0, size_err2 = None\<rparr>"

definition ex_net :: net_env where "ex_net = \<lparr>ip_info = Not_active, start_ok = True\<rparr>"

lemma ex_net_active: "unir_fota_net_active ex_net"
  by (simp add: unir_fota_net_active_def ex_net_def)


theorem http_fota_never_gives_up_witness:
  "fota_loop (\<lambda>i. ex_attempt\<lparr>serve := (\<lambda>pos. [])\<rparr>) 1 ((zero_fota_http ''ab'')\<lparr>dload_want_size := 5\<rparr>) [] = None"
  by (rule http_fota_never_gives_up) (simp_all add: attempt_ok_def ex_attempt_def zero_fota_http_def)

theorem http_fota_installs_incomplete_image_witness:
  "unir_http_fota_demo_process ex_net True True (\<lambda>i. ex_attempt\<lparr>serve := (\<lambda>pos. [''d''])\<rparr>) ''abc'' =
    Some (''abcd'', [Get (range_header 3), Verify True, Flag_set, Reset, Fota_deinit True])"
proof -
  have "unir_http_fota_demo_process ex_net True True (\<lambda>i. ex_attempt\<lparr>serve := (\<lambda>pos. [''d''])\<rparr>) (take 3 ''abcde'') =
    Some (take 3 ''abcde'' @ ''d'', [Get (range_header 3), Verify True, Flag_set, Reset, Fota_deinit True])"
    by (rule http_fota_installs_incomplete_image [OF ex_net_active]) (simp_all add: attempt_ok_def ex_attempt_def)
  then show ?thesis by simp
qed

theorem ftp_fota_without_space_installs_witness:
  "unir_ftp_fota_demo_process ex_net True True
     \<lparr>ctx_alloc_ok = True, size_core_ok = True, size_ret = 0, info_ret = 0, remote_size = 100, ftp_free = 50, get_core_ok = True,
      ftp_chunks = [''x''], ftp_flash_ok = (\<lambda>pos. True), get_ret = 0\<rparr> ''old'' =
   (''old'', [Verify True, Flag_set, Reset, Fota_deinit True])"
  by (rule ftp_fota_without_space_installs [OF ex_net_active]) simp_all

end
