(* ===== verification/File_Transfer.thy ===== *)
theory File_Transfer
  imports UniRTOS_Prelude
begin

text \<open>
  The transfer loop of the file helpers: \<^verbatim>\<open>while (temp_len < len) { ret = io(buf + temp_len, len - temp_len);
  if (ret <= 0) { close; return -1; } temp_len += ret; }\<close>. The demos that move data to or from a file
  each have their own copy of it; \<open>transfer_loop\<close> is the contract of such a copy and its
  consequences, and each copy is an interpretation.

  What the file system answers is a function of the offset the loop has reached: every offset is
  visited at most once.
\<close>

text \<open>An answer never exceeds what was asked for.\<close>

definition io_within :: "(nat \<Rightarrow> int) \<Rightarrow> nat \<Rightarrow> bool" where
  [env_defs]: "io_within io len \<longleftrightarrow> (\<forall>off < len. io off \<le> int (len - off))"

locale transfer_loop =
  fixes loop :: "(nat \<Rightarrow> int) \<Rightarrow> nat \<Rightarrow> nat \<Rightarrow> int \<times> nat"
  assumes finished: "len \<le> off \<Longrightarrow> loop io len off = (0, off)"
    and failed: "off < len \<Longrightarrow> io off \<le> 0 \<Longrightarrow> loop io len off = (-1, off)"
    and moved: "off < len \<Longrightarrow> 0 < io off \<Longrightarrow> loop io len off = loop io len (off + nat (io off))"
begin

text \<open>The loop returns 0 with everything moved, or -1 at an offset where the file system refused.\<close>

lemma loop_result:
  assumes "io_within io len" and "off \<le> len"
  shows "loop io len off = (0, len) \<or>
    (\<exists>k. loop io len off = (-1, k) \<and> off \<le> k \<and> k < len \<and> io k \<le> 0)"
  using assms(2)
proof (induction "len - off" arbitrary: off rule: less_induct)
  case less
  show ?case
  proof (cases "off < len")
    case False
    with less.prems finished show ?thesis by simp
  next
    case True
    show ?thesis
    proof (cases "io off \<le> 0")
      case True
      with \<open>off < len\<close> failed show ?thesis by auto
    next
      case False
      have "io off \<le> int (len - off)" using assms(1) \<open>off < len\<close> by (simp add: io_within_def)
      with False \<open>off < len\<close>
      have smaller: "len - (off + nat (io off)) < len - off" and "off + nat (io off) \<le> len" by linarith+
      have eq: "loop io len off = loop io len (off + nat (io off))"
        using moved \<open>off < len\<close> False by simp
      show ?thesis
        unfolding eq using less.hyps [OF smaller \<open>off + nat (io off) \<le> len\<close>] by (auto intro: add_leD1)
    qed
  qed
qed

text \<open>A file system that always makes progress moves everything.\<close>

lemma loop_completes:
  assumes "io_within io len" and "\<forall>off < len. 0 < io off"
  shows "loop io len 0 = (0, len)"
  using loop_result [OF assms(1), of 0] assms(2) by fastforce

lemma loop_code: "fst (loop io len off) \<in> {0, -1}"
proof (induction "len - off" arbitrary: off rule: less_induct)
  case less
  show ?case
  proof (cases "off < len \<and> 0 < io off")
    case True
    then have "len - (off + nat (io off)) < len - off" by linarith
    with less True moved show ?thesis by simp
  next
    case False
    with finished [of len off io] failed [of off len io] show ?thesis by (cases "off < len") auto
  qed
qed

end

end
