(* ===== verification/Upload.thy ===== *)
theory Upload
  imports UniRTOS_Prelude
begin

text \<open>
  Uploads through a read callback. The transfer library asks the callback for data, with a buffer of
  its choice each time, until the callback returns 0; the examples that send a file, a request body
  or a mail each bring their own callback. \<open>pull_all\<close> is that protocol: \<open>sizes k\<close> is the size of the
  buffer of the \<open>k\<close>-th call, the bytes a call returns are the chunk it yields, and the value \<open>None\<close>
  stands for a callback that is called forever.

  \<open>pulled\<close> is the contract under which a callback comes to an end, \<open>upload_spec\<close> adds what it may
  send, as a relation between a state and the bytes still to come, and \<open>upload_source\<close> is the special
  case of a fixed text.
\<close>

type_synonym 's read_cb = "nat \<Rightarrow> 's \<Rightarrow> (string \<times> 's) c_result"

partial_function (option) pull_all ::
  "'s read_cb \<Rightarrow> (nat \<Rightarrow> nat) \<Rightarrow> nat \<Rightarrow> 's \<Rightarrow> (string \<times> 's) c_result option" where
  "pull_all cb sizes k s =
     (case cb (sizes k) s of
        Inl u \<Rightarrow> Some (Inl u)
      | Inr (d, s1) \<Rightarrow>
          if d = [] then Some (Inr ([], s1))
          else Option.bind (pull_all cb sizes (Suc k) s1)
            (\<lambda>r. Some (c_bind r (\<lambda>(ds, s2). Inr (d @ ds, s2)))))"

lemma pull_all_end: "cb (sizes k) s = Inr ([], s1) \<Longrightarrow> pull_all cb sizes k s = Some (Inr ([], s1))"
  by (subst pull_all.simps) simp

lemma pull_all_step:
  assumes "cb (sizes k) s = Inr (d, s1)" and "d \<noteq> []"
    and "pull_all cb sizes (Suc k) s1 = Some (Inr (ds, s2))"
  shows "pull_all cb sizes k s = Some (Inr (d @ ds, s2))"
  using assms by (subst pull_all.simps) simp

text \<open>Induction over a run that ends.\<close>

abbreviation after_chunk :: "string \<Rightarrow> (string \<times> 's) c_result \<Rightarrow> (string \<times> 's) c_result" where
  "after_chunk d r \<equiv> c_bind r (\<lambda>(ds, s2). Inr (d @ ds, s2))"

lemma pull_all_induct [consumes 1, case_names undefined finish chunk]:
  assumes "pull_all cb sizes k s = Some r"
    and undef: "\<And>k s u. cb (sizes k) s = Inl u \<Longrightarrow> P k s (Inl u)"
    and finish: "\<And>k s s1. cb (sizes k) s = Inr ([], s1) \<Longrightarrow> P k s (Inr ([], s1))"
    and chunk: "\<And>k s d s1 r1. cb (sizes k) s = Inr (d, s1) \<Longrightarrow> d \<noteq> [] \<Longrightarrow> P (Suc k) s1 r1 \<Longrightarrow> P k s (after_chunk d r1)"
  shows "P k s r"
proof -
  have "cb = cb \<longrightarrow> sizes = sizes \<longrightarrow> P k s r"
  proof (rule pull_all.raw_induct
      [where P = "\<lambda>cb' sizes' k s r. cb' = cb \<longrightarrow> sizes' = sizes \<longrightarrow> P k s r", OF _ assms(1)])
    fix loop :: "'a read_cb \<Rightarrow> (nat \<Rightarrow> nat) \<Rightarrow> nat \<Rightarrow> 'a \<Rightarrow> (string \<times> 'a) c_result option"
      and cb' :: "'a read_cb" and sizes' k s r
    assume IH: "\<And>cb' sizes' k s r. loop cb' sizes' k s = Some r \<Longrightarrow> cb' = cb \<longrightarrow> sizes' = sizes \<longrightarrow> P k s r"
      and body: "(case cb' (sizes' k) s of Inl u \<Rightarrow> Some (Inl u)
        | Inr (d, s1) \<Rightarrow> if d = [] then Some (Inr ([], s1))
            else Option.bind (loop cb' sizes' (Suc k) s1) (\<lambda>r. Some (after_chunk d r))) = Some r"
    show "cb' = cb \<longrightarrow> sizes' = sizes \<longrightarrow> P k s r"
    proof (intro impI)
      assume "cb' = cb" "sizes' = sizes"
      with body show "P k s r"
        using undef [of k s] finish [of k s] chunk [of k s] IH [of cb sizes "Suc k"]
        by (auto simp: bind_eq_Some_conv split: sum.splits prod.splits if_splits)
    qed
  qed
  then show ?thesis by simp
qed

text \<open>What every call keeps holds at the end.\<close>

lemma pull_all_keeps:
  assumes "pull_all cb sizes k s = Some (Inr (ds, s'))" and "P s"
    and "\<And>n s d s'. cb n s = Inr (d, s') \<Longrightarrow> P s \<Longrightarrow> P s'"
  shows "P s'"
proof -
  have "P s \<longrightarrow> r = Inr (ds, s') \<longrightarrow> P s'" if "pull_all cb sizes k s = Some r" for r
    using that
    by (induction arbitrary: ds rule: pull_all_induct) (use assms(3) in \<open>auto simp: c_bind_eq_Inr split: prod.splits\<close>)
  with assms(1,2) show ?thesis by blast
qed

text \<open>Callbacks that agree up to a change of the state send the same bytes, or both are called forever.\<close>

definition map_state :: "('a \<Rightarrow> 'b) \<Rightarrow> (string \<times> 'a) c_result \<Rightarrow> (string \<times> 'b) c_result" where
  "map_state f r = c_bind r (\<lambda>(d, s). Inr (d, f s))"

lemma map_state_simps [simp]:
  "map_state f (Inl u) = Inl u" "map_state f (Inr (d, s)) = Inr (d, f s)"
  "map_state f (c_bind m g) = c_bind m (\<lambda>x. map_state f (g x))"
  by (simp_all add: map_state_def) (cases m; simp)

lemma pull_all_simulation:
  assumes sim: "\<And>n s. cb2 n (f s) = map_state f (cb1 n s)"
  shows "pull_all cb2 sizes k (f s) = map_option (map_state f) (pull_all cb1 sizes k s)"
proof -
  have fw: "pull_all cb2 sizes k (f s) = Some (map_state f r)" if "pull_all cb1 sizes k s = Some r" for k s r
    using that
  proof (induction rule: pull_all_induct)
    case (undefined k s u)
    then show ?case by (subst pull_all.simps) (simp add: sim map_state_def)
  next
    case (finish k s s1)
    then show ?case by (subst pull_all.simps) (simp add: sim map_state_def)
  next
    case (chunk k s d s1 r1)
    then show ?case by (subst pull_all.simps) (cases r1; simp add: sim map_state_def split: prod.splits)
  qed
  have bw: "\<forall>s. t = f s \<longrightarrow> (\<exists>r. pull_all cb1 sizes k s = Some r)" if "pull_all cb2 sizes k t = Some r" for k t r
    using that
  proof (induction rule: pull_all_induct)
    case (undefined k t u)
    then show ?case
      by (auto simp: sim map_state_def pull_all.simps [of cb1 sizes k] split: sum.splits prod.splits)
  next
    case (finish k t s1)
    then show ?case
      by (auto simp: sim map_state_def pull_all.simps [of cb1 sizes k] split: sum.splits prod.splits)
  next
    case (chunk k t d s1 r1)
    show ?case
    proof (intro allI impI)
      fix s assume "t = f s"
      with chunk(1) obtain s1' where "cb1 (sizes k) s = Inr (d, s1')" "s1 = f s1'"
        by (cases "cb1 (sizes k) s") (auto simp: sim map_state_def)
      with chunk show "\<exists>r. pull_all cb1 sizes k s = Some r"
        by (subst pull_all.simps) auto
    qed
  qed
  show ?thesis
  proof (cases "pull_all cb1 sizes k s")
    case None
    with bw [of k "f s"] show ?thesis by (cases "pull_all cb2 sizes k (f s)") auto
  next
    case (Some r)
    with fw show ?thesis by simp
  qed
qed

text \<open>The callback stays defined, never returns more than it was asked for, and whatever it returns
  brings it closer to the end.\<close>

locale pulled =
  fixes cb :: "'s read_cb" and inv :: "'s \<Rightarrow> bool" and left :: "'s \<Rightarrow> nat" and size_ok :: "nat \<Rightarrow> bool"
  assumes call: "inv s \<Longrightarrow> size_ok n \<Longrightarrow>
    \<exists>d s'. cb n s = Inr (d, s') \<and> inv s' \<and> length d \<le> n \<and> (d \<noteq> [] \<longrightarrow> left s' < left s)"
begin

lemma pull_returns:
  assumes "inv s" and "\<forall>i. size_ok (sizes i)"
  shows "\<exists>ds s'. pull_all cb sizes k s = Some (Inr (ds, s')) \<and> inv s'"
  using assms(1)
proof (induction "left s" arbitrary: s k rule: less_induct)
  case less
  obtain d s1 where d: "cb (sizes k) s = Inr (d, s1)" "inv s1" "d \<noteq> [] \<longrightarrow> left s1 < left s"
    using call [OF less.prems assms(2) [rule_format]] by blast
  show ?case
  proof (cases "d = []")
    case True
    with d pull_all_end show ?thesis by fastforce
  next
    case False
    with d less.hyps obtain ds s2 where "pull_all cb sizes (Suc k) s1 = Some (Inr (ds, s2))" "inv s2" by blast
    with pull_all_step [of cb sizes k s d s1] d(1) False show ?thesis by blast
  qed
qed

end

text \<open>A specification of the bytes still to come, step by step.\<close>

locale upload_spec = pulled +
  fixes spec :: "'a \<Rightarrow> string \<Rightarrow> bool"
  assumes spec_step: "inv s \<Longrightarrow> size_ok n \<Longrightarrow> cb n s = Inr (d, s') \<Longrightarrow> d \<noteq> [] \<Longrightarrow> spec s' out \<Longrightarrow> spec s (d @ out)"
    and spec_end: "inv s \<Longrightarrow> size_ok n \<Longrightarrow> cb n s = Inr ([], s') \<Longrightarrow> spec s []"
begin

text \<open>The last call is the one that returned nothing.\<close>

lemma pull_meets_spec:
  assumes "inv s" and "\<forall>i. size_ok (sizes i)"
  shows "\<exists>ds s' s0 i. pull_all cb sizes k s = Some (Inr (ds, s')) \<and> inv s' \<and> spec s ds \<and>
    inv s0 \<and> cb (sizes i) s0 = Inr ([], s')"
  using assms(1)
proof (induction "left s" arbitrary: s k rule: less_induct)
  case less
  obtain d s1 where d: "cb (sizes k) s = Inr (d, s1)" "inv s1" "d \<noteq> [] \<longrightarrow> left s1 < left s"
    using call [OF less.prems assms(2) [rule_format]] by blast
  show ?case
  proof (cases "d = []")
    case True
    with d pull_all_end [of cb sizes k s s1] spec_end [OF less.prems assms(2) [rule_format], of k] less.prems show ?thesis by auto
  next
    case False
    with d less.hyps obtain ds s2 s0 i where
      "pull_all cb sizes (Suc k) s1 = Some (Inr (ds, s2))" "inv s2" "spec s1 ds" "inv s0" "cb (sizes i) s0 = Inr ([], s2)"
      by blast
    with pull_all_step [of cb sizes k s d s1] d(1) False spec_step [OF less.prems assms(2) [rule_format] d(1) False]
    show ?thesis by blast
  qed
qed

end

text \<open>A callback that hands out a text piece by piece: it refines sending that text.\<close>

locale upload_source =
  fixes cb :: "'s read_cb" and inv :: "'s \<Rightarrow> bool" and rest :: "'s \<Rightarrow> string" and size_ok :: "nat \<Rightarrow> bool"
  assumes chunk: "inv s \<Longrightarrow> size_ok n \<Longrightarrow>
    \<exists>d s'. cb n s = Inr (d, s') \<and> inv s' \<and> length d \<le> n \<and> rest s = d @ rest s' \<and> (d = [] \<longrightarrow> rest s = [])"
begin

lemma is_spec: "upload_spec cb inv (\<lambda>s. length (rest s)) size_ok (\<lambda>s out. out = rest s)"
proof
  fix s n assume "inv s" "size_ok n"
  then show "\<exists>d s'. cb n s = Inr (d, s') \<and> inv s' \<and> length d \<le> n \<and>
      (d \<noteq> [] \<longrightarrow> length (rest s') < length (rest s))"
    using chunk [of s n] by fastforce
qed (use chunk in fastforce)+

end

sublocale upload_source \<subseteq> sent: upload_spec cb inv "\<lambda>s. length (rest s)" size_ok "\<lambda>s out. out = rest s"
  by (rule is_spec)

context upload_source
begin

lemma pull_sends_rest:
  assumes "inv s" and "\<forall>i. size_ok (sizes i)"
  shows "\<exists>s'. pull_all cb sizes k s = Some (Inr (rest s, s')) \<and> inv s' \<and> rest s' = []"
proof -
  obtain s' s0 i where "pull_all cb sizes k s = Some (Inr (rest s, s'))" "inv s'" "inv s0"
      "cb (sizes i) s0 = Inr ([], s')"
    using sent.pull_meets_spec [of s sizes k] assms by blast
  with chunk [OF \<open>inv s0\<close> assms(2) [rule_format], of i] show ?thesis by auto
qed

end

end
