(* ===== verification/Smtp.thy ===== *)
theory Smtp
  imports File_Transfer Upload
begin

text \<open>
  The mail examples, \<^verbatim>\<open>network/network_protocol/smtp/no_tls/smtp_no_tls_demo.c\<close> and
  \<^verbatim>\<open>network/network_protocol/smtp/tls/smtp_tls_demo.c\<close>; they share everything but the demo function.

  State: the client \<open>qurl_smtp_client\<close>, a state machine that produces a MIME message piece by piece.
  Operations: one encoder per part of the message, the read callback that runs the encoders its
  buffer has room for, set-up and clean-up, and the two demos.

  The base64 encoder is a library function that the sources only call: it is the field \<open>b64\<close> of the
  environment, given the bytes, the size of the destination and whether to break lines; \<open>None\<close> is a
  negative result. The file system is the other part of the environment.
\<close>

section \<open>Data\<close>

definition CRLF :: string where "CRLF = [CHR 13, CHR 10]"
definition TAB :: string where "TAB = [CHR 9]"
definition QUOTE :: string where "QUOTE = [CHR 34]"

definition QURL_SMTP_DEMO_EMAILADDR :: string where "QURL_SMTP_DEMO_EMAILADDR = ''smtp.163.com''"
definition QURL_SMTP_DEMO_NICKNAME :: string where "QURL_SMTP_DEMO_NICKNAME = ''xxx''"
definition QURL_SMTP_DEMO_SENDER_EMAIL :: string where "QURL_SMTP_DEMO_SENDER_EMAIL = ''xxx@163.com''"
definition QURL_SMTP_DEMO_TO_PERSON :: string where "QURL_SMTP_DEMO_TO_PERSON = ''xxx@163.com''"
definition QURL_SMTP_DEMO_CC_PERSON :: string where "QURL_SMTP_DEMO_CC_PERSON = ''xxx@sina.com''"
definition QURL_SMTP_DEMO_BCC_PERSON :: string where "QURL_SMTP_DEMO_BCC_PERSON = ''xxx@sohu.com''"
definition QURL_SMTP_DEMO_NO_TLS_PORT :: int where "QURL_SMTP_DEMO_NO_TLS_PORT = 25"
definition QURL_SMTP_DEMO_TIMEOUT :: int where "QURL_SMTP_DEMO_TIMEOUT = 60"
definition QURL_SMTP_DEMO_TEXT :: string where "QURL_SMTP_DEMO_TEXT = ''Hello, welcome to test SMTP protocol''"
definition QURL_SMTP_DEMO_FILENAME :: string where "QURL_SMTP_DEMO_FILENAME = ''/user/smtp_test.txt''"
definition QURL_SMTP_BOUNDARY_STRING :: string where
  "QURL_SMTP_BOUNDARY_STRING = ''===Quectel_1755834449018_Quectel===''"
definition QURL_SMTP_MULTIPART_MIXED :: string where "QURL_SMTP_MULTIPART_MIXED = ''multipart/mixed;'' @ CRLF"

lemmas smtp_consts = CRLF_def TAB_def QUOTE_def QURL_SMTP_DEMO_EMAILADDR_def QURL_SMTP_DEMO_NICKNAME_def
  QURL_SMTP_DEMO_SENDER_EMAIL_def QURL_SMTP_DEMO_TO_PERSON_def QURL_SMTP_DEMO_CC_PERSON_def
  QURL_SMTP_DEMO_BCC_PERSON_def QURL_SMTP_BOUNDARY_STRING_def QURL_SMTP_MULTIPART_MIXED_def

datatype send_status = SEND_HEAD | SEND_TEXT_HEAD | SEND_TEXT_BODY | SEND_ATTA_HEAD | SEND_ATTA_BODY
  | SEND_TAIL | SEND_NONE

datatype smtp_charset = CHARSET_ASCII | CHARSET_UTF8 | CHARSET_GB2312 | CHARSET_BIG5

datatype smtp_ssl_type = SSL_TYPE_NO | SSL_TYPE_SSL | SSL_TYPE_STARTTLS

fun qurl_smtp_charset :: "smtp_charset \<Rightarrow> string" where
  "qurl_smtp_charset CHARSET_ASCII = ''us-ascii''"
| "qurl_smtp_charset CHARSET_UTF8 = ''utf-8''"
| "qurl_smtp_charset CHARSET_GB2312 = ''gb2312''"
| "qurl_smtp_charset CHARSET_BIG5 = ''big5''"

datatype smtp_call = Mail_open string | Mail_fstat int | Mail_read int nat | Mail_close int

text \<open>A string of the client is \<open>None\<close> for \<^verbatim>\<open>NULL\<close>. The last two fields are not the program's: the calls
  of the file system, and how many read buffers were allocated and not freed.\<close>

record qurl_smtp_client =
  subject :: "string option"
  subject_charset :: smtp_charset
  text_charset :: smtp_charset
  body_text :: "string option"
  text_len :: nat
  text_used :: nat
  file_name :: "string option"
  file_size :: nat
  file_used :: nat
  file_fd :: int
  status :: send_status
  ssl :: smtp_ssl_type
  file_calls :: "smtp_call list"
  bufs_leaked :: nat

record smtp_env =
  b64 :: "string \<Rightarrow> nat \<Rightarrow> bool \<Rightarrow> string option"
  atta_fd :: int
  atta_stat :: "nat option"
  atta_content :: string
  atta_io :: "nat \<Rightarrow> nat \<Rightarrow> int"      \<comment> \<open>\<^verbatim>\<open>qosa_vfs_read\<close> at a position, bytes asked for\<close>
  atta_alloc :: "nat \<Rightarrow> bool"         \<comment> \<open>by the position in the file\<close>

section \<open>Encoders\<close>

text \<open>
  One \<^verbatim>\<open>len += qosa_snprintf(ptr + len, buf_len - len, ...)\<close>. A text that exactly fills the room loses
  its last character to the terminator. A longer one makes \<^verbatim>\<open>len\<close> exceed \<^verbatim>\<open>buf_len\<close>: then
  \<^verbatim>\<open>buf_len - len\<close> wraps, every encoder that follows takes the room for unlimited and writes behind
  the buffer, and if none follows the library sends more bytes than the buffer has.
\<close>

definition append_fmt :: "nat \<Rightarrow> string \<Rightarrow> string \<Rightarrow> string c_result" where
  "append_fmt buf_len txt out =
     (let room = buf_len - length out in
      if length txt < room \<or> txt = [] then Inr (out @ txt)
      else if length txt = room then Inr (out @ butlast txt @ [NUL])
      else Inl Out_of_bounds)"

fun append_all :: "nat \<Rightarrow> string list \<Rightarrow> string \<Rightarrow> string c_result" where
  "append_all buf_len [] out = Inr out"
| "append_all buf_len (t # ts) out = c_bind (append_fmt buf_len t out) (append_all buf_len ts)"

type_synonym encoder = "smtp_env \<Rightarrow> nat \<Rightarrow> qurl_smtp_client \<Rightarrow> (string \<times> qurl_smtp_client) c_result"

text \<open>How many bytes of payload a buffer can take in base64 with line breaks; 32-bit arithmetic.\<close>

definition can_read_len :: "nat \<Rightarrow> nat" where
  "can_read_len buf_len =
     (let free_len = buf_len - (buf_len div 76) * 2;
          can_read = free_len * 3 mod 2 ^ 32 div 4
      in can_read - can_read mod 3)"

function qurl_smtp_file_read :: "(nat \<Rightarrow> int) \<Rightarrow> nat \<Rightarrow> nat \<Rightarrow> int \<times> nat" where
  "qurl_smtp_file_read io len temp_len =
     (if temp_len < len then
        (if io temp_len \<le> 0 then (-1, temp_len)
         else qurl_smtp_file_read io len (temp_len + nat (io temp_len)))
      else (0, temp_len))"
  by pat_completeness auto
termination
  by (relation "measure (\<lambda>(io, len, off). len - off)") auto

declare qurl_smtp_file_read.simps [simp del]

interpretation smtp_read: transfer_loop qurl_smtp_file_read
  by unfold_locales (auto simp: qurl_smtp_file_read.simps [of _ _ off for off])

text \<open>The 32-bit difference as an \<^verbatim>\<open>int\<close>.\<close>

definition left_int :: "nat \<Rightarrow> nat \<Rightarrow> int" where
  "left_int tot used = (int tot - int used + 2 ^ 31) mod 2 ^ 32 - 2 ^ 31"

text \<open>The error exit closes the file when the handle is positive, also after the read helper has
  closed it. A negative length asks for more than 2 GB and the allocation fails.\<close>

definition atta_exit :: "qurl_smtp_client \<Rightarrow> qurl_smtp_client" where
  "atta_exit s = s\<lparr>status := SEND_TAIL,
     file_calls := file_calls s @ (if file_fd s > 0 then [Mail_close (file_fd s)] else [])\<rparr>"

definition qurl_smtp_encode_atta_body :: encoder where
  "qurl_smtp_encode_atta_body env buf_len s =
     (if buf_len < 4 then Inr ([], s)
      else
        let left_len = left_int (file_size s) (file_used s);
            copy_len = min (int (can_read_len buf_len)) left_len;
            n = nat copy_len; pos = file_used s in
        if copy_len = 0 then Inr ([], s\<lparr>status := SEND_TAIL\<rparr>)
        else if copy_len < 0 \<or> \<not> atta_alloc env pos then Inr ([], atta_exit s)
        else
          let s1 = s\<lparr>bufs_leaked := Suc (bufs_leaked s)\<rparr>;
              (ret, got) = qurl_smtp_file_read (\<lambda>off. atta_io env (pos + off) (n - off)) n 0;
              s2 = s1\<lparr>file_calls := file_calls s1 @ [Mail_read (file_fd s) got]\<rparr> in
          if ret \<noteq> 0 then Inr ([], atta_exit (s2\<lparr>file_calls := file_calls s2 @ [Mail_close (file_fd s)]\<rparr>))
          else case b64 env (take n (drop pos (atta_content env))) buf_len True of
            None \<Rightarrow> Inr ([], atta_exit s2)
          | Some t \<Rightarrow>
              let s3 = s2\<lparr>file_used := pos + n\<rparr> in
              Inr (t, if file_used s3 \<ge> file_size s3 then s3\<lparr>status := SEND_TAIL\<rparr> else s3))"

text \<open>The name behind the last slash.\<close>

definition base_name :: "string \<Rightarrow> string" where
  "base_name p = rev (takeWhile (\<lambda>c. c \<noteq> CHR ''/'') (rev p))"

definition atta_head_lines :: "string \<Rightarrow> string list" where
  "atta_head_lines name =
     [CRLF @ ''--'' @ QURL_SMTP_BOUNDARY_STRING @ CRLF,
      ''Content-Type: '' @ ''application/octet-stream;'' @ CRLF @ TAB @ ''name='' @ QUOTE @ name @ QUOTE @ CRLF,
      ''Content-Transfer-Encoding: base64'' @ CRLF,
      ''Content-Disposition: attachment;'' @ CRLF @ TAB @ ''file_name='' @ QUOTE @ name @ QUOTE @ CRLF @ CRLF]"

definition qurl_smtp_encode_atta_head :: encoder where
  "qurl_smtp_encode_atta_head env buf_len s =
     (case file_name s of
        None \<Rightarrow> Inr ([], s\<lparr>status := SEND_TAIL\<rparr>)
      | Some name \<Rightarrow>
          if buf_len < 512 then Inr ([], s)
          else
            let f = atta_fd env; s1 = s\<lparr>file_fd := f, file_calls := file_calls s @ [Mail_open name]\<rparr> in
            if f < 0 then Inr ([], s1\<lparr>status := SEND_TAIL\<rparr>)
            else
              let s2 = s1\<lparr>file_calls := file_calls s1 @ [Mail_fstat f]\<rparr> in
              case atta_stat env of
                None \<Rightarrow> Inr ([], s2\<lparr>status := SEND_TAIL, file_calls := file_calls s2 @ [Mail_close f]\<rparr>)
              | Some n \<Rightarrow>
                  c_bind (append_all buf_len (atta_head_lines (base_name name)) [])
                    (\<lambda>d. Inr (d, s2\<lparr>file_size := n mod 2 ^ 32, status := SEND_ATTA_BODY\<rparr>)))"

definition qurl_smtp_encode_text_body :: encoder where
  "qurl_smtp_encode_text_body env buf_len s =
     (if text_len s = 0 then Inr ([], s\<lparr>status := SEND_ATTA_HEAD\<rparr>)
      else if buf_len < 4 then Inr ([], s)
      else
        let left_len = left_int (text_len s) (text_used s);
            copy_len = min (int (can_read_len buf_len)) left_len in
        if copy_len = 0 then Inr ([], s\<lparr>status := SEND_ATTA_HEAD\<rparr>)
        else case body_text s of
          None \<Rightarrow> Inl Null_dereference
        | Some b \<Rightarrow>
            if copy_len < 0 \<or> text_used s + nat copy_len > length b then Inl Out_of_bounds
            else case b64 env (take (nat copy_len) (drop (text_used s) b)) buf_len True of
              None \<Rightarrow> Inr ([], s)
            | Some t \<Rightarrow>
                let s1 = s\<lparr>text_used := text_used s + nat copy_len\<rparr> in
                Inr (t, if text_used s1 \<ge> text_len s1 then s1\<lparr>status := SEND_ATTA_HEAD\<rparr> else s1))"

definition text_head_lines :: "smtp_charset \<Rightarrow> string list" where
  "text_head_lines cs =
     [''--'' @ QURL_SMTP_BOUNDARY_STRING @ CRLF,
      ''Content-Type: '' @ ''text/plain;'' @ CRLF @ TAB @ ''charset='' @ QUOTE @ qurl_smtp_charset cs @ QUOTE @ CRLF,
      ''Content-Transfer-Encoding: base64'' @ CRLF @ CRLF]"

definition qurl_smtp_encode_text_head :: encoder where
  "qurl_smtp_encode_text_head env buf_len s =
     (if buf_len < 100 + length QURL_SMTP_BOUNDARY_STRING then Inr ([], s)
      else c_bind (append_all buf_len (text_head_lines (text_charset s)) [])
        (\<lambda>d. Inr (d, s\<lparr>status := SEND_TEXT_BODY\<rparr>)))"

text \<open>\<^verbatim>\<open>subject_title\<close> is 128 zero bytes; printing it needs a terminator inside.\<close>

definition subject_line :: "smtp_env \<Rightarrow> qurl_smtp_client \<Rightarrow> string option c_result" where
  "subject_line env s =
     (case subject s of
        None \<Rightarrow> Inr (Some (''Subject: '' @ CRLF))
      | Some subj \<Rightarrow>
          if subject_charset s = CHARSET_ASCII then Inr (Some (''Subject: '' @ c_str subj @ CRLF))
          else case b64 env (c_str subj) 128 False of
            None \<Rightarrow> Inr None
          | Some t \<Rightarrow>
              if length t > 128 \<or> (length t = 128 \<and> NUL \<notin> set t) then Inl Out_of_bounds
              else Inr (Some (''Subject: =?'' @ qurl_smtp_charset (subject_charset s) @ ''?B?'' @ c_str t @ ''?='' @ CRLF)))"

definition mail_header_lines :: "string list" where
  "mail_header_lines =
     [''From: '' @ QUOTE @ QURL_SMTP_DEMO_NICKNAME @ QUOTE @ '' <'' @ QURL_SMTP_DEMO_SENDER_EMAIL @ ''>'' @ CRLF,
      ''To: <'' @ QURL_SMTP_DEMO_TO_PERSON @ ''>'' @ CRLF,
      ''Cc: <'' @ QURL_SMTP_DEMO_CC_PERSON @ ''>'' @ CRLF,
      ''Bcc: <'' @ QURL_SMTP_DEMO_BCC_PERSON @ ''>'' @ CRLF,
      ''MIME-Version: 1.0'' @ CRLF]"

definition mixed_line :: string where
  "mixed_line = ''Content-Type: '' @ QURL_SMTP_MULTIPART_MIXED @ TAB @ ''boundary='' @ QUOTE @
     QURL_SMTP_BOUNDARY_STRING @ QUOTE @ CRLF @ CRLF"

definition qurl_smtp_encode_mail_header :: encoder where
  "qurl_smtp_encode_mail_header env buf_len s =
     c_bind (append_all buf_len mail_header_lines []) (\<lambda>d1.
       c_bind (subject_line env s) (\<lambda>subj.
         case subj of
           None \<Rightarrow> Inr ([], s)
         | Some l \<Rightarrow> c_bind (append_all buf_len [l, mixed_line] d1)
             (\<lambda>d. Inr (d, s\<lparr>status := SEND_TEXT_HEAD\<rparr>))))"

section \<open>The callback\<close>

text \<open>Run an encoder when its turn has come, in the room that is left.\<close>

definition in_turn :: "send_status \<Rightarrow> encoder \<Rightarrow> smtp_env \<Rightarrow> nat \<Rightarrow> string \<times> qurl_smtp_client \<Rightarrow> (string \<times> qurl_smtp_client) c_result" where
  "in_turn st enc env buf_len = (\<lambda>(out, s).
     if status s = st then c_bind (enc env (buf_len - length out) s) (\<lambda>(d, s'). Inr (out @ d, s'))
     else Inr (out, s))"

definition mail_tail :: string where
  "mail_tail = CRLF @ ''--'' @ QURL_SMTP_BOUNDARY_STRING @ ''--'' @ CRLF"

definition encode_tail :: encoder where
  "encode_tail env buf_len s =
     (if buf_len > length QURL_SMTP_BOUNDARY_STRING + 10
      then c_bind (append_fmt buf_len mail_tail []) (\<lambda>d. Inr (d, s\<lparr>status := SEND_NONE\<rparr>))
      else Inr ([], s))"

definition qurl_smtp_upload_data_cb :: "smtp_env \<Rightarrow> qurl_smtp_client read_cb" where
  "qurl_smtp_upload_data_cb env buf_len s =
     (if buf_len = 0 then Inr ([], s)
      else
        c_bind (in_turn SEND_HEAD qurl_smtp_encode_mail_header env buf_len ([], s)) (\<lambda>r1.
        c_bind (in_turn SEND_TEXT_HEAD qurl_smtp_encode_text_head env buf_len r1) (\<lambda>r2.
        c_bind (in_turn SEND_TEXT_BODY qurl_smtp_encode_text_body env buf_len r2) (\<lambda>r3.
        c_bind (in_turn SEND_ATTA_HEAD qurl_smtp_encode_atta_head env buf_len r3) (\<lambda>r4.
        c_bind (in_turn SEND_ATTA_BODY qurl_smtp_encode_atta_body env buf_len r4) (\<lambda>(out, s5).
        if status s5 = SEND_TAIL then in_turn SEND_TAIL encode_tail env buf_len (out, s5)
        else if status s5 = SEND_NONE then Inr ([], s5)
        else Inr (out, s5)))))))"

section \<open>Set-up, clean-up and the demos\<close>

text \<open>\<^verbatim>\<open>g_hello_utf8_hex\<close> has no terminator, so \<^verbatim>\<open>strlen\<close> goes on in what lies behind it, \<open>beyond\<close>.\<close>

definition g_hello_utf8_hex :: string where
  "g_hello_utf8_hex = [CHR 0xE4, CHR 0xBD, CHR 0xA0, CHR 0xE5, CHR 0xA5, CHR 0xBD]"

record mail_alloc =
  subject_alloc :: bool
  text_alloc :: bool
  name_alloc :: bool
  url_alloc :: bool
  core_ok :: bool

definition qurl_smtp_client_init :: "mail_alloc \<Rightarrow> string \<Rightarrow> qurl_smtp_client \<Rightarrow> (int \<times> qurl_smtp_client) c_result" where
  "qurl_smtp_client_init al beyond s =
     (let s0 = s\<lparr>status := SEND_HEAD, subject_charset := CHARSET_UTF8\<rparr> in
      if NUL \<notin> set beyond then Inl Out_of_bounds
      else
        let hello = c_str (g_hello_utf8_hex @ beyond) in
        if \<not> subject_alloc al then Inr (-1, s0\<lparr>subject := None\<rparr>)
        else
          let s1 = s0\<lparr>subject := Some (hello @ [NUL])\<rparr> in
          if \<not> text_alloc al then Inr (-1, s1\<lparr>body_text := None\<rparr>)
          else
            let s2 = s1\<lparr>body_text := Some (QURL_SMTP_DEMO_TEXT @ [NUL]), text_len := length QURL_SMTP_DEMO_TEXT\<rparr> in
            if \<not> name_alloc al then Inr (-1, s2\<lparr>file_name := None\<rparr>)
            else Inr (0, s2\<lparr>file_name := Some QURL_SMTP_DEMO_FILENAME\<rparr>))"

definition qurl_smtp_client_deinit :: "qurl_smtp_client \<Rightarrow> nat" where
  "qurl_smtp_client_deinit s =
     (if subject s \<noteq> None then 1 else 0) + (if body_text s \<noteq> None then 1 else 0) +
     (if file_name s \<noteq> None then 1 else 0)"

definition zero_client :: qurl_smtp_client where
  "zero_client = \<lparr>subject = None, subject_charset = CHARSET_ASCII, text_charset = CHARSET_ASCII, body_text = None,
     text_len = 0, text_used = 0, file_name = None, file_size = 0, file_used = 0, file_fd = 0,
     status = SEND_HEAD, ssl = SSL_TYPE_NO, file_calls = [], bufs_leaked = 0\<rparr>"

record mail_request =
  mr_url :: string
  mr_port :: int
  mr_usetls :: "int option"          \<comment> \<open>\<^verbatim>\<open>QURL_OPT_TLS_USETLS\<close> when it is set\<close>
  mr_tls_cfg :: bool
  mr_timeout_ms :: int
  mr_rcpt :: "string list"

text \<open>Result of a demo: the transfer with the bytes it sent (\<open>None\<close> when an exit was taken before it), the
  client at the end and the number of strings the clean-up frees.\<close>

type_synonym mail_result = "((mail_request \<times> string) option \<times> qurl_smtp_client \<times> nat) c_result option"

definition send_mail ::
  "mail_alloc \<Rightarrow> string \<Rightarrow> smtp_env \<Rightarrow> (nat \<Rightarrow> nat) \<Rightarrow> mail_request \<Rightarrow> qurl_smtp_client \<Rightarrow> mail_result" where
  "send_mail al beyond env sizes rq s =
     (if \<not> core_ok al \<or> \<not> url_alloc al then Some (Inr (None, s, qurl_smtp_client_deinit s))
      else case qurl_smtp_client_init al beyond s of
        Inl u \<Rightarrow> Some (Inl u)
      | Inr (ret, s1) \<Rightarrow>
          if ret \<noteq> 0 then Some (Inr (None, s1, qurl_smtp_client_deinit s1))
          else Option.bind (pull_all (qurl_smtp_upload_data_cb env) sizes 0 s1)
            (\<lambda>r. Some (c_bind r (\<lambda>(sent, s2). Inr (Some (rq, sent), s2, qurl_smtp_client_deinit s2)))))"

definition recipients :: "string list" where
  "recipients = [QURL_SMTP_DEMO_TO_PERSON, QURL_SMTP_DEMO_CC_PERSON, QURL_SMTP_DEMO_BCC_PERSON]"

definition smtp_no_tls_demo :: "mail_alloc \<Rightarrow> string \<Rightarrow> smtp_env \<Rightarrow> (nat \<Rightarrow> nat) \<Rightarrow> mail_result" where
  "smtp_no_tls_demo al beyond env sizes =
     send_mail al beyond env sizes
       \<lparr>mr_url = ''smtp://'' @ QURL_SMTP_DEMO_EMAILADDR, mr_port = QURL_SMTP_DEMO_NO_TLS_PORT,
        mr_usetls = Some 0, mr_tls_cfg = False, mr_timeout_ms = QURL_SMTP_DEMO_TIMEOUT * 1000,
        mr_rcpt = recipients\<rparr> zero_client"

text \<open>The two TLS ports are macros that the example uses and does not define.\<close>

definition tls_request :: "int \<Rightarrow> int \<Rightarrow> smtp_ssl_type \<Rightarrow> mail_request" where
  "tls_request tls_port starttls_port ty =
     \<lparr>mr_url = ''smtp'' @ (if ty = SSL_TYPE_SSL then ''s'' else []) @ ''://'' @ QURL_SMTP_DEMO_EMAILADDR,
      mr_port = (if ty = SSL_TYPE_STARTTLS then starttls_port
                 else if ty = SSL_TYPE_SSL then tls_port else QURL_SMTP_DEMO_NO_TLS_PORT),
      mr_usetls = (if ty = SSL_TYPE_STARTTLS then Some 1 else None), mr_tls_cfg = True,
      mr_timeout_ms = QURL_SMTP_DEMO_TIMEOUT * 1000, mr_rcpt = recipients\<rparr>"

definition smtp_tls_demo :: "int \<Rightarrow> int \<Rightarrow> mail_alloc \<Rightarrow> string \<Rightarrow> smtp_env \<Rightarrow> (nat \<Rightarrow> nat) \<Rightarrow> mail_result" where
  "smtp_tls_demo tls_port starttls_port al beyond env sizes =
     (let s = zero_client\<lparr>ssl := SSL_TYPE_SSL\<rparr> in
      send_mail al beyond env sizes (tls_request tls_port starttls_port (ssl s)) s)"

section \<open>The message\<close>

text \<open>The encoder as the sources describe it: four characters for three bytes, a line break after every 76
  characters, and a result as long as the destination has room for it.\<close>

definition base64_len :: "nat \<Rightarrow> bool \<Rightarrow> nat" where
  "base64_len n ln = (let e = 4 * ((n + 2) div 3) in if ln then e + 2 * (e div 76) else e)"

definition base64_ok :: "smtp_env \<Rightarrow> (string \<Rightarrow> bool \<Rightarrow> string) \<Rightarrow> bool" where
  [env_defs]: "base64_ok env enc \<longleftrightarrow>
     (\<forall>p cap ln. base64_len (length p) ln \<le> cap \<longrightarrow> b64 env p cap ln = Some (enc p ln)) \<and>
     (\<forall>p ln. length (enc p ln) \<le> base64_len (length p) ln \<and> NUL \<notin> set (enc p ln) \<and> (p \<noteq> [] \<longrightarrow> enc p ln \<noteq> []))"

text \<open>A text in base64, cut into pieces of which all but the last have a multiple of three bytes: the
  encodings of such pieces follow each other without padding in between.\<close>

definition pieces :: "string list \<Rightarrow> string \<Rightarrow> bool" where
  "pieces ps t \<longleftrightarrow> concat ps = t \<and> (\<forall>p \<in> set ps. p \<noteq> []) \<and> (\<forall>p \<in> set (butlast ps). 3 dvd length p)"

definition in_base64 :: "(string \<Rightarrow> bool \<Rightarrow> string) \<Rightarrow> string \<Rightarrow> string \<Rightarrow> bool" where
  "in_base64 enc t out \<longleftrightarrow> (\<exists>ps. pieces ps t \<and> out = concat (map (\<lambda>p. enc p True) ps))"

text \<open>What is still to be sent in each state: the message as a whole in the initial one.\<close>

definition subject_text :: "(string \<Rightarrow> bool \<Rightarrow> string) \<Rightarrow> qurl_smtp_client \<Rightarrow> string" where
  "subject_text enc s =
     (case subject s of
        None \<Rightarrow> ''Subject: '' @ CRLF
      | Some subj \<Rightarrow>
          if subject_charset s = CHARSET_ASCII then ''Subject: '' @ c_str subj @ CRLF
          else ''Subject: =?'' @ qurl_smtp_charset (subject_charset s) @ ''?B?'' @ enc (c_str subj) False @ ''?='' @ CRLF)"

definition header_text :: "(string \<Rightarrow> bool \<Rightarrow> string) \<Rightarrow> qurl_smtp_client \<Rightarrow> string" where
  "header_text enc s = concat mail_header_lines @ subject_text enc s @ mixed_line"

definition file_part :: "smtp_env \<Rightarrow> (string \<Rightarrow> bool \<Rightarrow> string) \<Rightarrow> nat \<Rightarrow> string \<Rightarrow> bool" where
  "file_part env enc used out \<longleftrightarrow> (\<exists>x. in_base64 enc (drop used (atta_content env)) x \<and> out = x @ mail_tail)"

definition atta_part :: "smtp_env \<Rightarrow> (string \<Rightarrow> bool \<Rightarrow> string) \<Rightarrow> string option \<Rightarrow> string \<Rightarrow> bool" where
  "atta_part env enc name out \<longleftrightarrow>
     (case name of
        None \<Rightarrow> out = mail_tail
      | Some nm \<Rightarrow> \<exists>y. out = concat (atta_head_lines (base_name nm)) @ y \<and> file_part env enc 0 y)"

definition text_part :: "smtp_env \<Rightarrow> (string \<Rightarrow> bool \<Rightarrow> string) \<Rightarrow> qurl_smtp_client \<Rightarrow> string \<Rightarrow> bool" where
  "text_part env enc s out \<longleftrightarrow>
     (\<exists>b x y. body_text s = Some b \<and> in_base64 enc (drop (text_used s) (take (text_len s) b)) x \<and> out = x @ y \<and>
       atta_part env enc (file_name s) y)"

fun mime :: "smtp_env \<Rightarrow> (string \<Rightarrow> bool \<Rightarrow> string) \<Rightarrow> qurl_smtp_client \<Rightarrow> send_status \<Rightarrow> string \<Rightarrow> bool" where
  "mime env enc s SEND_HEAD out \<longleftrightarrow>
     (\<exists>y. out = header_text enc s @ concat (text_head_lines (text_charset s)) @ y \<and> text_part env enc s y)"
| "mime env enc s SEND_TEXT_HEAD out \<longleftrightarrow>
     (\<exists>y. out = concat (text_head_lines (text_charset s)) @ y \<and> text_part env enc s y)"
| "mime env enc s SEND_TEXT_BODY out \<longleftrightarrow> text_part env enc s out"
| "mime env enc s SEND_ATTA_HEAD out \<longleftrightarrow> atta_part env enc (file_name s) out"
| "mime env enc s SEND_ATTA_BODY out \<longleftrightarrow> file_part env enc (file_used s) out"
| "mime env enc s SEND_TAIL out \<longleftrightarrow> out = mail_tail"
| "mime env enc s SEND_NONE out \<longleftrightarrow> out = []"

fun rank :: "send_status \<Rightarrow> nat" where
  "rank SEND_HEAD = 0" | "rank SEND_TEXT_HEAD = 1" | "rank SEND_TEXT_BODY = 2" | "rank SEND_ATTA_HEAD = 3"
| "rank SEND_ATTA_BODY = 4" | "rank SEND_TAIL = 5" | "rank SEND_NONE = 6"

text \<open>How much is left, for termination.\<close>

definition mail_left :: "smtp_env \<Rightarrow> qurl_smtp_client \<Rightarrow> nat" where
  "mail_left env s = (6 - rank (status s)) + (text_len s - text_used s) + (length (atta_content env) - file_used s)"

text \<open>The file can be read and the memory for it is there.\<close>

definition atta_ok :: "smtp_env \<Rightarrow> bool" where
  [env_defs]: "atta_ok env \<longleftrightarrow> 0 \<le> atta_fd env \<and> atta_stat env = Some (length (atta_content env)) \<and>
     length (atta_content env) < 2 ^ 31 \<and> (\<forall>pos. atta_alloc env pos) \<and>
     (\<forall>pos n. pos + n \<le> length (atta_content env) \<longrightarrow> 0 < n \<longrightarrow> 0 < atta_io env pos n \<and> atta_io env pos n \<le> int n)"

text \<open>The well-formed clients: the text is in its block and its count within it, the header of the message
  and of the attachment fit, the position in the file belongs to the state, the file was opened before its
  content is sent and not closed.\<close>

definition mail_wf :: "smtp_env \<Rightarrow> (string \<Rightarrow> bool \<Rightarrow> string) \<Rightarrow> qurl_smtp_client \<Rightarrow> bool" where
  "mail_wf env enc s \<longleftrightarrow> base64_ok env enc \<and> atta_ok env \<and>
     (\<exists>b. body_text s = Some b \<and> text_len s \<le> length b) \<and> text_used s \<le> text_len s \<and> text_len s < 2 ^ 31 \<and>
     (\<forall>subj. subject s = Some subj \<longrightarrow> length (c_str subj) \<le> 90) \<and>
     (\<forall>nm. file_name s = Some nm \<longrightarrow> length (base_name nm) \<le> 160) \<and>
     (rank (status s) < 4 \<longrightarrow> file_used s = 0) \<and> (\<forall>f. Mail_close f \<notin> set (file_calls s)) \<and>
     (\<forall>nm. 4 \<le> rank (status s) \<and> file_name s = Some nm \<longrightarrow> Mail_open nm \<in> set (file_calls s)) \<and>
     (status s = SEND_ATTA_BODY \<longrightarrow> file_size s = length (atta_content env) \<and> file_used s \<le> file_size s)"

section \<open>Lemmas\<close>

lemma append_all_fits:
  "length out + length (concat ts) < buf_len \<Longrightarrow> append_all buf_len ts out = Inr (out @ concat ts)"
  by (induction ts arbitrary: out) (auto simp: append_fmt_def Let_def)

lemma pieces_Nil: "pieces [] []"
  by (simp add: pieces_def)

lemma pieces_Cons:
  assumes "p \<noteq> []" and "t \<noteq> [] \<longrightarrow> 3 dvd length p" and "pieces ps t"
  shows "pieces (p # ps) (p @ t)"
  using assms by (cases ps) (auto simp: pieces_def)

lemma in_base64_Nil: "in_base64 enc [] []"
  using pieces_Nil by (force simp: in_base64_def)

lemma in_base64_Cons:
  assumes "p \<noteq> []" and "t \<noteq> [] \<longrightarrow> 3 dvd length p" and "in_base64 enc t x"
  shows "in_base64 enc (p @ t) (enc p True @ x)"
proof -
  obtain ps where "pieces ps t" "x = concat (map (\<lambda>p. enc p True) ps)" using assms(3) by (auto simp: in_base64_def)
  with pieces_Cons [OF assms(1,2)] show ?thesis
    unfolding in_base64_def by (intro exI [of _ "p # ps"]) simp
qed

lemma can_read_len_multiple: "3 dvd can_read_len n"
proof -
  have "3 dvd (m - m mod 3)" for m :: nat by (rule dvd_minus_mod)
  then show ?thesis by (simp add: can_read_len_def Let_def)
qed

lemma can_read_len_exact:
  assumes "n < 2 ^ 30"
  shows "can_read_len n = (let c = (n - (n div 76) * 2) * 3 div 4 in c - c mod 3)"
proof -
  have "(n - (n div 76) * 2) * 3 < 2 ^ 32" using assms by simp
  then show ?thesis by (simp add: can_read_len_def Let_def)
qed

lemma can_read_len_pos:
  assumes "4 \<le> n" and "n < 2 ^ 30"
  shows "3 \<le> can_read_len n"
proof -
  define f where "f = n - (n div 76) * 2"
  define c where "c = f * 3 div 4"
  have "n div 76 * 76 \<le> n" by (rule div_times_less_eq_dividend)
  then have "4 \<le> f" using assms(1) unfolding f_def by linarith
  then have "3 \<le> c" unfolding c_def by linarith
  then have "3 \<le> c - c mod 3" by presburger
  then show ?thesis using assms(2) by (simp add: can_read_len_exact Let_def c_def f_def)
qed

text \<open>The estimate is safe: the encoding of what is read fits the buffer, line breaks included.\<close>

lemma encoding_fits:
  assumes "k \<le> can_read_len n" and "n < 2 ^ 30"
  shows "base64_len k True \<le> n"
proof -
  define f where "f = n - (n div 76) * 2"
  define c where "c = f * 3 div 4"
  have k: "k \<le> c - c mod 3" using assms by (simp add: can_read_len_exact Let_def c_def f_def)
  then have "k + 2 \<le> 3 * (c div 3) + 2" by (simp add: minus_mod_eq_mult_div)
  then have "(k + 2) div 3 \<le> (3 * (c div 3) + 2) div 3" by (rule div_le_mono)
  then have "(k + 2) div 3 \<le> c div 3" by simp
  then have "4 * ((k + 2) div 3) \<le> f" unfolding c_def by linarith
  moreover have "f + 2 * (n div 76) = n"
    using div_times_less_eq_dividend [of n 76] unfolding f_def by linarith
  moreover have "4 * ((k + 2) div 3) div 76 \<le> n div 76"
    by (rule div_le_mono) (use calculation in linarith)
  ultimately have "4 * ((k + 2) div 3) + 2 * (4 * ((k + 2) div 3) div 76) \<le> n" by linarith
  then show ?thesis by (simp add: base64_len_def Let_def)
qed

lemma left_int_exact: "used \<le> tot \<Longrightarrow> tot < 2 ^ 31 \<Longrightarrow> left_int tot used = int (tot - used)"
  by (simp add: left_int_def mod_pos_pos_trivial)

text \<open>The constant lines.\<close>

lemma header_length: "length (concat mail_header_lines) = 106"
  by (simp add: mail_header_lines_def smtp_consts)

lemma mixed_length: "length mixed_line = 83"
  by (simp add: mixed_line_def smtp_consts)

lemma tail_length: "length mail_tail = 43"
  by (simp add: mail_tail_def smtp_consts)

lemma text_head_length: "length (concat (text_head_lines cs)) \<le> 124"
  by (cases cs) (simp_all add: text_head_lines_def smtp_consts)

lemma atta_head_length: "length (concat (atta_head_lines nm)) = 178 + 2 * length nm"
  by (simp add: atta_head_lines_def smtp_consts)

lemma base64_okD:
  assumes "base64_ok env enc"
  shows "base64_len (length p) ln \<le> cap \<Longrightarrow> b64 env p cap ln = Some (enc p ln)"
    and "length (enc p ln) \<le> base64_len (length p) ln" and "NUL \<notin> set (enc p ln)" and "p \<noteq> [] \<Longrightarrow> enc p ln \<noteq> []"
  using assms by (simp_all add: base64_ok_def)

lemma subject_length:
  assumes "base64_ok env enc" and "\<forall>subj. subject s = Some subj \<longrightarrow> length (c_str subj) \<le> 90"
  shows "length (subject_text enc s) \<le> 144"
proof (cases "subject s")
  case None
  then show ?thesis by (simp add: subject_text_def CRLF_def)
next
  case (Some subj)
  then have short: "length (c_str subj) \<le> 90" using assms(2) by simp
  then have "length (enc (c_str subj) False) \<le> 4 * ((length (c_str subj) + 2) div 3)"
    using base64_okD(2) [OF assms(1), of "c_str subj" False] by (simp add: base64_len_def Let_def)
  also have "\<dots> \<le> 120" using div_le_mono [of "length (c_str subj) + 2" 92 3] short by simp
  finally show ?thesis using Some short
    by (cases "subject_charset s") (simp_all add: subject_text_def CRLF_def)
qed

lemma subject_line_text:
  assumes "base64_ok env enc" and "\<forall>subj. subject s = Some subj \<longrightarrow> length (c_str subj) \<le> 90"
  shows "subject_line env s = Inr (Some (subject_text enc s))"
proof (cases "subject s")
  case None
  then show ?thesis by (simp add: subject_line_def subject_text_def)
next
  case (Some subj)
  let ?t = "enc (c_str subj) False"
  have "base64_len (length (c_str subj)) False \<le> 120"
    using div_le_mono [of "length (c_str subj) + 2" 92 3] assms(2) Some by (simp add: base64_len_def Let_def)
  moreover from this have "length ?t \<le> 120" "b64 env (c_str subj) 128 False = Some ?t" "NUL \<notin> set ?t"
    using base64_okD [OF assms(1), where p = "c_str subj" and ln = False] order_trans by auto
  ultimately show ?thesis using Some by (simp add: subject_line_def subject_text_def)
qed

text \<open>What a part of the callback may do: it keeps the client well-formed, fits its room, comes closer to the
  end, and what it writes is the beginning of the message that was still to come. With a whole buffer
  it writes something or passes on.\<close>

definition advances ::
  "smtp_env \<Rightarrow> (string \<Rightarrow> bool \<Rightarrow> string) \<Rightarrow> nat \<Rightarrow> qurl_smtp_client \<Rightarrow> string \<Rightarrow> qurl_smtp_client \<Rightarrow> bool" where
  "advances env enc n s d s' \<longleftrightarrow> mail_wf env enc s' \<and> length d \<le> n \<and> mail_left env s' \<le> mail_left env s \<and>
     (d \<noteq> [] \<longrightarrow> mail_left env s' < mail_left env s) \<and>
     (\<forall>out. mime env enc s' (status s') out \<longrightarrow> mime env enc s (status s) (d @ out)) \<and>
     (status s' = SEND_NONE \<longrightarrow> status s = SEND_TAIL \<or> status s = SEND_NONE) \<and>
     rank (status s) \<le> rank (status s') \<and> (512 \<le> n \<and> d = [] \<longrightarrow> rank (status s) < rank (status s'))"

lemma header_advances:
  assumes "mail_wf env enc s" and "status s = SEND_HEAD" and "512 \<le> n"
  shows "\<exists>d s'. qurl_smtp_encode_mail_header env n s = Inr (d, s') \<and> advances env enc n s d s'"
proof -
  have len: "length (subject_text enc s) \<le> 144" and subj: "subject_line env s = Inr (Some (subject_text enc s))"
    using assms(1) subject_length [of env enc s] subject_line_text [of env enc s] by (simp_all add: mail_wf_def)
  have "append_all n mail_header_lines [] = Inr (concat mail_header_lines)"
    using append_all_fits [of "[]" mail_header_lines n] assms(3) by (simp add: header_length)
  moreover have "append_all n [subject_text enc s, mixed_line] (concat mail_header_lines) = Inr (header_text enc s)"
    using append_all_fits [of "concat mail_header_lines" "[subject_text enc s, mixed_line]" n] len assms(3)
    by (simp add: header_length mixed_length header_text_def)
  moreover have "length (header_text enc s) \<le> n" "header_text enc s \<noteq> []"
    using len assms(3) header_length mixed_length by (auto simp: header_text_def mixed_line_def)
  ultimately show ?thesis
    using assms subj
    by (auto simp: qurl_smtp_encode_mail_header_def advances_def mail_wf_def mail_left_def text_part_def)
qed

lemma text_head_advances:
  assumes "mail_wf env enc s" and "status s = SEND_TEXT_HEAD"
  shows "\<exists>d s'. qurl_smtp_encode_text_head env n s = Inr (d, s') \<and> advances env enc n s d s'"
proof (cases "n < 135")
  case True
  with assms show ?thesis
    by (auto simp: qurl_smtp_encode_text_head_def advances_def QURL_SMTP_BOUNDARY_STRING_def)
next
  case False
  let ?d = "concat (text_head_lines (text_charset s))"
  have "length ?d < n" "?d \<noteq> []"
    using text_head_length [of "text_charset s"] False by (auto simp: text_head_lines_def)
  moreover from this have "append_all n (text_head_lines (text_charset s)) [] = Inr ?d"
    using append_all_fits [of "[]" "text_head_lines (text_charset s)" n] by simp
  ultimately show ?thesis
    using assms False
    by (auto simp: qurl_smtp_encode_text_head_def advances_def mail_wf_def mail_left_def text_part_def
        QURL_SMTP_BOUNDARY_STRING_def)
qed

text \<open>One piece of base64: as much of the text as fits the buffer, all of it or a multiple of three bytes.\<close>

lemma piece_fits:
  assumes "base64_ok env enc" and "4 \<le> n" and "n < 2 ^ 30" and "k = min (can_read_len n) (length t)" and "t \<noteq> []"
  shows "b64 env (take k t) n True = Some (enc (take k t) True)" and "length (enc (take k t) True) \<le> n"
    and "enc (take k t) True \<noteq> []" and "0 < k" and "drop k t \<noteq> [] \<longrightarrow> 3 dvd length (take k t)"
proof -
  have fits: "base64_len (length (take k t)) True \<le> n"
    using assms(3,4) by (intro encoding_fits) auto
  show "0 < k" using can_read_len_pos [OF assms(2,3)] assms(4,5) by simp
  with assms(5) have "take k t \<noteq> []" by simp
  with fits show "b64 env (take k t) n True = Some (enc (take k t) True)" "length (enc (take k t) True) \<le> n"
    "enc (take k t) True \<noteq> []"
    using base64_okD [OF assms(1)] order_trans by blast+
  show "drop k t \<noteq> [] \<longrightarrow> 3 dvd length (take k t)"
    using can_read_len_multiple [of n] assms(4) by (auto simp: min_def)
qed

lemma text_body_advances:
  assumes "mail_wf env enc s" and "status s = SEND_TEXT_BODY" and "n < 2 ^ 30"
  shows "\<exists>d s'. qurl_smtp_encode_text_body env n s = Inr (d, s') \<and> advances env enc n s d s'"
proof -
  obtain b where b: "body_text s = Some b" "text_len s \<le> length b" using assms(1) by (auto simp: mail_wf_def)
  define t where "t = drop (text_used s) (take (text_len s) b)"
  have used: "text_used s \<le> text_len s" "text_len s < 2 ^ 31" using assms(1) by (simp_all add: mail_wf_def)
  have left: "left_int (text_len s) (text_used s) = int (length t)"
    using b used by (simp add: left_int_exact t_def)
  consider "t = []" | "t \<noteq> []" "n < 4" | "t \<noteq> []" "4 \<le> n" by fastforce
  then show ?thesis
  proof cases
    case 1
    have pass: "advances env enc n s [] (s\<lparr>status := SEND_ATTA_HEAD\<rparr>)"
      using 1 assms(1,2) b in_base64_Nil
      by (auto simp: advances_def mail_wf_def mail_left_def text_part_def t_def)
    show ?thesis
    proof (cases "text_len s = 0 \<or> 4 \<le> n")
      case True
      with pass 1 left show ?thesis
        by (auto simp: qurl_smtp_encode_text_body_def)
    next
      case False
      with assms show ?thesis by (auto simp: qurl_smtp_encode_text_body_def advances_def)
    qed
  next
    case 2
    with assms show ?thesis by (auto simp: qurl_smtp_encode_text_body_def advances_def t_def)
  next
    case 3
    define k where "k = min (can_read_len n) (length t)"
    have base: "base64_ok env enc" using assms(1) by (simp add: mail_wf_def)
    note piece = piece_fits [OF base 3(2) assms(3) k_def 3(1)]
    have k: "min (int (can_read_len n)) (int (length t)) = int k" "text_used s + k \<le> text_len s"
      "text_len s \<noteq> 0"
      using b used 3(1) by (auto simp: k_def t_def)
    have cut: "take k (drop (text_used s) b) = take k t" using k(2) by (simp add: t_def drop_take min_absorb1)
    define s' where "s' = (if text_len s \<le> text_used s + k then s\<lparr>text_used := text_used s + k, status := SEND_ATTA_HEAD\<rparr>
      else s\<lparr>text_used := text_used s + k\<rparr>)"
    have run: "qurl_smtp_encode_text_body env n s = Inr (enc (take k t) True, s')"
      using b 3 k piece(1,4) cut left
      by (simp add: qurl_smtp_encode_text_body_def Let_def s'_def)
    have rest: "text_part env enc s (enc (take k t) True @ out)"
      if "mime env enc s' (status s') out" for out
    proof -
      have "\<exists>x y. in_base64 enc (drop k t) x \<and> out = x @ y \<and> atta_part env enc (file_name s) y"
      proof (cases "text_len s \<le> text_used s + k")
        case True
        then have "drop k t = []" by (simp add: t_def)
        with True that in_base64_Nil show ?thesis by (fastforce simp: s'_def)
      next
        case False
        then have "status s' = SEND_TEXT_BODY" "text_part env enc s' out" using that assms(2) by (simp_all add: s'_def)
        with False b show ?thesis by (auto simp: s'_def text_part_def t_def add.commute)
      qed
      then obtain x y where xy: "in_base64 enc (drop k t) x" "out = x @ y" "atta_part env enc (file_name s) y"
        by blast
      have "in_base64 enc (take k t @ drop k t) (enc (take k t) True @ x)"
        using piece(4,5) 3(1) xy(1) by (intro in_base64_Cons) auto
      then have "in_base64 enc t (enc (take k t) True @ x)" by simp
      with b xy show ?thesis
        unfolding text_part_def t_def [symmetric]
        by (intro exI [of _ b] exI [of _ "enc (take k t) True @ x"] exI [of _ y]) (simp add: t_def)
    qed
    have "mail_wf env enc s'" using assms(1,2) k(2) by (fastforce simp: s'_def mail_wf_def)
    with run rest piece(2,3,4) assms(2) k(2) show ?thesis
      by (auto simp: advances_def mail_left_def s'_def)
  qed
qed

lemma atta_head_advances:
  assumes "mail_wf env enc s" and "status s = SEND_ATTA_HEAD"
  shows "\<exists>d s'. qurl_smtp_encode_atta_head env n s = Inr (d, s') \<and> advances env enc n s d s'"
proof (cases "file_name s")
  case None
  with assms show ?thesis
    by (auto simp: qurl_smtp_encode_atta_head_def advances_def mail_wf_def mail_left_def atta_part_def)
next
  case (Some nm)
  show ?thesis
  proof (cases "n < 512")
    case True
    with Some assms show ?thesis by (auto simp: qurl_smtp_encode_atta_head_def advances_def)
  next
    case False
    let ?d = "concat (atta_head_lines (base_name nm))"
    have "length (base_name nm) \<le> 160" using assms(1) Some by (simp add: mail_wf_def)
    then have "length ?d < n" "?d \<noteq> []" using False by (auto simp: atta_head_length) (simp add: atta_head_lines_def CRLF_def)
    moreover from this have "append_all n (atta_head_lines (base_name nm)) [] = Inr ?d"
      using append_all_fits [of "[]" "atta_head_lines (base_name nm)" n] by simp
    moreover have "atta_ok env" using assms(1) by (simp add: mail_wf_def)
    ultimately show ?thesis
      using assms False Some
      by (auto simp: qurl_smtp_encode_atta_head_def advances_def mail_wf_def mail_left_def atta_part_def atta_ok_def Let_def)
  qed
qed

lemma atta_body_advances:
  assumes "mail_wf env enc s" and "status s = SEND_ATTA_BODY" and "n < 2 ^ 30"
  shows "\<exists>d s'. qurl_smtp_encode_atta_body env n s = Inr (d, s') \<and> advances env enc n s d s'"
proof -
  let ?pos = "file_used s"
  define t where "t = drop ?pos (atta_content env)"
  have used: "?pos \<le> file_size s" "file_size s = length (atta_content env)" "file_size s < 2 ^ 31"
    and base: "base64_ok env enc" and atta: "atta_ok env"
    using assms(1,2) by (auto simp: mail_wf_def atta_ok_def)
  have left: "left_int (file_size s) ?pos = int (length t)"
    using used by (simp add: left_int_exact t_def)
  consider "n < 4" | "t = []" "4 \<le> n" | "t \<noteq> []" "4 \<le> n" by fastforce
  then show ?thesis
  proof cases
    case 1
    with assms show ?thesis by (auto simp: qurl_smtp_encode_atta_body_def advances_def)
  next
    case 2
    with assms left in_base64_Nil show ?thesis
      by (fastforce simp: qurl_smtp_encode_atta_body_def advances_def mail_wf_def mail_left_def file_part_def t_def)
  next
    case 3
    define k where "k = min (can_read_len n) (length t)"
    note piece = piece_fits [OF base 3(2) assms(3) k_def 3(1)]
    have k: "min (int (can_read_len n)) (int (length t)) = int k" "?pos + k \<le> file_size s"
      using used 3(1) by (auto simp: k_def t_def)
    have "0 < atta_io env (?pos + off) (k - off) \<and> atta_io env (?pos + off) (k - off) \<le> int (k - off)" if "off < k" for off
    proof -
      have "(?pos + off) + (k - off) \<le> length (atta_content env)" "0 < k - off" using that k(2) used(2) by simp_all
      then show ?thesis using atta unfolding atta_ok_def by blast
    qed
    then have read: "qurl_smtp_file_read (\<lambda>off. atta_io env (?pos + off) (k - off)) k 0 = (0, k)"
      by (intro smtp_read.loop_completes) (simp_all add: io_within_def)
    define s' where "s' = s\<lparr>bufs_leaked := Suc (bufs_leaked s), file_calls := file_calls s @ [Mail_read (file_fd s) k],
      file_used := ?pos + k, status := (if file_size s \<le> ?pos + k then SEND_TAIL else SEND_ATTA_BODY)\<rparr>"
    have run: "qurl_smtp_encode_atta_body env n s = Inr (enc (take k t) True, s')"
      using 3 k piece(1,4) left read atta assms(2)
      by (simp add: qurl_smtp_encode_atta_body_def Let_def s'_def t_def atta_ok_def)
    have rest: "file_part env enc ?pos (enc (take k t) True @ out)" if "mime env enc s' (status s') out" for out
    proof -
      have "\<exists>x. in_base64 enc (drop k t) x \<and> out = x @ mail_tail"
      proof (cases "file_size s \<le> ?pos + k")
        case True
        then have "drop k t = []" using used by (simp add: t_def)
        with True that in_base64_Nil show ?thesis by (fastforce simp: s'_def)
      next
        case False
        with that show ?thesis by (auto simp: s'_def file_part_def t_def add.commute)
      qed
      then obtain x where x: "in_base64 enc (drop k t) x" "out = x @ mail_tail" by blast
      have "in_base64 enc (take k t @ drop k t) (enc (take k t) True @ x)"
        using piece(4,5) 3(1) x(1) by (intro in_base64_Cons) auto
      then have "in_base64 enc t (enc (take k t) True @ x)" by simp
      with x(2) show ?thesis
        unfolding file_part_def t_def [symmetric] by (intro exI [of _ "enc (take k t) True @ x"]) simp
    qed
    have "mail_wf env enc s'" using assms(1,2) k(2) used by (auto simp: s'_def mail_wf_def)
    with run rest piece(2,3,4) assms(2) k(2) used show ?thesis
      by (auto simp: advances_def mail_left_def s'_def)
  qed
qed

lemma tail_advances:
  assumes "mail_wf env enc s" and "status s = SEND_TAIL"
  shows "\<exists>d s'. encode_tail env n s = Inr (d, s') \<and> advances env enc n s d s'"
proof (cases "n > 45")
  case True
  have "mail_tail \<noteq> []" by (simp add: mail_tail_def CRLF_def)
  with True assms show ?thesis
    by (auto simp: encode_tail_def append_fmt_def tail_length advances_def mail_wf_def mail_left_def
        QURL_SMTP_BOUNDARY_STRING_def)
next
  case False
  with assms show ?thesis
    by (auto simp: encode_tail_def advances_def QURL_SMTP_BOUNDARY_STRING_def)
qed

section \<open>The callback as an upload\<close>

text \<open>After the first \<open>k\<close> encoders have had their turn.\<close>

definition so_far ::
  "smtp_env \<Rightarrow> (string \<Rightarrow> bool \<Rightarrow> string) \<Rightarrow> nat \<Rightarrow> qurl_smtp_client \<Rightarrow> nat \<Rightarrow> string \<times> qurl_smtp_client \<Rightarrow> bool" where
  "so_far env enc n s0 k = (\<lambda>(out, s). mail_wf env enc s \<and> length out \<le> n \<and> mail_left env s \<le> mail_left env s0 \<and>
     (out \<noteq> [] \<longrightarrow> mail_left env s < mail_left env s0) \<and>
     (\<forall>y. mime env enc s (status s) y \<longrightarrow> mime env enc s0 (status s0) (out @ y)) \<and>
     (k \<le> 5 \<longrightarrow> status s = SEND_NONE \<longrightarrow> out = []) \<and> (out = [] \<longrightarrow> k \<le> rank (status s)))"

lemma in_turn_so_far:
  assumes "so_far env enc n s0 k (out, s)" and "512 \<le> n" and "rank st = k" and "st \<noteq> SEND_NONE"
    and "status s = st \<Longrightarrow> \<exists>d s'. e env (n - length out) s = Inr (d, s') \<and> advances env enc (n - length out) s d s'"
  shows "\<exists>r. in_turn st e env n (out, s) = Inr r \<and> so_far env enc n s0 (Suc k) r"
proof (cases "status s = st")
  case True
  with assms(5) obtain d s' where d: "e env (n - length out) s = Inr (d, s')" "advances env enc (n - length out) s d s'"
    by blast
  have "so_far env enc n s0 (Suc k) (out @ d, s')"
    using d(2) assms(1-4) True by (cases st) (auto simp: so_far_def advances_def)
  with d(1) True show ?thesis by (simp add: in_turn_def)
next
  case False
  then have "rank (status s) \<noteq> k" using assms(3) by (cases st; cases "status s") auto
  with assms(1) False have "so_far env enc n s0 (Suc k) (out, s)" by (auto simp: so_far_def)
  with False show ?thesis by (simp add: in_turn_def)
qed

lemma callback_so_far:
  assumes "mail_wf env enc s" and "512 \<le> n" and "n < 2 ^ 30"
  shows "\<exists>out s'. qurl_smtp_upload_data_cb env n s = Inr (out, s') \<and> so_far env enc n s 6 (out, s')"
proof -
  have "so_far env enc n s 0 ([], s)" using assms(1) by (simp add: so_far_def)
  then obtain out1 s1 where 1: "in_turn SEND_HEAD qurl_smtp_encode_mail_header env n ([], s) = Inr (out1, s1)"
      "so_far env enc n s 1 (out1, s1)"
    using in_turn_so_far [of env enc n s 0 "[]" s SEND_HEAD qurl_smtp_encode_mail_header] assms
      header_advances [of env enc s n] by fastforce
  then have w1: "mail_wf env enc s1" by (simp add: so_far_def)
  from 1(2) obtain out2 s2 where 2: "in_turn SEND_TEXT_HEAD qurl_smtp_encode_text_head env n (out1, s1) = Inr (out2, s2)"
      "so_far env enc n s 2 (out2, s2)"
    using in_turn_so_far [of env enc n s 1 out1 s1 SEND_TEXT_HEAD qurl_smtp_encode_text_head] assms(2)
      text_head_advances [OF w1] by (fastforce simp: numeral_2_eq_2)
  then have w2: "mail_wf env enc s2" by (simp add: so_far_def)
  have room: "n - length out < 2 ^ 30" for out :: string using assms(3) by simp
  from 2(2) obtain out3 s3 where 3: "in_turn SEND_TEXT_BODY qurl_smtp_encode_text_body env n (out2, s2) = Inr (out3, s3)"
      "so_far env enc n s 3 (out3, s3)"
    using in_turn_so_far [of env enc n s 2 out2 s2 SEND_TEXT_BODY qurl_smtp_encode_text_body] assms(2)
      text_body_advances [OF w2 _ room] by (fastforce simp: eval_nat_numeral)
  then have w3: "mail_wf env enc s3" by (simp add: so_far_def)
  from 3(2) obtain out4 s4 where 4: "in_turn SEND_ATTA_HEAD qurl_smtp_encode_atta_head env n (out3, s3) = Inr (out4, s4)"
      "so_far env enc n s 4 (out4, s4)"
    using in_turn_so_far [of env enc n s 3 out3 s3 SEND_ATTA_HEAD qurl_smtp_encode_atta_head] assms(2)
      atta_head_advances [OF w3] by (fastforce simp: eval_nat_numeral)
  then have w4: "mail_wf env enc s4" by (simp add: so_far_def)
  from 4(2) obtain out5 s5 where 5: "in_turn SEND_ATTA_BODY qurl_smtp_encode_atta_body env n (out4, s4) = Inr (out5, s5)"
      "so_far env enc n s 5 (out5, s5)"
    using in_turn_so_far [of env enc n s 4 out4 s4 SEND_ATTA_BODY qurl_smtp_encode_atta_body] assms(2)
      atta_body_advances [OF w4 _ room] by (fastforce simp: eval_nat_numeral)
  then have w5: "mail_wf env enc s5" by (simp add: so_far_def)
  from 5(2) obtain out6 s6 where 6: "in_turn SEND_TAIL encode_tail env n (out5, s5) = Inr (out6, s6)"
      "so_far env enc n s 6 (out6, s6)"
    using in_turn_so_far [of env enc n s 5 out5 s5 SEND_TAIL encode_tail] assms(2)
      tail_advances [OF w5] by (fastforce simp: eval_nat_numeral)
  have "status s5 \<noteq> SEND_TAIL \<Longrightarrow> out6 = out5 \<and> s6 = s5" using 6(1) by (auto simp: in_turn_def)
  moreover have "status s5 = SEND_NONE \<Longrightarrow> out5 = []" using 5(2) by (simp add: so_far_def)
  ultimately have "qurl_smtp_upload_data_cb env n s = Inr (out6, s6)"
    using assms(2) 1(1) 2(1) 3(1) 4(1) 5(1) 6(1) by (auto simp: qurl_smtp_upload_data_cb_def)
  with 6(2) show ?thesis by blast
qed

text \<open>The callback refines the message: with buffers of at least 512 bytes it produces the MIME message piece by
  piece and ends.\<close>

interpretation mail: upload_spec "qurl_smtp_upload_data_cb env" "mail_wf env enc" "mail_left env"
  "\<lambda>n. 512 \<le> n \<and> n < 2 ^ 30" "\<lambda>s out. mime env enc s (status s) out" for env enc
proof
  fix s n
  assume "mail_wf env enc s" "512 \<le> n \<and> n < (2 ^ 30 :: nat)"
  then show "\<exists>d s'. qurl_smtp_upload_data_cb env n s = Inr (d, s') \<and> mail_wf env enc s' \<and> length d \<le> n \<and>
      (d \<noteq> [] \<longrightarrow> mail_left env s' < mail_left env s)"
    using callback_so_far [of env enc s n] by (auto simp: so_far_def)
next
  fix s n d s' out
  assume "mail_wf env enc s" "512 \<le> n \<and> n < (2 ^ 30 :: nat)" "qurl_smtp_upload_data_cb env n s = Inr (d, s')"
    "mime env enc s' (status s') out"
  then show "mime env enc s (status s) (d @ out)"
    using callback_so_far [of env enc s n] by (auto simp: so_far_def)
next
  fix s n s'
  assume "mail_wf env enc s" "512 \<le> n \<and> n < (2 ^ 30 :: nat)" "qurl_smtp_upload_data_cb env n s = Inr ([], s')"
  then have "6 \<le> rank (status s')" "\<And>y. mime env enc s' (status s') y \<Longrightarrow> mime env enc s (status s) y"
    using callback_so_far [of env enc s n] by (auto simp: so_far_def)
  then show "mime env enc s (status s) []" by (cases "status s'") auto
qed

section \<open>What the callback does not touch\<close>

definition fixed_fields :: "qurl_smtp_client \<Rightarrow> string option \<times> string option \<times> string option" where
  "fixed_fields s = (subject s, body_text s, file_name s)"

lemmas encoder_defs = qurl_smtp_encode_mail_header_def qurl_smtp_encode_text_head_def
  qurl_smtp_encode_text_body_def qurl_smtp_encode_atta_head_def qurl_smtp_encode_atta_body_def encode_tail_def

lemma encoders_keep_fields:
  "qurl_smtp_encode_mail_header env n s = Inr (d, s') \<Longrightarrow> fixed_fields s' = fixed_fields s"
  "qurl_smtp_encode_text_head env n s = Inr (d, s') \<Longrightarrow> fixed_fields s' = fixed_fields s"
  "qurl_smtp_encode_text_body env n s = Inr (d, s') \<Longrightarrow> fixed_fields s' = fixed_fields s"
  "qurl_smtp_encode_atta_head env n s = Inr (d, s') \<Longrightarrow> fixed_fields s' = fixed_fields s"
  "qurl_smtp_encode_atta_body env n s = Inr (d, s') \<Longrightarrow> fixed_fields s' = fixed_fields s"
  "encode_tail env n s = Inr (d, s') \<Longrightarrow> fixed_fields s' = fixed_fields s"
  by (auto simp: encoder_defs fixed_fields_def atta_exit_def Let_def c_bind_eq_Inr
      split: option.splits if_splits prod.splits)

lemma in_turn_keeps_fields:
  assumes "\<And>n d s'. e env n s = Inr (d, s') \<Longrightarrow> fixed_fields s' = fixed_fields s"
    and "in_turn st e env n (out, s) = Inr (out', s')"
  shows "fixed_fields s' = fixed_fields s"
  using assms by (auto simp: in_turn_def c_bind_eq_Inr split: if_splits)

lemma callback_keeps_fields:
  assumes "qurl_smtp_upload_data_cb env n s = Inr (d, s')"
  shows "fixed_fields s' = fixed_fields s"
proof (cases "n = 0")
  case True
  with assms show ?thesis by (simp add: qurl_smtp_upload_data_cb_def)
next
  case False
  with assms obtain o1 s1 o2 s2 o3 s3 o4 s4 o5 s5 where
    "in_turn SEND_HEAD qurl_smtp_encode_mail_header env n ([], s) = Inr (o1, s1)"
    "in_turn SEND_TEXT_HEAD qurl_smtp_encode_text_head env n (o1, s1) = Inr (o2, s2)"
    "in_turn SEND_TEXT_BODY qurl_smtp_encode_text_body env n (o2, s2) = Inr (o3, s3)"
    "in_turn SEND_ATTA_HEAD qurl_smtp_encode_atta_head env n (o3, s3) = Inr (o4, s4)"
    "in_turn SEND_ATTA_BODY qurl_smtp_encode_atta_body env n (o4, s4) = Inr (o5, s5)"
    "s' = s5 \<or> in_turn SEND_TAIL encode_tail env n (o5, s5) = Inr (d, s')"
    by (auto simp: qurl_smtp_upload_data_cb_def c_bind_eq_Inr split: if_splits)
  then show ?thesis
    using encoders_keep_fields in_turn_keeps_fields by metis
qed

text \<open>Nor does it look at the kind of encryption.\<close>

abbreviation set_ssl :: "smtp_ssl_type \<Rightarrow> qurl_smtp_client \<Rightarrow> qurl_smtp_client" where
  "set_ssl ty s \<equiv> s\<lparr>ssl := ty\<rparr>"

lemma set_ssl_inwards:
  "set_ssl ty (s\<lparr>status := a\<rparr>) = set_ssl ty s\<lparr>status := a\<rparr>"
  "set_ssl ty (s\<lparr>text_used := b\<rparr>) = set_ssl ty s\<lparr>text_used := b\<rparr>"
  "set_ssl ty (s\<lparr>file_fd := i\<rparr>) = set_ssl ty s\<lparr>file_fd := i\<rparr>"
  "set_ssl ty (s\<lparr>file_size := b\<rparr>) = set_ssl ty s\<lparr>file_size := b\<rparr>"
  "set_ssl ty (s\<lparr>file_used := b\<rparr>) = set_ssl ty s\<lparr>file_used := b\<rparr>"
  "set_ssl ty (s\<lparr>file_calls := c\<rparr>) = set_ssl ty s\<lparr>file_calls := c\<rparr>"
  "set_ssl ty (s\<lparr>bufs_leaked := b\<rparr>) = set_ssl ty s\<lparr>bufs_leaked := b\<rparr>"
  by simp_all

definition blind :: "smtp_ssl_type \<Rightarrow> smtp_env \<Rightarrow> encoder \<Rightarrow> bool" where
  "blind ty env e \<longleftrightarrow> (\<forall>n s. e env n (set_ssl ty s) = map_state (set_ssl ty) (e env n s))"

lemma encoders_blind:
  "blind ty env qurl_smtp_encode_mail_header" "blind ty env qurl_smtp_encode_text_head"
  "blind ty env qurl_smtp_encode_text_body" "blind ty env qurl_smtp_encode_atta_head"
  "blind ty env qurl_smtp_encode_atta_body" "blind ty env encode_tail"
proof -
  have "subject_line env (set_ssl ty s) = subject_line env s" for s
    by (simp add: subject_line_def split: option.split)
  then have "qurl_smtp_encode_mail_header env n (set_ssl ty s) =
      map_state (set_ssl ty) (qurl_smtp_encode_mail_header env n s)" for n s
    by (cases "append_all n mail_header_lines []"; cases "subject_line env s")
      (auto simp: qurl_smtp_encode_mail_header_def set_ssl_inwards split: option.split)
  then show "blind ty env qurl_smtp_encode_mail_header" by (simp add: blind_def)
  show "blind ty env qurl_smtp_encode_text_head" "blind ty env encode_tail"
    "blind ty env qurl_smtp_encode_text_body" "blind ty env qurl_smtp_encode_atta_head"
    by (auto simp: blind_def qurl_smtp_encode_text_head_def encode_tail_def qurl_smtp_encode_text_body_def
        qurl_smtp_encode_atta_head_def Let_def set_ssl_inwards split: option.splits)
  show "blind ty env qurl_smtp_encode_atta_body"
    by (auto simp: blind_def qurl_smtp_encode_atta_body_def atta_exit_def Let_def set_ssl_inwards split: option.splits prod.splits)
qed

lemma in_turn_blind:
  assumes "blind ty env e"
  shows "in_turn st e env n (out, set_ssl ty s) = map_state (set_ssl ty) (in_turn st e env n (out, s))"
  using assms by (cases "e env (n - length out) s") (auto simp: in_turn_def blind_def)

text \<open>One encoder after the other.\<close>

lemma then_blind:
  assumes "blind ty env e" and "\<And>out s. g (out, set_ssl ty s) = map_state (set_ssl ty) (g (out, s))"
  shows "c_bind (in_turn st e env n (out, set_ssl ty s)) g = map_state (set_ssl ty) (c_bind (in_turn st e env n (out, s)) g)"
  using assms in_turn_blind [OF assms(1), of st n out s] by (cases "in_turn st e env n (out, s)") auto

lemma callback_blind:
  "qurl_smtp_upload_data_cb env n (set_ssl ty s) = map_state (set_ssl ty) (qurl_smtp_upload_data_cb env n s)"
proof (cases "n = 0")
  case False
  then show ?thesis
    unfolding qurl_smtp_upload_data_cb_def
    by (simp only: if_False) (intro then_blind encoders_blind, auto simp: in_turn_blind encoders_blind)
qed (simp add: qurl_smtp_upload_data_cb_def)

section \<open>Properties of the mail examples\<close>

definition all_alloc :: mail_alloc where
  "all_alloc = \<lparr>subject_alloc = True, text_alloc = True, name_alloc = True, url_alloc = True, core_ok = True\<rparr>"

lemma demo_strings:
  "base_name QURL_SMTP_DEMO_FILENAME = ''smtp_test.txt''" "length QURL_SMTP_DEMO_TEXT = 36"
  "c_str (g_hello_utf8_hex @ NUL # cs) = g_hello_utf8_hex" "length g_hello_utf8_hex = 6"
  by (simp_all add: base_name_def QURL_SMTP_DEMO_FILENAME_def g_hello_utf8_hex_def QURL_SMTP_DEMO_TEXT_def c_str_def)

definition fresh_client :: "smtp_ssl_type \<Rightarrow> qurl_smtp_client" where
  "fresh_client ty = zero_client\<lparr>ssl := ty, subject_charset := CHARSET_UTF8,
     subject := Some (g_hello_utf8_hex @ [NUL]), body_text := Some (QURL_SMTP_DEMO_TEXT @ [NUL]), text_len := 36,
     file_name := Some QURL_SMTP_DEMO_FILENAME\<rparr>"

lemma init_client:
  "qurl_smtp_client_init all_alloc (NUL # cs) (zero_client\<lparr>ssl := ty\<rparr>) = Inr (0, fresh_client ty)"
  by (simp add: qurl_smtp_client_init_def all_alloc_def zero_client_def demo_strings fresh_client_def)

lemma fresh_client_wf:
  assumes "base64_ok env enc" and "atta_ok env"
  shows "mail_wf env enc (fresh_client ty)"
  using assms demo_strings(3) [of "[]"]
  by (simp add: mail_wf_def fresh_client_def zero_client_def demo_strings)

text \<open>The whole message, as RFC 822 and MIME lay it out.\<close>

definition demo_mail :: "(string \<Rightarrow> bool \<Rightarrow> string) \<Rightarrow> string \<Rightarrow> string \<Rightarrow> string" where
  "demo_mail enc x y =
     concat mail_header_lines @ ''Subject: =?utf-8?B?'' @ enc g_hello_utf8_hex False @ ''?='' @ CRLF @ mixed_line @
     concat (text_head_lines CHARSET_ASCII) @ x @ concat (atta_head_lines ''smtp_test.txt'') @ y @ mail_tail"

lemma fresh_mime:
  assumes "mime env enc (fresh_client ty) SEND_HEAD out"
  shows "\<exists>x y. out = demo_mail enc x y \<and> in_base64 enc QURL_SMTP_DEMO_TEXT x \<and> in_base64 enc (atta_content env) y"
  using assms demo_strings(3) [of "[]"]
  by (auto simp: demo_mail_def header_text_def subject_text_def text_part_def atta_part_def file_part_def
      fresh_client_def zero_client_def demo_strings)

lemma mail_sent:
  assumes "base64_ok env enc" and "atta_ok env" and "\<forall>i. 512 \<le> sizes i \<and> sizes i < 2 ^ 30"
  shows "\<exists>s' x y. send_mail all_alloc (NUL # cs) env sizes rq (zero_client\<lparr>ssl := ty\<rparr>) =
      Some (Inr (Some (rq, demo_mail enc x y), s', 3)) \<and>
    in_base64 enc QURL_SMTP_DEMO_TEXT x \<and> in_base64 enc (atta_content env) y \<and>
    Mail_open QURL_SMTP_DEMO_FILENAME \<in> set (file_calls s') \<and> (\<forall>f. Mail_close f \<notin> set (file_calls s'))"
proof -
  let ?s = "fresh_client ty"
  have wf: "mail_wf env enc ?s" by (rule fresh_client_wf [OF assms(1,2)])
  obtain out s' s0 i where run: "pull_all (qurl_smtp_upload_data_cb env) sizes 0 ?s = Some (Inr (out, s'))"
    and "mail_wf env enc s'" "mime env enc ?s (status ?s) out" "mail_wf env enc s0"
      "qurl_smtp_upload_data_cb env (sizes i) s0 = Inr ([], s')"
    using mail.pull_meets_spec [OF wf assms(3), of 0] by blast
  moreover from this callback_so_far [of env enc s0 "sizes i"] assms(3) have "6 \<le> rank (status s')"
    by (auto simp: so_far_def)
  moreover have "fixed_fields s' = fixed_fields ?s"
    by (rule pull_all_keeps [OF run]) (auto dest: callback_keeps_fields)
  moreover have "status ?s = SEND_HEAD" by (simp add: fresh_client_def zero_client_def)
  moreover from calculation obtain x y where "out = demo_mail enc x y" "in_base64 enc QURL_SMTP_DEMO_TEXT x"
      "in_base64 enc (atta_content env) y"
    using fresh_mime by metis
  moreover from calculation have "qurl_smtp_client_deinit s' = 3" "file_name s' = Some QURL_SMTP_DEMO_FILENAME"
    by (simp_all add: fixed_fields_def qurl_smtp_client_deinit_def fresh_client_def)
  moreover from calculation have "Mail_open QURL_SMTP_DEMO_FILENAME \<in> set (file_calls s')"
      "\<forall>f. Mail_close f \<notin> set (file_calls s')"
    by (simp_all add: mail_wf_def)
  moreover from calculation have "send_mail all_alloc (NUL # cs) env sizes rq (zero_client\<lparr>ssl := ty\<rparr>) =
      Some (Inr (Some (rq, demo_mail enc x y), s', 3))"
    by (simp add: send_mail_def init_client) (simp add: all_alloc_def)
  ultimately show ?thesis by blast
qed

text \<open>C3: whatever the sizes of the library's buffers, from 512 bytes on, the demo sends the complete MIME message and
  ends: header with encoded subject, the text and the attachment in base64 between their boundaries,
  and the closing boundary, each part cut into pieces whose encodings follow each other without
  padding. All three strings are freed; the attachment's file is opened and never closed.\<close>

theorem no_tls_demo_sends_mail:
  assumes "base64_ok env enc" and "atta_ok env" and "\<forall>i. 512 \<le> sizes i \<and> sizes i < 2 ^ 30"
  shows "\<exists>rq s' x y. smtp_no_tls_demo all_alloc (NUL # cs) env sizes = Some (Inr (Some (rq, demo_mail enc x y), s', 3)) \<and>
    mr_url rq = ''smtp://smtp.163.com'' \<and> mr_port rq = 25 \<and>
    in_base64 enc QURL_SMTP_DEMO_TEXT x \<and> in_base64 enc (atta_content env) y \<and>
    Mail_open QURL_SMTP_DEMO_FILENAME \<in> set (file_calls s') \<and> (\<forall>f. Mail_close f \<notin> set (file_calls s'))"
proof -
  have same: "zero_client\<lparr>ssl := SSL_TYPE_NO\<rparr> = zero_client" by (simp add: zero_client_def)
  define rq where "rq = \<lparr>mr_url = ''smtp://'' @ QURL_SMTP_DEMO_EMAILADDR, mr_port = QURL_SMTP_DEMO_NO_TLS_PORT,
    mr_usetls = Some 0, mr_tls_cfg = False, mr_timeout_ms = QURL_SMTP_DEMO_TIMEOUT * 1000, mr_rcpt = recipients\<rparr>"
  have "mr_url rq = ''smtp://smtp.163.com''" "mr_port rq = 25"
    by (simp_all add: rq_def QURL_SMTP_DEMO_EMAILADDR_def QURL_SMTP_DEMO_NO_TLS_PORT_def)
  with mail_sent [OF assms, of cs rq SSL_TYPE_NO] show ?thesis
    unfolding smtp_no_tls_demo_def rq_def [symmetric] same by blast
qed

text \<open>The result of a demo with another request and another kind of encryption.\<close>

definition relabel :: "mail_request \<Rightarrow> smtp_ssl_type \<Rightarrow> mail_result \<Rightarrow> mail_result" where
  "relabel rq ty = map_option (\<lambda>r. c_bind r (\<lambda>(sent, s, n).
     Inr (map_option (\<lambda>(rq0, bytes). (rq, bytes)) sent, s\<lparr>ssl := ty\<rparr>, n)))"

lemma init_blind:
  "qurl_smtp_client_init al beyond (set_ssl ty s) =
     c_bind (qurl_smtp_client_init al beyond s) (\<lambda>(ret, s1). Inr (ret, set_ssl ty s1))"
  by (simp add: qurl_smtp_client_init_def Let_def)

lemma send_mail_relabel:
  "send_mail al beyond env sizes rq' (set_ssl ty s) = relabel rq' ty (send_mail al beyond env sizes rq s)"
proof -
  have keep: "qurl_smtp_client_deinit (set_ssl ty t) = qurl_smtp_client_deinit t" for t
    by (simp add: qurl_smtp_client_deinit_def)
  note pull = pull_all_simulation [where f = "set_ssl ty" and ?cb1.0 = "qurl_smtp_upload_data_cb env"
      and ?cb2.0 = "qurl_smtp_upload_data_cb env", OF callback_blind]
  show ?thesis
  proof (cases "qurl_smtp_client_init al beyond s")
    case (Inr p)
    obtain ret s1 where p: "p = (ret, s1)" by (cases p)
    show ?thesis
    proof (cases "pull_all (qurl_smtp_upload_data_cb env) sizes 0 s1")
      case None
      with Inr p pull [of sizes 0 s1] keep show ?thesis by (auto simp: send_mail_def relabel_def init_blind)
    next
      case (Some r)
      with Inr p pull [of sizes 0 s1] keep show ?thesis
        by (cases r) (auto simp: send_mail_def relabel_def init_blind)
    qed
  qed (simp add: send_mail_def relabel_def init_blind keep)
qed


text \<open>Lines that do not fit overflow; lines that do are written, or cut by one character.\<close>

lemma append_fmt_length: "append_fmt n t out = Inr out' \<Longrightarrow> length out \<le> n \<Longrightarrow> length out' = length out + length t \<and> length out' \<le> n"
  by (cases t rule: rev_cases) (auto simp: append_fmt_def Let_def split: if_splits)

lemma append_all_length:
  "append_all n ts out = Inr out' \<Longrightarrow> length out \<le> n \<Longrightarrow> length out' = length out + length (concat ts) \<and> length out' \<le> n"
proof (induction ts arbitrary: out)
  case (Cons t ts)
  then obtain out1 where "append_fmt n t out = Inr out1" "append_all n ts out1 = Inr out'" by (auto simp: c_bind_eq_Inr)
  with Cons.prems(2) append_fmt_length [of n t out out1] Cons.IH [of out1] show ?case by simp
qed simp

lemma append_all_undefined: "append_all n ts out = Inl u \<Longrightarrow> u = Out_of_bounds"
  by (induction ts arbitrary: out) (auto simp: c_bind_eq_Inl append_fmt_def Let_def split: if_splits)

lemma append_all_overflows:
  assumes "length out \<le> n" and "n < length out + length (concat ts)"
  shows "append_all n ts out = Inl Out_of_bounds"
  using append_all_length [of n ts out] append_all_undefined [of n ts out] assms
  by (cases "append_all n ts out") auto

text \<open>The callback needs a buffer for the whole header: into any smaller one it writes behind the end.\<close>

theorem header_overflows_small_buffer:
  assumes "base64_ok env enc" and "subject s = Some subj" and "length (c_str subj) \<le> 90" and "status s = SEND_HEAD"
    and "0 < n" and "n < length (header_text enc s)"
  shows "qurl_smtp_upload_data_cb env n s = Inl Out_of_bounds"
proof -
  have subj: "subject_line env s = Inr (Some (subject_text enc s))"
    using assms(1-3) by (intro subject_line_text) auto
  have "qurl_smtp_encode_mail_header env n s = Inl Out_of_bounds"
  proof (cases "append_all n mail_header_lines []")
    case (Inl u)
    with append_all_undefined [OF Inl] show ?thesis by (simp add: qurl_smtp_encode_mail_header_def)
  next
    case (Inr d)
    with append_all_length [OF Inr] have "append_all n [subject_text enc s, mixed_line] d = Inl Out_of_bounds"
      using assms(6) by (intro append_all_overflows) (simp_all add: header_text_def)
    with Inr subj show ?thesis by (simp add: qurl_smtp_encode_mail_header_def del: append_all.simps)
  qed
  with assms(4,5) show ?thesis by (simp add: qurl_smtp_upload_data_cb_def in_turn_def)
qed

text \<open>When the turn of the attachment comes and the buffer has fewer than 512 bytes, the callback returns 0: the
  library takes the mail for complete, without the attachment and without the closing boundary.\<close>

theorem small_buffer_drops_attachment:
  assumes "file_name s = Some nm" and "status s = SEND_ATTA_HEAD" and "sizes k < 512"
  shows "pull_all (qurl_smtp_upload_data_cb env) sizes k s = Some (Inr ([], s))"
  using assms
  by (intro pull_all_end) (simp add: qurl_smtp_upload_data_cb_def in_turn_def qurl_smtp_encode_atta_head_def)

text \<open>The subject is the six bytes of \<^verbatim>\<open>g_hello_utf8_hex\<close> exactly when a zero byte happens to follow the array,
  which has no terminator of its own; with no zero behind it the program reads on without end.\<close>

theorem subject_needs_terminator:
  "(\<exists>ret s'. qurl_smtp_client_init all_alloc (c # cs) s = Inr (ret, s') \<and> subject s' = Some (g_hello_utf8_hex @ [NUL]))
     \<longleftrightarrow> c = NUL"
proof (cases "c = NUL")
  case True
  then show ?thesis by (simp add: qurl_smtp_client_init_def all_alloc_def demo_strings)
next
  case False
  then have "length (c_str (g_hello_utf8_hex @ c # cs)) \<noteq> length g_hello_utf8_hex"
    by (simp add: c_str_def g_hello_utf8_hex_def)
  then have "c_str (g_hello_utf8_hex @ c # cs) \<noteq> g_hello_utf8_hex" by metis
  with False show ?thesis
    by (auto simp: qurl_smtp_client_init_def all_alloc_def Let_def split: if_splits)
qed

section \<open>The properties at concrete inputs\<close>

definition ex_enc :: "string \<Rightarrow> bool \<Rightarrow> string" where
  "ex_enc p ln = map (\<lambda>c. CHR ''A'') p"

definition ex_smtp :: smtp_env where
  "ex_smtp = \<lparr>b64 = (\<lambda>p cap ln. Some (ex_enc p ln)), atta_fd = 5, atta_stat = Some 3, atta_content = ''abc'',
     atta_io = (\<lambda>pos n. 1), atta_alloc = (\<lambda>pos. True)\<rparr>"

lemma ex_enc_length: "length p \<le> base64_len (length p) ln"
  by (auto simp: base64_len_def Let_def)

lemma ex_smtp_ok: "base64_ok ex_smtp ex_enc" "atta_ok ex_smtp"
  using ex_enc_length by (auto simp: base64_ok_def atta_ok_def ex_smtp_def ex_enc_def)

theorem no_tls_demo_sends_mail_witness:
  "\<exists>rq s' x y. smtp_no_tls_demo all_alloc [NUL] ex_smtp (\<lambda>i. 512 + i mod 8) =
      Some (Inr (Some (rq, demo_mail ex_enc x y), s', 3)) \<and>
    mr_url rq = ''smtp://smtp.163.com'' \<and> mr_port rq = 25 \<and>
    in_base64 ex_enc QURL_SMTP_DEMO_TEXT x \<and> in_base64 ex_enc ''abc'' y \<and>
    Mail_open QURL_SMTP_DEMO_FILENAME \<in> set (file_calls s') \<and> (\<forall>f. Mail_close f \<notin> set (file_calls s'))"
proof -
  have "(512::nat) + i mod 8 < 2 ^ 30" for i
    using mod_less_divisor [of 8 i] by simp
  then have "\<forall>i. 512 \<le> (512::nat) + i mod 8 \<and> 512 + i mod 8 < 2 ^ 30" by simp
  from no_tls_demo_sends_mail [OF ex_smtp_ok this, of "[]"] show ?thesis
    by (simp add: ex_smtp_def)
qed

theorem header_overflows_small_buffer_witness:
  "qurl_smtp_upload_data_cb ex_smtp 200 (fresh_client SSL_TYPE_NO) = Inl Out_of_bounds"
proof (rule header_overflows_small_buffer [OF ex_smtp_ok(1)])
  let ?s = "fresh_client SSL_TYPE_NO"
  show "subject ?s = Some (g_hello_utf8_hex @ [NUL])" "status ?s = SEND_HEAD" "0 < (200::nat)"
    by (simp_all add: fresh_client_def zero_client_def)
  show "length (c_str (g_hello_utf8_hex @ [NUL])) \<le> 90" by (simp add: demo_strings)
  have "18 \<le> length (subject_text ex_enc ?s)"
    by (simp add: subject_text_def fresh_client_def zero_client_def)
  then show "200 < length (header_text ex_enc ?s)" by (simp add: header_text_def header_length mixed_length)
qed

theorem small_buffer_drops_attachment_witness:
  "pull_all (qurl_smtp_upload_data_cb ex_smtp) (\<lambda>i. 500) 0 (fresh_client SSL_TYPE_NO\<lparr>status := SEND_ATTA_HEAD\<rparr>) =
    Some (Inr ([], fresh_client SSL_TYPE_NO\<lparr>status := SEND_ATTA_HEAD\<rparr>))"
  by (rule small_buffer_drops_attachment [where nm = QURL_SMTP_DEMO_FILENAME])
    (simp_all add: fresh_client_def)

end
