(* ===== verification/Http_Get.thy ===== *)
theory Http_Get
  imports File_Transfer
begin

text \<open>
  The HTTP download example, \<^verbatim>\<open>network/network_protocol/http/get/http_get_demo.c\<close>.

  State: the context \<open>unir_demo_http_t\<close>. Operations: the file helper, the callbacks for header and
  body, and the five variants of the request, chosen at compile time by \<^verbatim>\<open>UNIR_HTTP_TEST\<close>.

  As for FTP, the transfer library is the environment: the options are the record \<open>http_request\<close>,
  and a transfer feeds the body it receives to the installed callback.
\<close>

section \<open>Data\<close>

definition UNIR_HTTP_TEST :: nat where "UNIR_HTTP_TEST = 1"
definition QURL_APPS_HTTP_FILENAME :: string where "QURL_APPS_HTTP_FILENAME = ''/user/http_test1.txt''"
definition QURL_APPS_HTTP_HEAD_FILE :: string where "QURL_APPS_HTTP_HEAD_FILE = ''/user/http_header.txt''"

definition crlf :: string where "crlf = [CHR 13, CHR 10]"

definition head_data :: string where
  "head_data = ''GET /get HTTP/1.1'' @ crlf @ ''Host: httpbin.org'' @ crlf @ ''Accept: */*'' @ crlf @ crlf"

record qurl_app_r_buf =
  buf_ptr :: string
  r_index :: nat

record unir_demo_http =
  file_name :: string
  fd :: int
  dload_want_size :: u32
  fs_free_size :: u32
  write_errcode :: int
  chunk_encode :: int
  first_flag :: int
  write_size :: u32
  total_recv_cnt :: u32
  need_save :: u32

definition zero_http :: unir_demo_http where
  "zero_http = \<lparr>file_name = [], fd = 0, dload_want_size = 0, fs_free_size = 0, write_errcode = 0, chunk_encode = 0,
     first_flag = 0, write_size = 0, total_recv_cnt = 0, need_save = 0\<rparr>"

datatype head_source = Head_default | Head_pieces "string list" | Head_data string | Head_file string

record http_request =
  rq_url :: string
  rq_range :: "string option"
  rq_headers :: "string list"
  rq_head :: head_source

record http_env =
  statvfs :: "(int \<times> int) option"       \<comment> \<open>\<^verbatim>\<open>f_bavail\<close>, \<^verbatim>\<open>f_bsize\<close>\<close>
  resp_code :: int
  content_length :: int
  vfs_io :: "string \<Rightarrow> nat \<Rightarrow> int"
  url_ok :: bool
  opened_fd :: int
  body :: "string list"
  head_sizes :: "int list"               \<comment> \<open>sizes the library asks the header callback for\<close>

datatype http_call = Perform http_request | Vfs_open string | Vfs_write int string | Vfs_close int

section \<open>Helpers and callbacks\<close>

definition qurl_http_demo_get_space_free_size :: "http_env \<Rightarrow> int" where
  "qurl_http_demo_get_space_free_size env =
     (case statvfs env of None \<Rightarrow> 0 | Some (bavail, bsize) \<Rightarrow> bavail * bsize)"

function vfs_write_loop :: "(nat \<Rightarrow> int) \<Rightarrow> nat \<Rightarrow> nat \<Rightarrow> int \<times> nat" where
  "vfs_write_loop io len temp_len =
     (if temp_len < len then
        (if io temp_len \<le> 0 then (-1, temp_len) else vfs_write_loop io len (temp_len + nat (io temp_len)))
      else (0, temp_len))"
  by pat_completeness auto
termination
  by (relation "measure (\<lambda>(io, len, off). len - off)") auto

declare vfs_write_loop.simps [simp del]

interpretation http_write: transfer_loop vfs_write_loop
  by unfold_locales (auto simp: vfs_write_loop.simps [of _ _ off for off])

text \<open>On failure the file is closed and the handle in the context becomes 0.\<close>

definition unir_http_demo_vfs_write ::
  "http_env \<Rightarrow> string \<Rightarrow> unir_demo_http \<Rightarrow> int \<times> unir_demo_http \<times> http_call list" where
  "unir_http_demo_vfs_write env buf s =
     (let (ret, n) = vfs_write_loop (vfs_io env buf) (length buf) 0 in
      if ret < 0 then (-1, s\<lparr>fd := 0\<rparr>, [Vfs_write (fd s) (take n buf), Vfs_close (fd s)])
      else (0, s, [Vfs_write (fd s) (take n buf)]))"

text \<open>A piece of the request header; the copy starts at the beginning of the buffer each time.\<close>

definition qurl_http_app_r_raw_head_cb :: "int \<Rightarrow> qurl_app_r_buf \<Rightarrow> string \<times> qurl_app_r_buf" where
  "qurl_http_app_r_raw_head_cb sz b =
     (if sz < 1 then ([], b)
      else let n = min sz (int (length (buf_ptr b)) - int (r_index b)) in
           (take (nat n) (buf_ptr b), b\<lparr>r_index := r_index b + nat n\<rparr>))"

text \<open>Saving a part of the body: the length returned, 0 for an error.\<close>

definition qurl_http_demo_save_file ::
  "http_env \<Rightarrow> string \<Rightarrow> unir_demo_http \<Rightarrow> int \<times> unir_demo_http \<times> http_call list" where
  "qurl_http_demo_save_file env buf s =
     (let len = int (length buf);
          checked =
            (if first_flag s \<noteq> 0 then
               (if resp_code env \<ge> 200 \<and> resp_code env < 300 then
                  (if content_length env > 0 then
                     (if content_length env > uint (fs_free_size s) then Inl (s\<lparr>write_errcode := -1\<rparr>)
                      else Inr (s\<lparr>chunk_encode := 0, dload_want_size := word_of_int (content_length env), first_flag := 1\<rparr>))
                   else Inr (s\<lparr>chunk_encode := 1, dload_want_size := 0, first_flag := 1\<rparr>))
                else Inl s)
             else Inr s) in
      case checked of
        Inl s1 \<Rightarrow> (0, s1, [])
      | Inr s1 \<Rightarrow>
          if chunk_encode s1 = 1 \<and> len \<ge> qurl_http_demo_get_space_free_size env then (0, s1, [])
          else
            let (ret, s2, calls) = unir_http_demo_vfs_write env buf s1 in
            if ret \<noteq> 0 then (0, s2, calls)
            else (len, s2\<lparr>total_recv_cnt := total_recv_cnt s2 + of_nat (length buf),
                          write_size := write_size s2 + of_nat (length buf)\<rparr>, calls))"

definition qurl_http_app_w_cb ::
  "http_env \<Rightarrow> string \<Rightarrow> unir_demo_http option \<Rightarrow> int \<times> unir_demo_http option \<times> http_call list" where
  "qurl_http_app_w_cb env buf arg =
     (case arg of
        None \<Rightarrow> (0, None, [])
      | Some s \<Rightarrow>
          if need_save s \<noteq> 0 then
            (case qurl_http_demo_save_file env buf s of (r, s1, calls) \<Rightarrow> (r, Some s1, calls))
          else (int (length buf), Some s, []))"

fun run_body :: "http_env \<Rightarrow> string list \<Rightarrow> unir_demo_http option \<Rightarrow> unir_demo_http option \<times> http_call list" where
  "run_body env [] arg = (arg, [])"
| "run_body env (b # bs) arg =
     (let (r, arg1, c1) = qurl_http_app_w_cb env b arg; (arg2, c2) = run_body env bs arg1 in (arg2, c1 @ c2))"

fun run_head :: "int list \<Rightarrow> qurl_app_r_buf \<Rightarrow> string list" where
  "run_head [] b = []"
| "run_head (n # ns) b = (let (p, b1) = qurl_http_app_r_raw_head_cb n b in p # run_head ns b1)"

section \<open>Requests\<close>

text \<open>From the switch to saving on: open the file, transfer, close what the context names. The clean-up
  compares the handle with 0, not with a handle that was opened.\<close>

definition close_fd :: "unir_demo_http \<Rightarrow> http_call list" where
  "close_fd s = (if fd s \<ge> 0 then [Vfs_close (fd s)] else [])"

definition save_body :: "http_env \<Rightarrow> http_request \<Rightarrow> unir_demo_http \<Rightarrow> unir_demo_http \<times> http_call list" where
  "save_body env rq s =
     (let s1 = s\<lparr>need_save := 1, fs_free_size := word_of_int (qurl_http_demo_get_space_free_size env),
                 file_name := QURL_APPS_HTTP_FILENAME, fd := opened_fd env\<rparr>;
          op = Vfs_open QURL_APPS_HTTP_FILENAME in
      if fd s1 < 0 then (s1, op # close_fd s1)
      else
        let (arg, calls) = run_body env (body env) (Some s1); s2 = the arg in
        (s2, op # Perform rq # calls @ close_fd s2))"

definition qurl_http_app_get :: "http_env \<Rightarrow> unir_demo_http \<times> http_call list" where
  "qurl_http_app_get env =
     (if \<not> url_ok env then (zero_http, close_fd zero_http)
      else save_body env
        \<lparr>rq_url = ''http://httpbin.org/get'', rq_range = None,
         rq_headers = [''User-Agent: Quectel-Module''], rq_head = Head_default\<rparr> zero_http)"

definition qurl_http_app_get_range :: "http_env \<Rightarrow> unir_demo_http \<times> http_call list" where
  "qurl_http_app_get_range env =
     (if \<not> url_ok env then (zero_http, close_fd zero_http)
      else save_body env
        \<lparr>rq_url = ''http://httpbin.org/range/100'', rq_range = Some (snprintf_buf 31 ''10-''),
         rq_headers = [], rq_head = Head_default\<rparr> zero_http)"

text \<open>The variants with a hand-made header install the body callback without an argument.\<close>

definition head_request :: "http_env \<Rightarrow> head_source \<Rightarrow> http_call list" where
  "head_request env h =
     Perform \<lparr>rq_url = ''http://httpbin.org/get'', rq_range = None, rq_headers = [], rq_head = h\<rparr> #
       snd (run_body env (body env) None)"

definition qurl_http_app_get_raw_head :: "http_env \<Rightarrow> http_call list" where
  "qurl_http_app_get_raw_head env =
     head_request env (Head_pieces (run_head (head_sizes env) \<lparr>buf_ptr = head_data, r_index = 0\<rparr>))"

definition qurl_http_app_get_upload_head :: "http_env \<Rightarrow> http_call list" where
  "qurl_http_app_get_upload_head env = head_request env (Head_data head_data)"

definition qurl_http_app_get_upload_file_head :: "http_env \<Rightarrow> http_call list" where
  "qurl_http_app_get_upload_file_head env = head_request env (Head_file QURL_APPS_HTTP_HEAD_FILE)"

definition unir_qurl_http_app_init :: "http_env \<Rightarrow> http_call list" where
  "unir_qurl_http_app_init env =
     (if UNIR_HTTP_TEST = 1 then snd (qurl_http_app_get env)
      else if UNIR_HTTP_TEST = 2 then qurl_http_app_get_raw_head env
      else if UNIR_HTTP_TEST = 3 then qurl_http_app_get_upload_head env
      else if UNIR_HTTP_TEST = 4 then qurl_http_app_get_upload_file_head env
      else if UNIR_HTTP_TEST = 5 then snd (qurl_http_app_get_range env)
      else [])"

section \<open>Properties of the HTTP example\<close>

text \<open>While the check flag is clear, a part of the body is written as it is.\<close>

lemma save_plain:
  assumes "first_flag s = 0" and "chunk_encode s = 0"
    and "vfs_write_loop (vfs_io env b) (length b) 0 = (0, length b)"
  shows "qurl_http_demo_save_file env b s =
    (int (length b), s\<lparr>total_recv_cnt := total_recv_cnt s + of_nat (length b),
       write_size := write_size s + of_nat (length b)\<rparr>, [Vfs_write (fd s) b])"
  using assms by (simp add: qurl_http_demo_save_file_def unir_http_demo_vfs_write_def)

lemma run_body_all:
  assumes "first_flag s = 0" and "chunk_encode s = 0" and "need_save s \<noteq> 0"
    and "\<forall>b \<in> set bs. io_within (vfs_io env b) (length b) \<and> (\<forall>off < length b. 0 < vfs_io env b off)"
  shows "\<exists>s'. run_body env bs (Some s) = (Some s', map (Vfs_write (fd s)) bs) \<and> fd s' = fd s \<and>
    write_size s' = write_size s + of_nat (length (concat bs))"
  using assms
proof (induction bs arbitrary: s)
  case Nil
  then show ?case by simp
next
  case (Cons b bs)
  have "vfs_write_loop (vfs_io env b) (length b) 0 = (0, length b)"
    using Cons.prems by (intro http_write.loop_completes) simp_all
  note step = save_plain [OF Cons.prems(1,2) this]
  let ?s1 = "s\<lparr>total_recv_cnt := total_recv_cnt s + of_nat (length b), write_size := write_size s + of_nat (length b)\<rparr>"
  obtain s' where "run_body env bs (Some ?s1) = (Some s', map (Vfs_write (fd s)) bs)" "fd s' = fd s"
      "write_size s' = write_size s + of_nat (length b) + of_nat (length (concat bs))"
    using Cons.IH [of ?s1] Cons.prems by auto
  with step Cons.prems(3) show ?case
    by (simp add: qurl_http_app_w_cb_def add.assoc)
qed


text \<open>When a write fails, the helper closes the file and clears the handle, and the clean-up then
  closes handle 0, which the demo never opened.\<close>

lemma http_failed_write_closes_handle_0:
  assumes "url_ok env" and "0 \<le> opened_fd env" and "body env = [b]" and "io_within (vfs_io env b) (length b)"
    and "vfs_write_loop (vfs_io env b) (length b) 0 \<noteq> (0, length b)"
  shows "\<exists>s rq n. qurl_http_app_get env =
      (s, [Vfs_open QURL_APPS_HTTP_FILENAME, Perform rq, Vfs_write (opened_fd env) (take n b),
           Vfs_close (opened_fd env), Vfs_close 0]) \<and> n < length b"
proof -
  obtain n where "vfs_write_loop (vfs_io env b) (length b) 0 = (-1, n)" "n < length b"
    using http_write.loop_result [OF assms(4), of 0] assms(5) by auto
  with assms(1-3) show ?thesis
    by (auto simp: qurl_http_app_get_def save_body_def close_fd_def zero_http_def qurl_http_app_w_cb_def
        qurl_http_demo_save_file_def unir_http_demo_vfs_write_def Let_def)
qed

text \<open>A header fetched in two pieces is corrupted: the library gets the right number of bytes, but
  the second piece starts at the beginning of the header again.\<close>

theorem raw_head_restarts:
  assumes "0 < m" and "m < length h" and "int (length h) - int m \<le> n"
  shows "run_head [int m, n] \<lparr>buf_ptr = h, r_index = 0\<rparr> = [take m h, take (length h - m) h]"
  using assms by (simp add: qurl_http_app_r_raw_head_cb_def Let_def of_nat_diff nat_diff_distrib min_def)

section \<open>The properties at concrete inputs\<close>

definition ex_env :: http_env where
  "ex_env = \<lparr>statvfs = Some (10, 512), resp_code = 404, content_length = 9000, vfs_io = (\<lambda>b off. 1), url_ok = True,
     opened_fd = 4, body = [''not '', ''found''], head_sizes = []\<rparr>"


theorem raw_head_restarts_witness:
  "run_head [4, 100] \<lparr>buf_ptr = ''GET /x'', r_index = 0\<rparr> = [''GET '', ''GE'']"
  using raw_head_restarts [of 4 "''GET /x''" 100] by simp

end
