(* ===== verification/Http_Upload.thy ===== *)
theory Http_Upload
  imports Http_Get
begin

text \<open>
  The HTTP examples that send a body: \<^verbatim>\<open>http/put/http_put_demo.c\<close>, \<^verbatim>\<open>http/post/http_post_demo.c\<close> and
  \<^verbatim>\<open>http/post_form/http_post_form_demo.c\<close>.

  State: the buffer a read callback empties (its text and the index of the next byte). The transfer
  library announces a length and asks the callback for pieces until it has that many bytes or gets
  none; the size it asks for at the \<open>k\<close>-th call is a parameter.
\<close>

section \<open>Pulling a body of known length\<close>

type_synonym piece_cb = "int \<Rightarrow> qurl_app_r_buf \<Rightarrow> string \<times> qurl_app_r_buf"

function pull_n :: "piece_cb \<Rightarrow> (nat \<Rightarrow> nat) \<Rightarrow> nat \<Rightarrow> nat \<Rightarrow> qurl_app_r_buf \<Rightarrow> string \<times> qurl_app_r_buf" where
  "pull_n cb sizes k n b =
     (if n = 0 then ([], b)
      else
        let (d, b1) = cb (int (min (sizes k) n)) b in
        if d = [] then ([], b1)
        else let (rest, b2) = pull_n cb sizes (Suc k) (n - length d) b1 in (d @ rest, b2))"
  by pat_completeness auto
termination
  by (relation "measure (\<lambda>(cb, sizes, k, n, b). n)") auto

declare pull_n.simps [simp del]

section \<open>The read callbacks\<close>

text \<open>Both callbacks of the put example; the copy starts at the beginning of the buffer each time.\<close>

definition qurl_http_app_r_body_cb :: piece_cb where
  "qurl_http_app_r_body_cb sz b =
     (if sz < 1 then ([], b)
      else let n = min sz (int (length (buf_ptr b)) - int (r_index b)) in
           (take (nat n) (buf_ptr b), b\<lparr>r_index := r_index b + nat n\<rparr>))"

text \<open>The callback of the form examples continues at the index, and starts again after the last byte.\<close>

definition qurl_http_app_r_form_cb :: piece_cb where
  "qurl_http_app_r_form_cb sz b =
     (if sz < 1 then ([], b)
      else
        let n = min sz (int (length (buf_ptr b)) - int (r_index b));
            b1 = b\<lparr>r_index := r_index b + nat n\<rparr> in
        (take (nat n) (drop (r_index b) (buf_ptr b)),
         if r_index b1 \<ge> length (buf_ptr b1) then b1\<lparr>r_index := 0\<rparr> else b1))"

section \<open>The answer to the put request\<close>

text \<open>Both callbacks copy at most 2048 bytes of the answer into \<open>g_buff\<close>, terminate the copy and print it; they
  always take all of the answer. The result is the return value, what is printed and the buffer.\<close>

definition answer_copy :: "string \<Rightarrow> string \<Rightarrow> (int \<times> string \<times> string) c_result" where
  "answer_copy g_buff buf =
     (let log_len = if length buf > 2048 then 2048 else length buf in
      c_bind (c_store (take log_len buf @ drop log_len g_buff) log_len NUL) (\<lambda>g.
        Inr (int (length buf), c_str g, g)))"

definition qurl_http_app_w_h_cb_put :: "string \<Rightarrow> string \<Rightarrow> (int \<times> string \<times> string) c_result" where
  "qurl_http_app_w_h_cb_put g_buff buf = answer_copy g_buff buf"

text \<open>The body callback prints the size too, as its second line.\<close>

definition qurl_http_app_w_cb_put :: "string \<Rightarrow> string \<Rightarrow> (int \<times> string list \<times> string) c_result" where
  "qurl_http_app_w_cb_put g_buff buf =
     c_bind (answer_copy g_buff buf) (\<lambda>(r, t, g). Inr (r, [t, fmt_d (int (length buf))], g))"

lemma c_str_stop: "c_str (xs @ NUL # ys) = c_str xs"
  by (induction xs) (auto simp: c_str_def)

text \<open>The 2049 bytes of the buffer are enough for every answer.\<close>

lemma answer_copy_fits:
  assumes "length g_buff = 2049"
  shows "\<exists>g. answer_copy g_buff buf = Inr (int (length buf), c_str (take 2048 buf), g) \<and> length g = 2049"
proof -
  let ?n = "if length buf > 2048 then 2048 else length buf"
  let ?g = "take ?n buf @ drop ?n g_buff"
  have len: "length ?g = 2049" "?n < 2049" using assms by auto
  have "?g[?n := NUL] = take ?n buf @ NUL # drop (Suc ?n) g_buff"
  proof -
    have "drop ?n g_buff = g_buff ! ?n # drop (Suc ?n) g_buff"
      using assms by (intro Cons_nth_drop_Suc [symmetric]) simp
    then show ?thesis by (simp add: list_update_append)
  qed
  then have "c_str (?g[?n := NUL]) = c_str (take ?n buf)"
    by (simp add: c_str_stop)
  moreover have "take ?n buf = take 2048 buf" by simp
  ultimately show ?thesis using len by (simp add: answer_copy_def Let_def)
qed

section \<open>Put\<close>

definition put_head_data :: string where
  "put_head_data = ''PUT / HTTP/1.1'' @ crlf @ ''Host: 220.180.239.212:8300/processorder.php'' @ crlf @ ''Accept: */*'' @ crlf @ crlf"

definition put_body_data :: string where
  "put_body_data = ''Message=1111&Appleqty=2222&Orangeqty=3333&find=1'' @ crlf @ crlf"

record put_request =
  pr_url :: string
  pr_head :: string
  pr_body :: string
  pr_range :: string

record upload_env =
  core_created :: bool
  head_ask :: "nat \<Rightarrow> nat"
  body_ask :: "nat \<Rightarrow> nat"
  perform_ok :: bool
  mem_ok :: bool

text \<open>Result: the error code, the request that went out, and whether the handle was deleted. The
  head callback is given the buffer of the body and the body callback that of the head.\<close>

definition http_put_demo :: "int \<Rightarrow> upload_env \<Rightarrow> bool \<Rightarrow> int \<times> put_request option \<times> bool" where
  "http_put_demo failure env have_core =
     (if \<not> have_core \<and> \<not> core_created env then (failure, None, False)
      else
        let r_head_buf = \<lparr>buf_ptr = put_head_data, r_index = 0\<rparr>;
            r_body_buf = \<lparr>buf_ptr = put_body_data, r_index = 0\<rparr>;
            hd_part = fst (pull_n qurl_http_app_r_raw_head_cb (head_ask env) 0 (length put_head_data) r_body_buf);
            bd_part = fst (pull_n qurl_http_app_r_body_cb (body_ask env) 0 (length put_body_data) r_head_buf);
            rq = \<lparr>pr_url = ''http://101.37.104.185:45410/1.txt'', pr_head = hd_part, pr_body = bd_part, pr_range = ''100-200''\<rparr> in
        (if perform_ok env then 0 else failure, Some rq, True))"

section \<open>Forms\<close>

datatype form_content = CONTENT_DATA string | CONTENT_CB qurl_app_r_buf

record form_cfg =
  name_ptr :: string
  filename_ptr :: string
  content_ptr :: form_content
  content_len :: nat

definition g_form_data2 :: string where "g_form_data2 = ''this is test2''"

text \<open>The third field: a block of 20 zero bytes with a text of at most 18 characters.\<close>

definition form_buffer :: qurl_app_r_buf where
  "form_buffer = \<lparr>buf_ptr = snprintf_buf 19 ''this is test3'', r_index = 0\<rparr>"

definition form_fields :: "form_cfg list" where
  "form_fields =
     [\<lparr>name_ptr = ''test1'', filename_ptr = ''file1'', content_ptr = CONTENT_DATA ''this is test1'', content_len = length ''this is test1''\<rparr>,
      \<lparr>name_ptr = ''test2'', filename_ptr = ''file2'', content_ptr = CONTENT_DATA g_form_data2, content_len = length g_form_data2\<rparr>,
      \<lparr>name_ptr = ''test3'', filename_ptr = ''file3'', content_ptr = CONTENT_CB form_buffer, content_len = length (buf_ptr form_buffer)\<rparr>]"

text \<open>A transfer sends the fields in order and leaves the callback's buffer where the last call left it.\<close>

fun send_fields :: "(nat \<Rightarrow> nat) \<Rightarrow> form_cfg list \<Rightarrow> (string \<times> string \<times> string) list \<times> form_cfg list" where
  "send_fields ask [] = ([], [])"
| "send_fields ask (f # fs) =
     (let (c, f1) = (case content_ptr f of
              CONTENT_DATA t \<Rightarrow> (take (content_len f) t, f)
            | CONTENT_CB b \<Rightarrow>
                (case pull_n qurl_http_app_r_form_cb ask 0 (content_len f) b of (d, b1) \<Rightarrow> (d, f\<lparr>content_ptr := CONTENT_CB b1\<rparr>)));
          (sent, fs1) = send_fields ask fs in
      ((name_ptr f, filename_ptr f, c) # sent, f1 # fs1))"

text \<open>The block for the third field is used without a test. The request is performed twice.\<close>

definition qurl_http_app_post_form :: "upload_env \<Rightarrow> (nat \<Rightarrow> nat) \<Rightarrow> (nat \<Rightarrow> nat) \<Rightarrow> (string \<times> (string \<times> string \<times> string) list list) c_result" where
  "qurl_http_app_post_form env ask1 ask2 =
     (if \<not> mem_ok env then Inl Null_dereference
      else
        let (sent1, fs1) = send_fields ask1 form_fields; (sent2, fs2) = send_fields ask2 fs1 in
        Inr (''http://httpbin.org/post'', [sent1, sent2]))"

text \<open>The second example first waits for the network: ten looks at the registration.\<close>

fun wait_registered :: "(nat \<Rightarrow> bool) \<Rightarrow> nat \<Rightarrow> nat \<Rightarrow> bool" where
  "wait_registered reg i 0 = False"
| "wait_registered reg i (Suc left) = (reg i \<or> wait_registered reg (Suc i) left)"

definition http_post_form_demo ::
  "(nat \<Rightarrow> bool) \<Rightarrow> upload_env \<Rightarrow> (nat \<Rightarrow> nat) \<Rightarrow> (string \<times> (string \<times> string \<times> string) list list) option c_result" where
  "http_post_form_demo reg env ask =
     (if \<not> wait_registered reg 0 10 then Inr None
      else if \<not> mem_ok env then Inl Null_dereference
      else Inr (Some (''https://www.baidu.com'', [fst (send_fields ask form_fields)])))"

lemma pull_n_0 [simp]: "pull_n cb sizes k 0 b = ([], b)"
  by (subst pull_n.simps) simp

section \<open>A callback that continues delivers the buffer\<close>

text \<open>What is left of the buffer comes out whole, whatever the pieces, and the index is back at the start.\<close>

lemma form_pull:
  assumes "\<forall>k. 0 < sizes k"
  shows "i < length t \<Longrightarrow> pull_n qurl_http_app_r_form_cb sizes k (length t - i) \<lparr>buf_ptr = t, r_index = i\<rparr> =
    (drop i t, \<lparr>buf_ptr = t, r_index = 0\<rparr>)"
proof (induction "length t - i" arbitrary: i k rule: less_induct)
  case less
  define n where "n = min (sizes k) (length t - i)"
  have n: "0 < n" "i + n \<le> length t" using assms less.prems by (auto simp: n_def)
  have "nat (min (int n) (int (length t) - int i)) = n" using n by linarith
  then have piece: "qurl_http_app_r_form_cb (int n) \<lparr>buf_ptr = t, r_index = i\<rparr> =
      (take n (drop i t), \<lparr>buf_ptr = t, r_index = (if i + n \<ge> length t then 0 else i + n)\<rparr>)"
    using n by (simp add: qurl_http_app_r_form_cb_def Let_def)
  have ne: "take n (drop i t) \<noteq> []" "length (take n (drop i t)) = n" using n by auto
  show ?case
  proof (cases "i + n = length t")
    case True
    then have left: "length t - i = n" "min (sizes k) n = n" using n_def by auto
    show ?thesis
      unfolding left(1) using n True piece ne by (subst pull_n.simps) (simp add: left(2))
  next
    case False
    then have lt: "i + n < length t" using n by simp
    then have "pull_n qurl_http_app_r_form_cb sizes (Suc k) (length t - (i + n)) \<lparr>buf_ptr = t, r_index = i + n\<rparr> =
        (drop (i + n) t, \<lparr>buf_ptr = t, r_index = 0\<rparr>)"
      using n by (intro less.hyps) simp_all
    moreover have "length t - i - n = length t - (i + n)" by simp
    ultimately show ?thesis
      using piece ne lt less.prems drop_split [of i t n]
      by (subst pull_n.simps) (simp add: add.commute flip: n_def)
  qed
qed

definition form_texts :: "(string \<times> string \<times> string) list" where
  "form_texts = [(''test1'', ''file1'', ''this is test1''), (''test2'', ''file2'', ''this is test2''), (''test3'', ''file3'', ''this is test3'')]"

lemma form_buffer_text: "form_buffer = \<lparr>buf_ptr = ''this is test3'', r_index = 0\<rparr>"
  by (simp add: form_buffer_def)

text \<open>A transfer leaves the fields as they were, so the next one can send them again.\<close>

lemma send_form_fields:
  assumes "\<forall>k. 0 < ask k"
  shows "send_fields ask form_fields = (form_texts, form_fields)"
  using form_pull [OF assms, of 0 "''this is test3''" 0]
  by (simp add: form_fields_def form_buffer_text form_texts_def g_form_data2_def)

text \<open>The form goes out complete, whatever pieces the library asks the callback for, and it goes out twice: the
  callback rewinds its buffer after the last byte, so that the second transfer of the example sends
  the same three fields as the first.\<close>

theorem form_sent_twice:
  assumes "mem_ok env" "\<forall>k. 0 < ask1 k" "\<forall>k. 0 < ask2 k"
  shows "qurl_http_app_post_form env ask1 ask2 = Inr (''http://httpbin.org/post'', [form_texts, form_texts])"
  using assms by (simp add: qurl_http_app_post_form_def send_form_fields)

definition ex_upload :: upload_env where
  "ex_upload = \<lparr>core_created = True, head_ask = (\<lambda>k. 2048), body_ask = (\<lambda>k. 2048), perform_ok = True, mem_ok = True\<rparr>"

theorem form_sent_twice_witness:
  "qurl_http_app_post_form ex_upload (\<lambda>k. 4) (\<lambda>k. k + 1) = Inr (''http://httpbin.org/post'', [form_texts, form_texts])"
  by (rule form_sent_twice) (simp_all add: ex_upload_def)

text \<open>The other form example sends the same fields once, if one of ten looks finds the network.\<close>

lemma wait_registered_iff: "wait_registered reg i n \<longleftrightarrow> (\<exists>j<n. reg (i + j))"
proof (induction n arbitrary: i)
  case 0
  then show ?case by simp
next
  case (Suc n)
  show ?case
    by (auto simp: Suc.IH less_Suc_eq_0_disj)
qed

lemma form_demo_sends:
  assumes "mem_ok env" "\<forall>k. 0 < ask k"
  shows "http_post_form_demo reg env ask =
    Inr (if \<exists>j<10. reg j then Some (''https://www.baidu.com'', [form_texts]) else None)"
  using assms wait_registered_iff [of reg 0 10] by (simp add: http_post_form_demo_def send_form_fields)

section \<open>Put sends head and body exchanged\<close>

text \<open>A buffer that is asked for more than it holds: the first call empties it, the second gets nothing.\<close>

lemma cb_whole:
  assumes "t \<noteq> []" "0 < m"
  shows "qurl_http_app_r_body_cb (int m) \<lparr>buf_ptr = t, r_index = 0\<rparr> =
      (take m t, \<lparr>buf_ptr = t, r_index = min m (length t)\<rparr>)"
    and "qurl_http_app_r_raw_head_cb (int m) \<lparr>buf_ptr = t, r_index = 0\<rparr> =
      (take m t, \<lparr>buf_ptr = t, r_index = min m (length t)\<rparr>)"
  using assms by (auto simp: qurl_http_app_r_body_cb_def qurl_http_app_r_raw_head_cb_def Let_def min_def)

lemma cb_empty:
  "fst (qurl_http_app_r_body_cb m \<lparr>buf_ptr = t, r_index = length t\<rparr>) = []"
  "fst (qurl_http_app_r_raw_head_cb m \<lparr>buf_ptr = t, r_index = length t\<rparr>) = []"
  by (auto simp: qurl_http_app_r_body_cb_def qurl_http_app_r_raw_head_cb_def Let_def)

lemma pull_once:
  assumes whole: "\<forall>m>0. cb (int m) \<lparr>buf_ptr = t, r_index = 0\<rparr> = (take m t, \<lparr>buf_ptr = t, r_index = min m (length t)\<rparr>)"
    and empty: "\<forall>m. fst (cb m \<lparr>buf_ptr = t, r_index = length t\<rparr>) = []"
    and "t \<noteq> []" "0 < n" "n \<le> sizes 0"
  shows "fst (pull_n cb sizes 0 n \<lparr>buf_ptr = t, r_index = 0\<rparr>) = take n t"
proof -
  have ask: "min (sizes 0) n = n" using assms(5) by simp
  have "fst (pull_n cb sizes 1 (n - length (take n t)) \<lparr>buf_ptr = t, r_index = min n (length t)\<rparr>) = []"
  proof (cases "n \<le> length t")
    case True
    then show ?thesis by simp
  next
    case False
    then have "min n (length t) = length t" by simp
    moreover obtain b1 where "cb (int (min (sizes 1) (n - length t))) \<lparr>buf_ptr = t, r_index = length t\<rparr> = ([], b1)"
      using empty by (metis prod.collapse)
    ultimately show ?thesis using False by (subst pull_n.simps) simp
  qed
  moreover have "take n t \<noteq> []" using assms(3,4) by simp
  ultimately show ?thesis
    using whole assms(4) ask by (subst pull_n.simps) (auto split: prod.splits)
qed

text \<open>The put example exchanges head and body. With a library that asks for all it announced, the request has
  the body text where its head should be, and as body the first bytes of the head text, cut to the
  length of the body.\<close>

theorem put_exchanges_head_and_body:
  assumes "core_created env" "perform_ok env"
    and "length put_head_data \<le> head_ask env 0" "length put_body_data \<le> body_ask env 0"
  shows "\<exists>rq. http_put_demo failure env False = (0, Some rq, True) \<and>
    pr_head rq = put_body_data \<and> pr_body rq = take (length put_body_data) put_head_data"
proof -
  have ne: "put_head_data \<noteq> []" "put_body_data \<noteq> []" "length put_body_data \<le> length put_head_data"
    by (simp_all add: put_head_data_def put_body_data_def crlf_def)
  have "fst (pull_n qurl_http_app_r_raw_head_cb (head_ask env) 0 (length put_head_data) \<lparr>buf_ptr = put_body_data, r_index = 0\<rparr>)
      = take (length put_head_data) put_body_data"
    using ne assms(3) by (intro pull_once) (simp_all add: cb_whole cb_empty)
  moreover have "fst (pull_n qurl_http_app_r_body_cb (body_ask env) 0 (length put_body_data) \<lparr>buf_ptr = put_head_data, r_index = 0\<rparr>)
      = take (length put_body_data) put_head_data"
    using ne assms(4) by (intro pull_once) (simp_all add: cb_whole cb_empty)
  ultimately show ?thesis
    using assms(1,2) ne(3) by (simp add: http_put_demo_def)
qed

theorem put_exchanges_head_and_body_witness:
  "\<exists>rq. http_put_demo 1 ex_upload False = (0, Some rq, True) \<and>
    pr_head rq = put_body_data \<and> pr_body rq = take (length put_body_data) put_head_data"
  by (rule put_exchanges_head_and_body)
    (simp_all add: ex_upload_def put_head_data_def put_body_data_def crlf_def)

end
