(* ===== verification/Mqtt_Demo.thy ===== *)
theory Mqtt_Demo
  imports UniRTOS_Prelude
begin

text \<open>
  The MQTT client, \<^verbatim>\<open>network/network_protocol/mqtt/demo/mqtt_demo.c\<close>.

  State: the global context pointer \<open>g_mqtt_ctx\<close> (absent, live or freed) and the number of live
  blocks the MQTT library handed over with its events (\<open>mqtt_state\<close>). Operations: set-up and release
  of the context, one function per request, the event handler, the handler of incoming messages,
  and the task that opens the client and then waits for events.

  The library (\<^verbatim>\<open>qcm_mqtt_*\<close>) is not part of the repository: its constants are \<open>mqtt_api\<close>, its
  answers during one event \<open>mqtt_env\<close>.
\<close>

section \<open>Data\<close>

definition MQTT_DEMO_KEEP_ALIVE :: int where "MQTT_DEMO_KEEP_ALIVE = 60"
definition MQTT_DEMO_DELIVERY_TIME :: int where "MQTT_DEMO_DELIVERY_TIME = 5"
definition MQTT_DEMO_DELIVERY_CNT :: int where "MQTT_DEMO_DELIVERY_CNT = 3"
definition MQTT_DEMO_SERVER_ADDR :: string where "MQTT_DEMO_SERVER_ADDR = ''broker.emqx.io''"
definition MQTT_DEMO_SERVER_PORT :: int where "MQTT_DEMO_SERVER_PORT = 1883"
definition MQTTS_DEMO_SERVER_PORT :: int where "MQTTS_DEMO_SERVER_PORT = 8883"
definition MQTT_DEMO_CLIENTID :: string where "MQTT_DEMO_CLIENTID = ''mqttx_12345678''"
definition MQTT_DEMO_USERNAME :: string where "MQTT_DEMO_USERNAME = ''''"
definition MQTT_DEMO_PASSWARD :: string where "MQTT_DEMO_PASSWARD = ''''"
definition MQTT_DEMO_TOPIC1 :: string where "MQTT_DEMO_TOPIC1 = ''mqtt_test1''"
definition MQTT_DEMO_TOPIC2 :: string where "MQTT_DEMO_TOPIC2 = ''mqtt_test2''"
definition MQTT_DEMO_TOPIC3 :: string where "MQTT_DEMO_TOPIC3 = ''mqtt_test_close''"
definition MQTT_DEMO_TEST_CONTENT :: string where "MQTT_DEMO_TEST_CONTENT = ''Hello Welcome to test mqtt!''"

text \<open>The two switches of the source, \<^verbatim>\<open>MQTT_DEMO_TEST_MQTTS\<close> and \<^verbatim>\<open>MQTT_DEMO_TEST_URC_ENABLE\<close>.\<close>

definition MQTT_DEMO_TEST_MQTTS :: bool where "MQTT_DEMO_TEST_MQTTS = True"
definition MQTT_DEMO_TEST_URC_ENABLE :: bool where "MQTT_DEMO_TEST_URC_ENABLE = True"

record mqtt_demo_ctx =
  client_id :: u8
  port :: int
  msg_id :: int
  msgq :: bool                     \<comment> \<open>the queue exists\<close>
  ssl_config :: bool               \<comment> \<open>the TLS configuration is allocated\<close>

datatype ctx_ptr = Ctx_null | Ctx_live mqtt_demo_ctx | Ctx_freed

record mqtt_state =
  g_mqtt_ctx :: ctx_ptr
  live :: nat

record mqtt_option =
  kalive_time :: int
  delivery_time :: int
  delivery_cnt :: int
  clean_session :: bool
  opt_ssl :: bool

datatype mqtt_event =
    OPEN_EVENT | CONNECT_EVENT | PUBLISH_EVENT | SUBSCRIBE_EVENT | SUBACK_EVENT | UNSUBSCRIBE_EVENT
  | UNSUBACK_EVENT | NEW_MESSAGE_EVENT | STATE_EVENT | DISCONNECT_EVENT | CLOSE_EVENT | OTHER_EVENT

text \<open>\<^verbatim>\<open>resp_ptr->data\<close>, seen as the structure the event's handler casts it to.\<close>

record mqtt_data =
  send_ok :: bool
  send_msg_id :: int
  retry_count :: int
  qoss :: bool                     \<comment> \<open>a block of granted qualities of service\<close>
  close_cause :: int
  store_id :: int

record mqtt_resp =
  rs_client_id :: u8
  rs_msg_id :: int
  rs_result :: int
  rs_code :: int                   \<comment> \<open>\<^verbatim>\<open>pocotrol_code\<close>\<close>
  rs_data :: "mqtt_data option"

datatype client_state = STATE_INIT | STATE_MQTT_CONNECTED | STATE_TCP_CLOSING | STATE_MQTT_DISCONNECTING
  | STATE_TCP_CLOSED | STATE_OTHER

record mqtt_api =
  RES_OK :: int
  MAX_TOPIC_NUM :: nat
  vtls :: bool                     \<comment> \<open>\<^verbatim>\<open>CONFIG_QCM_VTLS_FUNC\<close>\<close>

record mqtt_env =
  connect_ret :: int
  state_ret :: int                 \<comment> \<open>\<^verbatim>\<open>qcm_mqtt_client_get_state_info\<close> in \<^verbatim>\<open>subscribe\<close>\<close>
  state_then :: client_state
  read_message :: "(int \<times> string \<times> string) option"    \<comment> \<open>identifier, topic, payload\<close>
  state_after :: client_state      \<comment> \<open>seen by the loop after the event\<close>

record open_env =
  default_ok :: bool
  ctx_alloc :: bool
  msgq_ok :: bool
  ssl_alloc :: bool
  new_client :: u8
  init_ret :: int
  open_ret :: int

datatype mqtt_call =
    Mqtt_open u8 string int
  | Mqtt_connect u8 string string string
  | Mqtt_publish u8 int string string
  | Mqtt_subscribe u8 int "string list"
  | Mqtt_unsubscribe u8 int "string list"
  | Mqtt_disconnect u8
  | Mqtt_close u8
  | Urc string nat                 \<comment> \<open>buffer and length handed to the report\<close>

type_synonym mqtt_result = "(mqtt_state \<times> mqtt_call list) c_result"

text \<open>Reading through the global pointer.\<close>

definition with_ctx :: "mqtt_state \<Rightarrow> (mqtt_demo_ctx \<Rightarrow> 'a c_result) \<Rightarrow> 'a c_result" where
  "with_ctx s f = (case g_mqtt_ctx s of
     Ctx_null \<Rightarrow> Inl Null_dereference | Ctx_freed \<Rightarrow> Inl Use_after_free | Ctx_live c \<Rightarrow> f c)"

section \<open>The context\<close>

text \<open>The pointer is used without a test and keeps its value after the block is freed.\<close>

definition unir_mqtt_demo_ctx_free :: "mqtt_state \<Rightarrow> mqtt_state c_result" where
  "unir_mqtt_demo_ctx_free s = with_ctx s (\<lambda>c. Inr (s\<lparr>g_mqtt_ctx := Ctx_freed\<rparr>))"

definition zero_ctx :: mqtt_demo_ctx where
  "zero_ctx = \<lparr>client_id = 0, port = 0, msg_id = 0, msgq = False, ssl_config = False\<rparr>"

definition unir_mqtt_demo_ctx_init ::
  "mqtt_api \<Rightarrow> open_env \<Rightarrow> mqtt_state \<Rightarrow> (int \<times> mqtt_state \<times> mqtt_option option) c_result" where
  "unir_mqtt_demo_ctx_init api env s =
     (case g_mqtt_ctx s of
        Ctx_freed \<Rightarrow> Inl Use_after_free
      | _ \<Rightarrow>
          if g_mqtt_ctx s = Ctx_null \<and> \<not> ctx_alloc env then Inr (-1, s, None)
          else if \<not> msgq_ok env then Inr (-1, s\<lparr>g_mqtt_ctx := Ctx_live zero_ctx\<rparr>, None)
          else
            let c = zero_ctx\<lparr>msgq := True, msg_id := 1, port := MQTT_DEMO_SERVER_PORT\<rparr>;
                opt = \<lparr>kalive_time = MQTT_DEMO_KEEP_ALIVE, delivery_time = MQTT_DEMO_DELIVERY_TIME,
                       delivery_cnt = MQTT_DEMO_DELIVERY_CNT, clean_session = True, opt_ssl = False\<rparr> in
            if vtls api \<and> MQTT_DEMO_TEST_MQTTS then
              (if \<not> ssl_alloc env then Inr (-1, s\<lparr>g_mqtt_ctx := Ctx_live c\<rparr>, Some (opt\<lparr>opt_ssl := True\<rparr>))
               else Inr (0, s\<lparr>g_mqtt_ctx := Ctx_live (c\<lparr>ssl_config := True, port := MQTTS_DEMO_SERVER_PORT\<rparr>)\<rparr>,
                         Some (opt\<lparr>opt_ssl := True\<rparr>)))
            else Inr (0, s\<lparr>g_mqtt_ctx := Ctx_live c\<rparr>, Some opt))"

definition unir_mqtt_demo_open :: "mqtt_api \<Rightarrow> open_env \<Rightarrow> mqtt_state \<Rightarrow> (int \<times> mqtt_state \<times> mqtt_call list) c_result" where
  "unir_mqtt_demo_open api env s =
     (if \<not> default_ok env then Inr (-1, s, [])
      else c_bind (unir_mqtt_demo_ctx_init api env s) (\<lambda>(ret, s1, opt).
        if ret \<noteq> 0 then Inr (-1, s1, [])
        else with_ctx s1 (\<lambda>c0.
          let c = c0\<lparr>client_id := new_client env\<rparr>; s2 = s1\<lparr>g_mqtt_ctx := Ctx_live c\<rparr> in
          if init_ret env \<noteq> RES_OK api then Inr (-1, s2, [])
          else
            let call = Mqtt_open (client_id c) MQTT_DEMO_SERVER_ADDR (port c) in
            if open_ret env \<noteq> RES_OK api then Inr (-1, s2, [call]) else Inr (0, s2, [call]))))"

text \<open>The callback the library calls from its own task: the event goes to the queue of the task,
  unless the queue is full; an event without data is dropped.\<close>

definition unir_mqtt_demo_event_cb ::
  "bool \<Rightarrow> mqtt_event \<Rightarrow> mqtt_resp option \<Rightarrow> mqtt_state \<Rightarrow> (mqtt_event \<times> mqtt_resp) list \<Rightarrow>
   (mqtt_event \<times> mqtt_resp) list c_result" where
  "unir_mqtt_demo_event_cb release_ok event_id evt_param s queue =
     (case evt_param of
        None \<Rightarrow> Inr queue
      | Some r \<Rightarrow> with_ctx s (\<lambda>c. Inr (if release_ok then queue @ [(event_id, r)] else queue)))"

section \<open>Requests\<close>

definition unir_mqtt_demo_connect :: "mqtt_api \<Rightarrow> mqtt_env \<Rightarrow> mqtt_state \<Rightarrow> (int \<times> mqtt_call list) c_result" where
  "unir_mqtt_demo_connect api env s = with_ctx s (\<lambda>c.
     Inr (if connect_ret env \<noteq> RES_OK api then -1 else 0,
          [Mqtt_connect (client_id c) MQTT_DEMO_CLIENTID MQTT_DEMO_USERNAME MQTT_DEMO_PASSWARD]))"

text \<open>\<^verbatim>\<open>g_mqtt_ctx->msg_id++\<close>\<close>

definition next_id :: "mqtt_demo_ctx \<Rightarrow> mqtt_state \<Rightarrow> mqtt_state" where
  "next_id c s = s\<lparr>g_mqtt_ctx := Ctx_live (c\<lparr>msg_id := msg_id c + 1\<rparr>)\<rparr>"

definition unir_mqtt_demo_publish :: "mqtt_state \<Rightarrow> mqtt_result" where
  "unir_mqtt_demo_publish s = with_ctx s (\<lambda>c.
     Inr (next_id c s, [Mqtt_publish (client_id c) (msg_id c) MQTT_DEMO_TOPIC1 MQTT_DEMO_TEST_CONTENT]))"

text \<open>Three topics are filled in and \<^verbatim>\<open>topic_cnt + 1\<close>, that is four, entries of the table are freed.\<close>

definition unir_mqtt_demo_subscribe :: "mqtt_api \<Rightarrow> mqtt_env \<Rightarrow> mqtt_state \<Rightarrow> mqtt_result" where
  "unir_mqtt_demo_subscribe api env s = with_ctx s (\<lambda>c.
     if state_ret env \<noteq> RES_OK api \<or> state_then env \<noteq> STATE_MQTT_CONNECTED then Inr (s, [])
     else if MAX_TOPIC_NUM api < 4 then Inl Out_of_bounds
     else Inr (next_id c s,
       [Mqtt_subscribe (client_id c) (msg_id c) [MQTT_DEMO_TOPIC1, MQTT_DEMO_TOPIC2, MQTT_DEMO_TOPIC3]]))"

text \<open>Two topics are prepared, but \<^verbatim>\<open>topic_cnt\<close> is still 1 when the request is made.\<close>

definition unir_mqtt_demo_unsubscribe :: "mqtt_state \<Rightarrow> mqtt_result" where
  "unir_mqtt_demo_unsubscribe s = with_ctx s (\<lambda>c.
     let un_sub_topic = [MQTT_DEMO_TOPIC1, MQTT_DEMO_TOPIC2]; topic_cnt = 1 in
     Inr (next_id c s, [Mqtt_unsubscribe (client_id c) (msg_id c) (take topic_cnt un_sub_topic)]))"

definition unir_mqtt_demo_disconnect :: "mqtt_state \<Rightarrow> mqtt_result" where
  "unir_mqtt_demo_disconnect s = with_ctx s (\<lambda>c. Inr (s, [Mqtt_disconnect (client_id c)]))"

definition unir_mqtt_demo_close :: "mqtt_state \<Rightarrow> mqtt_result" where
  "unir_mqtt_demo_close s = with_ctx s (\<lambda>c. Inr (s, [Mqtt_close (client_id c)]))"

section \<open>Events\<close>

text \<open>\<^verbatim>\<open>%x\<close> prints an \<^verbatim>\<open>int\<close> as an unsigned 32-bit number.\<close>

definition fmt_x32 :: "int \<Rightarrow> string" where
  "fmt_x32 i = fmt_x (nat (i mod 2 ^ 32))"

text \<open>The report line of an event: what \<^verbatim>\<open>snprintf\<close> is asked to print, if anything. A publish event
  reads its data without a test.\<close>

definition report_text :: "mqtt_api \<Rightarrow> mqtt_event \<Rightarrow> mqtt_resp \<Rightarrow> string option c_result" where
  "report_text api ev r =
     (let cid = fmt_d (uint (rs_client_id r)); ok = (rs_result r = RES_OK api) in
      case ev of
        OPEN_EVENT \<Rightarrow> Inr (Some (''+QMTOPEN: '' @ cid @ '','' @ fmt_x32 (rs_result r)))
      | CONNECT_EVENT \<Rightarrow>
          Inr (Some (if ok then ''+QMTCONN: '' @ cid @ '','' @ fmt_d 0 @ '','' @ fmt_d (rs_code r)
                     else ''+QMTCONN: '' @ cid @ '','' @ fmt_x32 (rs_result r)))
      | PUBLISH_EVENT \<Rightarrow>
          (case rs_data r of
             None \<Rightarrow> Inl Null_dereference
           | Some d \<Rightarrow> Inr (if send_ok d then Some (''+QMTPUB: '' @ cid @ '','' @ fmt_d (send_msg_id d) @ '','' @ fmt_d 0)
                            else None))
      | SUBSCRIBE_EVENT \<Rightarrow>
          Inr (Some (case rs_data r of
             Some d \<Rightarrow> if send_ok d then ''+QMTSUB: '' @ cid @ '','' @ fmt_d (rs_msg_id r) @ '','' @ fmt_d (retry_count d)
                       else ''+QMTSUB: '' @ cid @ '','' @ fmt_d (rs_msg_id r)
           | None \<Rightarrow> ''+QMTSUB: '' @ cid @ '','' @ fmt_d (rs_msg_id r)))
      | SUBACK_EVENT \<Rightarrow>
          Inr (if ok then Some (''+QMTSUB: '' @ cid @ '','' @ fmt_d (rs_msg_id r) @ '','' @ fmt_d (rs_result r)) else None)
      | UNSUBSCRIBE_EVENT \<Rightarrow>
          Inr (Some (case rs_data r of
             Some d \<Rightarrow> if send_ok d then ''+QMTUNS: '' @ cid @ '','' @ fmt_d (rs_msg_id r) @ '','' @ fmt_d (retry_count d)
                       else ''+QMTUNS: '' @ cid @ '','' @ fmt_d (rs_result r)
           | None \<Rightarrow> ''+QMTUNS: '' @ cid @ '','' @ fmt_d (rs_result r)))
      | UNSUBACK_EVENT \<Rightarrow> Inr (if ok then Some (''+QMTUNS: '' @ cid @ '','' @ fmt_d (rs_result r)) else None)
      | STATE_EVENT \<Rightarrow>
          Inr (case rs_data r of None \<Rightarrow> None | Some d \<Rightarrow> Some (''+QMTSTAT: '' @ cid @ '','' @ fmt_d (close_cause d)))
      | DISCONNECT_EVENT \<Rightarrow> Inr (Some (''+QMTDISC: '' @ cid @ '','' @ fmt_x32 (rs_code r)))
      | CLOSE_EVENT \<Rightarrow>
          Inr (Some (if ok then ''+QMTCLOSE: '' @ cid @ '','' @ fmt_d 0
                     else ''+QMTCLOSE: '' @ cid @ '','' @ fmt_x32 (rs_result r)))
      | _ \<Rightarrow> Inr None)"

text \<open>The report carries the buffer of 128 bytes and the value \<^verbatim>\<open>snprintf\<close> returned, which is the length
  of the whole text.\<close>

definition report_calls :: "string option \<Rightarrow> mqtt_call list" where
  "report_calls t =
     (case t of
        None \<Rightarrow> []
      | Some x \<Rightarrow> if x \<noteq> [] \<and> MQTT_DEMO_TEST_URC_ENABLE then [Urc (snprintf_buf 128 x) (length x)] else [])"

text \<open>What an event makes the client do next.\<close>

definition follow_up :: "mqtt_api \<Rightarrow> mqtt_env \<Rightarrow> mqtt_event \<Rightarrow> mqtt_resp \<Rightarrow> mqtt_state \<Rightarrow> (int \<times> mqtt_state \<times> mqtt_call list) c_result" where
  "follow_up api env ev r s =
     (if rs_result r \<noteq> RES_OK api then Inr (0, s, [])
      else case ev of
        OPEN_EVENT \<Rightarrow> c_bind (unir_mqtt_demo_connect api env s) (\<lambda>(ret, calls). Inr (ret, s, calls))
      | CONNECT_EVENT \<Rightarrow> c_bind (unir_mqtt_demo_subscribe api env s) (\<lambda>(s1, calls). Inr (0, s1, calls))
      | SUBACK_EVENT \<Rightarrow> c_bind (unir_mqtt_demo_publish s) (\<lambda>(s1, calls). Inr (0, s1, calls))
      | UNSUBACK_EVENT \<Rightarrow> c_bind (unir_mqtt_demo_disconnect s) (\<lambda>(s1, calls). Inr (0, s1, calls))
      | _ \<Rightarrow> Inr (0, s, []))"

text \<open>Blocks of an event: the response, its data, and for a subscription acknowledgement the list of
  qualities; the last is freed on success only.\<close>

definition freed_blocks :: "mqtt_api \<Rightarrow> mqtt_event \<Rightarrow> mqtt_resp \<Rightarrow> nat" where
  "freed_blocks api ev r =
     (case rs_data r of
        None \<Rightarrow> 1
      | Some d \<Rightarrow> 2 + of_bool (ev = SUBACK_EVENT \<and> rs_result r = RES_OK api \<and> qoss d))"

definition unir_mqtt_demo_event_handle ::
  "mqtt_api \<Rightarrow> mqtt_env \<Rightarrow> mqtt_event \<Rightarrow> mqtt_resp \<Rightarrow> mqtt_state \<Rightarrow> (int \<times> mqtt_state \<times> mqtt_call list) c_result" where
  "unir_mqtt_demo_event_handle api env ev r s =
     c_bind (report_text api ev r) (\<lambda>t.
     c_bind (follow_up api env ev r s) (\<lambda>(ret, s1, calls).
       Inr (ret, s1\<lparr>live := live s1 - freed_blocks api ev r\<rparr>, calls @ report_calls t)))"

text \<open>\<^verbatim>\<open>memcmp\<close> of the first bytes of the topic, which may be shorter.\<close>

definition topic_matches :: "string \<Rightarrow> bool c_result" where
  "topic_matches topic =
     (let n = length MQTT_DEMO_TOPIC1 in
      if length topic < n then Inl Out_of_bounds else Inr (take n topic = MQTT_DEMO_TOPIC1))"

definition unir_mqtt_demo_recv_new_message ::
  "mqtt_env \<Rightarrow> mqtt_resp \<Rightarrow> mqtt_state \<Rightarrow> mqtt_result" where
  "unir_mqtt_demo_recv_new_message env r s =
     (case rs_data r of
        None \<Rightarrow> Inl Null_dereference
      | Some d \<Rightarrow>
          c_bind
            (case read_message env of
               None \<Rightarrow> Inr (s, [])
             | Some (mid, topic, payload) \<Rightarrow>
                 let urc_buf = snprintf_buf 128 (''+QMTRECV: '' @ fmt_d (uint (rs_client_id r)) @ '','' @ fmt_d mid @ '','' @
                       [CHR 34] @ topic @ [CHR 34] @ '','' @ fmt_d (int (length payload)) @ '','' @ [CHR 34]);
                     urcs = (if MQTT_DEMO_TEST_URC_ENABLE
                             then [Urc urc_buf (length urc_buf), Urc payload (length payload)] else []) in
                 c_bind (topic_matches topic) (\<lambda>hit.
                   if hit then c_bind (unir_mqtt_demo_unsubscribe s) (\<lambda>(s1, calls). Inr (s1, urcs @ calls))
                   else Inr (s, urcs)))
            (\<lambda>(s1, calls). Inr (s1\<lparr>live := live s1 - 2\<rparr>, calls)))"

section \<open>The task\<close>

definition leave :: "mqtt_state \<Rightarrow> mqtt_call list \<Rightarrow> (mqtt_state, mqtt_call) outcome" where
  "leave s calls = (case unir_mqtt_demo_ctx_free s of Inl u \<Rightarrow> Undefined u | Inr s1 \<Rightarrow> Exit s1 calls)"

text \<open>The tests at the end of each round: close, leave.\<close>

definition round_end :: "mqtt_env \<Rightarrow> int \<Rightarrow> mqtt_state \<Rightarrow> mqtt_call list \<Rightarrow> (mqtt_state, mqtt_call) outcome" where
  "round_end env ret s calls =
     (case (if state_after env = STATE_TCP_CLOSING \<or> state_after env = STATE_MQTT_DISCONNECTING
            then unir_mqtt_demo_close s else Inr (s, [])) of
        Inl u \<Rightarrow> Undefined u
      | Inr (s1, closing) \<Rightarrow>
          if state_after env = STATE_TCP_CLOSED \<or> state_after env = STATE_INIT then leave s1 (calls @ closing)
          else if ret \<noteq> 0 then leave s1 (calls @ closing)
          else Continue s1 (calls @ closing))"

fun mqtt_dispatch :: "mqtt_api \<Rightarrow> mqtt_env \<Rightarrow> mqtt_event \<Rightarrow> mqtt_resp \<Rightarrow> mqtt_state \<Rightarrow> (int \<times> mqtt_state \<times> mqtt_call list) c_result" where
  "mqtt_dispatch api env NEW_MESSAGE_EVENT r s =
     c_bind (unir_mqtt_demo_recv_new_message env r s) (\<lambda>(s1, calls). Inr (0, s1, calls))"
| "mqtt_dispatch api env OTHER_EVENT r s = Inr (0, s, [])"
| "mqtt_dispatch api env ev r s = unir_mqtt_demo_event_handle api env ev r s"

text \<open>An event arrives with the blocks it owns.\<close>

definition blocks_of :: "mqtt_resp \<Rightarrow> nat" where
  "blocks_of r = (case rs_data r of None \<Rightarrow> 1 | Some d \<Rightarrow> 2 + of_bool (qoss d))"

fun mqtt_step :: "mqtt_api \<Rightarrow> mqtt_state \<Rightarrow> mqtt_env \<times> mqtt_event \<times> mqtt_resp \<Rightarrow> (mqtt_state, mqtt_call) outcome" where
  "mqtt_step api s (env, ev, r) =
     (case mqtt_dispatch api env ev r (s\<lparr>live := live s + blocks_of r\<rparr>) of
        Inl u \<Rightarrow> Undefined u
      | Inr (ret, s1, calls) \<Rightarrow> round_end env ret s1 calls)"

definition unir_mqtt_demo_task ::
  "mqtt_api \<Rightarrow> open_env \<Rightarrow> (mqtt_env \<times> mqtt_event \<times> mqtt_resp) list \<Rightarrow> mqtt_state \<Rightarrow> (mqtt_state, mqtt_call) outcome" where
  "unir_mqtt_demo_task api oenv evs s =
     (case unir_mqtt_demo_open api oenv s of
        Inl u \<Rightarrow> Undefined u
      | Inr (ret, s1, calls) \<Rightarrow>
          if ret \<noteq> 0 then leave s1 calls else emit calls (run_loop (mqtt_step api) s1 evs))"

section \<open>Contract of the task\<close>

definition mqtt_inv :: "mqtt_state \<Rightarrow> bool" where
  "mqtt_inv s \<longleftrightarrow> (\<exists>c. g_mqtt_ctx s = Ctx_live c \<and> msgq c)"

definition mqtt_fin :: "mqtt_state \<Rightarrow> bool" where
  "mqtt_fin s \<longleftrightarrow> g_mqtt_ctx s = Ctx_freed"

text \<open>What the library has to keep: publish and message events carry data, a received topic is at
  least as long as the one it is compared with, and the topic table has room for four entries.\<close>

fun mqtt_event_ok :: "mqtt_api \<Rightarrow> mqtt_env \<times> mqtt_event \<times> mqtt_resp \<Rightarrow> bool" where
  "mqtt_event_ok api (env, ev, r) \<longleftrightarrow>
     4 \<le> MAX_TOPIC_NUM api \<and>
     (ev = PUBLISH_EVENT \<or> ev = NEW_MESSAGE_EVENT \<longrightarrow> rs_data r \<noteq> None) \<and>
     (case read_message env of None \<Rightarrow> True | Some (mid, topic, payload) \<Rightarrow> length MQTT_DEMO_TOPIC1 \<le> length topic)"

text \<open>The identifiers of the requests among the calls.\<close>

fun request_id :: "mqtt_call \<Rightarrow> int list" where
  "request_id (Mqtt_publish c i t p) = [i]"
| "request_id (Mqtt_subscribe c i ts) = [i]"
| "request_id (Mqtt_unsubscribe c i ts) = [i]"
| "request_id _ = []"

definition request_ids :: "mqtt_call list \<Rightarrow> int list" where
  "request_ids calls = concat (map request_id calls)"

lemma request_ids_simps [simp]:
  "request_ids [] = []" "request_ids (c # cs) = request_id c @ request_ids cs"
  "request_ids (xs @ ys) = request_ids xs @ request_ids ys"
  by (simp_all add: request_ids_def)

lemma request_ids_report [simp]: "request_ids (report_calls t) = []"
  by (simp add: report_calls_def split: option.split)

text \<open>A state whose context was \<open>c\<close> and is now \<open>c'\<close>, having issued the identifiers in between.\<close>

definition advanced :: "mqtt_demo_ctx \<Rightarrow> mqtt_state \<Rightarrow> mqtt_call list \<Rightarrow> bool" where
  "advanced c s calls \<longleftrightarrow> (\<exists>c'. g_mqtt_ctx s = Ctx_live c' \<and> msgq c' = msgq c \<and>
     client_id c' = client_id c \<and> msg_id c \<le> msg_id c' \<and> request_ids calls = [msg_id c..msg_id c' - 1])"

lemma advanced_same: "g_mqtt_ctx s = Ctx_live c \<Longrightarrow> request_ids calls = [] \<Longrightarrow> advanced c s calls"
  by (simp add: advanced_def)

lemma advanced_next: "request_ids calls = [msg_id c] \<Longrightarrow> advanced c (next_id c s) calls"
  by (simp add: advanced_def next_id_def)

lemma advanced_live [simp]: "advanced c (s\<lparr>live := n\<rparr>) calls = advanced c s calls"
  by (simp add: advanced_def)

lemma advanced_report [simp]: "advanced c s (calls @ report_calls t) = advanced c s calls"
  by (simp add: advanced_def)

lemma advanced_trans:
  assumes "g_mqtt_ctx s = Ctx_live d" and "advanced c s xs" and "advanced d s' ys"
  shows "advanced c s' (xs @ ys)"
proof -
  from assms(1,2) have d: "msgq d = msgq c" "client_id d = client_id c" "msg_id c \<le> msg_id d"
      "request_ids xs = [msg_id c..msg_id d - 1]"
    by (auto simp: advanced_def)
  from assms(3) obtain e where e: "g_mqtt_ctx s' = Ctx_live e" "msgq e = msgq d" "client_id e = client_id d"
      "msg_id d \<le> msg_id e" "request_ids ys = [msg_id d..msg_id e - 1]"
    by (auto simp: advanced_def)
  have "[msg_id c..msg_id d - 1] @ [msg_id d..msg_id e - 1] = [msg_id c..msg_id e - 1]"
    using upto_split1 [of "msg_id c" "msg_id d" "msg_id e - 1"] d(3) e(4)
    by (cases "msg_id d \<le> msg_id e - 1") (auto simp: not_le)
  with d e show ?thesis by (auto simp: advanced_def)
qed

section \<open>Lemmas on the handlers\<close>

lemmas request_defs = with_ctx_def unir_mqtt_demo_connect_def unir_mqtt_demo_publish_def
  unir_mqtt_demo_subscribe_def unir_mqtt_demo_unsubscribe_def unir_mqtt_demo_disconnect_def
  unir_mqtt_demo_close_def

lemma report_text_defined:
  assumes "ev = PUBLISH_EVENT \<longrightarrow> rs_data r \<noteq> None"
  shows "\<exists>t. report_text api ev r = Inr t"
  using assms by (cases ev) (auto simp: report_text_def Let_def)

lemma follow_up_advances:
  assumes "g_mqtt_ctx s = Ctx_live c" and "4 \<le> MAX_TOPIC_NUM api"
  shows "\<exists>ret s' calls. follow_up api env ev r s = Inr (ret, s', calls) \<and> advanced c s' calls \<and> live s' = live s"
proof -
  have "live (next_id c s) = live s" by (simp add: next_id_def)
  with assms show ?thesis
    by (cases ev) (auto simp: follow_up_def request_defs intro!: advanced_same advanced_next)
qed

lemma recv_advances:
  assumes "g_mqtt_ctx s = Ctx_live c" and "rs_data r \<noteq> None"
    and "\<And>mid topic payload. read_message env = Some (mid, topic, payload) \<Longrightarrow> length MQTT_DEMO_TOPIC1 \<le> length topic"
  shows "\<exists>s' calls. unir_mqtt_demo_recv_new_message env r s = Inr (s', calls) \<and> advanced c s' calls \<and> live s' = live s - 2"
proof (cases "read_message env")
  case None
  with assms(1,2) show ?thesis
    by (auto simp: unir_mqtt_demo_recv_new_message_def intro!: advanced_same)
next
  case (Some m)
  obtain mid topic payload where m: "m = (mid, topic, payload)" by (cases m)
  with Some assms(3) have "length MQTT_DEMO_TOPIC1 \<le> length topic" by blast
  then obtain hit where hit: "topic_matches topic = Inr hit" by (simp add: topic_matches_def)
  have "live (next_id c s) = live s" by (simp add: next_id_def)
  with assms(1,2) Some m hit show ?thesis
    by (auto simp: unir_mqtt_demo_recv_new_message_def Let_def request_defs intro!: advanced_same advanced_next)
qed

lemma dispatch_advances:
  assumes "g_mqtt_ctx s = Ctx_live c" and "mqtt_event_ok api (env, ev, r)"
  shows "\<exists>ret s' calls. mqtt_dispatch api env ev r s = Inr (ret, s', calls) \<and> advanced c s' calls"
proof -
  have "\<exists>ret s' calls. unir_mqtt_demo_event_handle api env ev r s = Inr (ret, s', calls) \<and> advanced c s' calls"
    if "ev \<noteq> NEW_MESSAGE_EVENT"
  proof -
    obtain t where "report_text api ev r = Inr t"
      using report_text_defined [of ev r api] assms(2) by auto
    with follow_up_advances [OF assms(1), of api env ev r] assms(2) show ?thesis
      by (auto simp: unir_mqtt_demo_event_handle_def)
  qed
  moreover have "\<exists>s' calls. unir_mqtt_demo_recv_new_message env r s = Inr (s', calls) \<and> advanced c s' calls"
    if "ev = NEW_MESSAGE_EVENT"
  proof -
    have "length MQTT_DEMO_TOPIC1 \<le> length topic" if "read_message env = Some (mid, topic, payload)" for mid topic payload
      using assms(2) that by simp
    with recv_advances [OF assms(1), of r env] assms(2) \<open>ev = _\<close> show ?thesis by auto
  qed
  ultimately show ?thesis
    using assms(1) by (cases ev) (auto intro: advanced_same)
qed

text \<open>A round either goes on with a live context or frees it.\<close>

lemma step_advances:
  assumes "g_mqtt_ctx s = Ctx_live c" and "mqtt_event_ok api e"
  shows "(\<exists>s' out. mqtt_step api s e = Continue s' out \<and> advanced c s' out) \<or>
    (\<exists>s' out s1. mqtt_step api s e = Exit s' out \<and> mqtt_fin s' \<and> advanced c s1 out)"
proof -
  obtain env ev r where e: "e = (env, ev, r)" by (cases e)
  obtain ret s1 calls where d: "mqtt_dispatch api env ev r (s\<lparr>live := live s + blocks_of r\<rparr>) = Inr (ret, s1, calls)"
      "advanced c s1 calls"
    using dispatch_advances [of "s\<lparr>live := live s + blocks_of r\<rparr>" c api env ev r] assms e by auto
  obtain c1 where c1: "g_mqtt_ctx s1 = Ctx_live c1" using d(2) by (auto simp: advanced_def)
  have closing: "advanced c s1 (calls @ [Mqtt_close k])" for k using d(2) by (simp add: advanced_def)
  show ?thesis
    using d e c1 closing
    by (cases "state_after env"; cases "ret = 0")
      (auto simp: round_end_def leave_def unir_mqtt_demo_ctx_free_def mqtt_fin_def request_defs)
qed

lemma advanced_inv: "advanced c s calls \<Longrightarrow> msgq c \<Longrightarrow> mqtt_inv s"
  by (auto simp: advanced_def mqtt_inv_def)

interpretation mqtt_task: event_loop "mqtt_step api" mqtt_inv mqtt_fin "\<lambda>s. mqtt_event_ok api" for api
proof
  fix s and e :: "mqtt_env \<times> mqtt_event \<times> mqtt_resp"
  assume inv: "mqtt_inv s" and ok: "mqtt_event_ok api e"
  then obtain c where "g_mqtt_ctx s = Ctx_live c" "msgq c" by (auto simp: mqtt_inv_def)
  with step_advances [OF _ ok] advanced_inv
  show "outcome_inv mqtt_inv mqtt_fin (mqtt_step api s e)" by fastforce
qed

section \<open>Properties of the MQTT client\<close>

lemma open_result:
  assumes "g_mqtt_ctx s = Ctx_null" and "default_ok oenv" and "ctx_alloc oenv"
  shows "\<exists>ret s1 calls c. unir_mqtt_demo_open api oenv s = Inr (ret, s1, calls) \<and> g_mqtt_ctx s1 = Ctx_live c \<and>
    request_ids calls = [] \<and> (ret = 0 \<longrightarrow> msgq c \<and> msg_id c = 1)"
  using assms
  by (auto simp: unir_mqtt_demo_open_def unir_mqtt_demo_ctx_init_def with_ctx_def zero_ctx_def Let_def)

lemma leave_live: "g_mqtt_ctx s = Ctx_live c \<Longrightarrow> \<exists>s'. leave s calls = Exit s' calls \<and> g_mqtt_ctx s' = Ctx_freed"
  by (simp add: leave_def unir_mqtt_demo_ctx_free_def with_ctx_def)

lemma all_ok_const: "\<forall>e \<in> set es. P e \<Longrightarrow> all_ok step (\<lambda>s. P) s es"
  by (induction es arbitrary: s) (auto split: outcome.split)

lemma task_outcome:
  assumes "g_mqtt_ctx s = Ctx_null" and "default_ok oenv" and "ctx_alloc oenv"
    and "\<forall>e \<in> set es. mqtt_event_ok api e"
  shows "outcome_inv mqtt_inv mqtt_fin (unir_mqtt_demo_task api oenv es s)"
proof -
  obtain ret s1 calls c where o: "unir_mqtt_demo_open api oenv s = Inr (ret, s1, calls)" "g_mqtt_ctx s1 = Ctx_live c"
      "ret = 0 \<longrightarrow> msgq c"
    using open_result [OF assms(1-3), of api] by blast
  show ?thesis
  proof (cases "ret = 0")
    case False
    with o leave_live [OF o(2), of calls] show ?thesis by (auto simp: unir_mqtt_demo_task_def mqtt_fin_def)
  next
    case True
    with o have "mqtt_inv s1" by (simp add: mqtt_inv_def)
    then have "outcome_inv mqtt_inv mqtt_fin (run_loop (mqtt_step api) s1 es)"
      using all_ok_const [OF assms(4)] by (rule mqtt_task.run_sound)
    with True o(1) show ?thesis by (simp add: unir_mqtt_demo_task_def)
  qed
qed


lemma run_ids:
  assumes "g_mqtt_ctx s = Ctx_live c" and "\<forall>e \<in> set es. mqtt_event_ok api e"
    and "run_loop (mqtt_step api) s es = Continue s' out \<or> run_loop (mqtt_step api) s es = Exit s' out"
  shows "\<exists>s1. advanced c s1 out"
  using assms
proof (induction es arbitrary: s c out)
  case Nil
  then have "advanced c s out" by (intro advanced_same) auto
  then show ?case by blast
next
  case (Cons e es)
  have ok: "mqtt_event_ok api e" using Cons.prems(2) by simp
  from step_advances [OF Cons.prems(1) ok] show ?case
  proof
    assume "\<exists>s' out s1. mqtt_step api s e = Exit s' out \<and> mqtt_fin s' \<and> advanced c s1 out"
    with Cons.prems(3) show ?case by auto
  next
    assume "\<exists>s' out. mqtt_step api s e = Continue s' out \<and> advanced c s' out"
    then obtain s2 os where s2: "mqtt_step api s e = Continue s2 os" "advanced c s2 os" by blast
    then obtain d where d: "g_mqtt_ctx s2 = Ctx_live d" by (auto simp: advanced_def)
    from Cons.prems(3) s2(1) obtain more where m: "out = os @ more"
        "run_loop (mqtt_step api) s2 es = Continue s' more \<or> run_loop (mqtt_step api) s2 es = Exit s' more"
      by (cases "run_loop (mqtt_step api) s2 es") auto
    with Cons.IH [OF d _ m(2)] Cons.prems(2) obtain s3 where "advanced d s3 more" by auto
    with advanced_trans [OF d s2(2)] m(1) show ?case by blast
  qed
qed


text \<open>Numbers of a response as 32-bit integers.\<close>

definition int32 :: "int \<Rightarrow> bool" where
  "int32 i \<longleftrightarrow> - (2 ^ 31) \<le> i \<and> i < 2 ^ 31"

definition resp_int32 :: "mqtt_resp \<Rightarrow> bool" where
  "resp_int32 r \<longleftrightarrow> int32 (rs_msg_id r) \<and> int32 (rs_result r) \<and> int32 (rs_code r) \<and>
     (case rs_data r of None \<Rightarrow> True | Some d \<Rightarrow> int32 (send_msg_id d) \<and> int32 (retry_count d) \<and> int32 (close_cause d))"

lemma length_fmt_x32: "length (fmt_x32 i) \<le> 8"
proof -
  have "nat (i mod 2 ^ 32) < 16 ^ 8" by (simp add: nat_less_iff)
  then show ?thesis unfolding fmt_x32_def by (intro length_fmt_x) simp_all
qed

lemma length_fmt_0 [simp]: "length (fmt_d 0) = 1"
  by (simp add: fmt_d_def fmt_u_def digits_base.simps)

lemma report_text_fits:
  assumes "resp_int32 r" and "report_text api ev r = Inr (Some t)"
  shows "length t < 128"
proof -
  note cid = length_fmt_d_u8 [of "rs_client_id r"]
  note hex = length_fmt_x32 [of "rs_result r"] length_fmt_x32 [of "rs_code r"]
  have num: "length (fmt_d (rs_msg_id r)) \<le> 11" "length (fmt_d (rs_result r)) \<le> 11" "length (fmt_d (rs_code r)) \<le> 11"
    using assms(1) by (auto simp: resp_int32_def int32_def intro!: length_fmt_d32)
  have data: "length (fmt_d (send_msg_id d)) \<le> 11" "length (fmt_d (retry_count d)) \<le> 11" "length (fmt_d (close_cause d)) \<le> 11"
    if "rs_data r = Some d" for d
    using assms(1) that by (auto simp: resp_int32_def int32_def intro!: length_fmt_d32)
  show ?thesis
    using assms(2) cid hex num data
    by (cases ev) (auto simp: report_text_def Let_def split: option.splits if_splits)
qed

lemma follow_up_no_urc: "follow_up api env ev r s = Inr (ret, s', calls) \<Longrightarrow> Urc b n \<notin> set calls"
  by (cases ev) (auto simp: follow_up_def request_defs c_bind_eq_Inr split: if_splits ctx_ptr.splits)

text \<open>Every report line of an event fits the 128-byte buffer, so the length handed over with it
  (the value \<^verbatim>\<open>snprintf\<close> returned) is the length of what the buffer holds.\<close>

theorem event_reports_fit:
  assumes "resp_int32 r" and "unir_mqtt_demo_event_handle api env ev r s = Inr (ret, s', calls)"
    and "Urc b n \<in> set calls"
  shows "n = length b \<and> n < 128"
proof -
  obtain t s1 more where p: "report_text api ev r = Inr t" "follow_up api env ev r s = Inr (ret, s1, more)"
      "calls = more @ report_calls t"
    using assms(2) by (auto simp: unir_mqtt_demo_event_handle_def c_bind_eq_Inr)
  with assms(3) follow_up_no_urc [OF p(2)] obtain x where x: "t = Some x" "b = snprintf_buf 128 x" "n = length x"
    by (auto simp: report_calls_def split: option.splits if_splits)
  with report_text_fits [OF assms(1)] p(1) show ?thesis by simp
qed

text \<open>Of the blocks an event brings (response, data, granted qualities of service), all are freed
  except the qualities of a subscription that was refused: each refused subscription leaks one.\<close>

theorem event_blocks_freed:
  assumes "g_mqtt_ctx s = Ctx_live c" and "mqtt_event_ok api (env, ev, r)" and "ev \<noteq> OTHER_EVENT"
    and "\<And>d. rs_data r = Some d \<Longrightarrow> qoss d \<Longrightarrow> ev = SUBACK_EVENT"
  shows "\<exists>ret s' calls. mqtt_dispatch api env ev r (s\<lparr>live := live s + blocks_of r\<rparr>) = Inr (ret, s', calls) \<and>
    live s' = live s + of_bool (rs_result r \<noteq> RES_OK api \<and> (\<exists>d. rs_data r = Some d \<and> qoss d))"
proof -
  let ?s = "s\<lparr>live := live s + blocks_of r\<rparr>"
  have g: "g_mqtt_ctx ?s = Ctx_live c" using assms(1) by simp
  show ?thesis
  proof (cases "ev = NEW_MESSAGE_EVENT")
    case True
    with assms(2) obtain d where d: "rs_data r = Some d" by auto
    with True assms(4) have "\<not> qoss d" by auto
    moreover have "length MQTT_DEMO_TOPIC1 \<le> length topic" if "read_message env = Some (mid, topic, payload)" for mid topic payload
      using assms(2) that by simp
    ultimately show ?thesis
      using recv_advances [OF g, of r env] d True by (auto simp: blocks_of_def)
  next
    case False
    obtain t where t: "report_text api ev r = Inr t"
      using report_text_defined [of ev r api] assms(2) by auto
    obtain ret s' calls where f: "follow_up api env ev r ?s = Inr (ret, s', calls)" "live s' = live ?s"
      using follow_up_advances [OF g, of api env ev r] assms(2) by auto
    have "mqtt_dispatch api env ev r ?s = unir_mqtt_demo_event_handle api env ev r ?s"
      using False assms(3) by (cases ev) simp_all
    moreover have "live s' - freed_blocks api ev r = live s + of_bool (rs_result r \<noteq> RES_OK api \<and> (\<exists>d. rs_data r = Some d \<and> qoss d))"
      using f(2) assms(4) by (cases "rs_data r") (auto simp: blocks_of_def freed_blocks_def)
    ultimately show ?thesis
      using t f(1) by (simp add: unir_mqtt_demo_event_handle_def)
  qed
qed

text \<open>Calls other than reports.\<close>

definition is_urc :: "mqtt_call \<Rightarrow> bool" where
  "is_urc call = (case call of Urc _ _ \<Rightarrow> True | _ \<Rightarrow> False)"

definition requests :: "mqtt_call list \<Rightarrow> mqtt_call list" where
  "requests calls = filter (\<lambda>c. \<not> is_urc c) calls"

lemma requests_simps [simp]:
  "requests [] = []" "requests (Urc b n # cs) = requests cs"
  "\<not> is_urc c \<Longrightarrow> requests (c # cs) = c # requests cs" "requests (xs @ ys) = requests xs @ requests ys"
  "requests (report_calls t) = []"
  by (simp_all add: requests_def is_urc_def report_calls_def split: option.split)

lemma not_urc [simp]:
  "\<not> is_urc (Mqtt_open i a p)" "\<not> is_urc (Mqtt_connect i a b c)" "\<not> is_urc (Mqtt_publish i m t q)"
  "\<not> is_urc (Mqtt_subscribe i m ts)" "\<not> is_urc (Mqtt_unsubscribe i m ts)" "\<not> is_urc (Mqtt_disconnect i)"
  "\<not> is_urc (Mqtt_close i)"
  by (simp_all add: is_urc_def)

text \<open>One successful round: the request that follows an event, in a context \<open>c\<close>.\<close>

lemma step_request:
  assumes "g_mqtt_ctx s = Ctx_live c" and "4 \<le> MAX_TOPIC_NUM api"
    and "state_after env = STATE_MQTT_CONNECTED" and "rs_result r = RES_OK api"
  shows "connect_ret env = RES_OK api \<Longrightarrow>
      \<exists>s' out. mqtt_step api s (env, OPEN_EVENT, r) = Continue s' out \<and> g_mqtt_ctx s' = Ctx_live c \<and>
        requests out = [Mqtt_connect (client_id c) MQTT_DEMO_CLIENTID MQTT_DEMO_USERNAME MQTT_DEMO_PASSWARD]"
    and "state_ret env = RES_OK api \<Longrightarrow> state_then env = STATE_MQTT_CONNECTED \<Longrightarrow>
      \<exists>s' out. mqtt_step api s (env, CONNECT_EVENT, r) = Continue s' out \<and>
        g_mqtt_ctx s' = Ctx_live (c\<lparr>msg_id := msg_id c + 1\<rparr>) \<and>
        requests out = [Mqtt_subscribe (client_id c) (msg_id c) [MQTT_DEMO_TOPIC1, MQTT_DEMO_TOPIC2, MQTT_DEMO_TOPIC3]]"
    and "\<exists>s' out. mqtt_step api s (env, SUBACK_EVENT, r) = Continue s' out \<and>
        g_mqtt_ctx s' = Ctx_live (c\<lparr>msg_id := msg_id c + 1\<rparr>) \<and>
        requests out = [Mqtt_publish (client_id c) (msg_id c) MQTT_DEMO_TOPIC1 MQTT_DEMO_TEST_CONTENT]"
    and "rs_data r = Some d \<Longrightarrow> read_message env = Some (mid, MQTT_DEMO_TOPIC1, payload) \<Longrightarrow>
      \<exists>s' out. mqtt_step api s (env, NEW_MESSAGE_EVENT, r) = Continue s' out \<and>
        g_mqtt_ctx s' = Ctx_live (c\<lparr>msg_id := msg_id c + 1\<rparr>) \<and>
        requests out = [Mqtt_unsubscribe (client_id c) (msg_id c) [MQTT_DEMO_TOPIC1]]"
  using assms
  by (auto simp: unir_mqtt_demo_event_handle_def unir_mqtt_demo_recv_new_message_def report_text_def follow_up_def
      round_end_def request_defs next_id_def topic_matches_def Let_def)

lemma step_disconnect:
  assumes "g_mqtt_ctx s = Ctx_live c" and "state_after env = STATE_MQTT_DISCONNECTING" and "rs_result r = RES_OK api"
  shows "\<exists>s' out. mqtt_step api s (env, UNSUBACK_EVENT, r) = Continue s' out \<and> g_mqtt_ctx s' = Ctx_live c \<and>
    requests out = [Mqtt_disconnect (client_id c), Mqtt_close (client_id c)]"
  using assms
  by (auto simp: unir_mqtt_demo_event_handle_def report_text_def follow_up_def round_end_def request_defs Let_def)

lemma step_closed:
  assumes "g_mqtt_ctx s = Ctx_live c" and "state_after env = STATE_TCP_CLOSED"
  shows "\<exists>s' out. mqtt_step api s (env, CLOSE_EVENT, r) = Exit s' out \<and> g_mqtt_ctx s' = Ctx_freed \<and> requests out = []"
  using assms
  by (auto simp: unir_mqtt_demo_event_handle_def report_text_def follow_up_def round_end_def leave_def
      unir_mqtt_demo_ctx_free_def with_ctx_def Let_def)


text \<open>When the library's default configuration or the allocation of the context fails, the task
  jumps to its exit and frees a context that does not exist.\<close>

theorem failed_setup_dereferences_null:
  assumes "g_mqtt_ctx s = Ctx_null" and "\<not> default_ok oenv \<or> \<not> ctx_alloc oenv"
  shows "unir_mqtt_demo_task api oenv es s = Undefined Null_dereference"
  using assms
  by (auto simp: unir_mqtt_demo_task_def unir_mqtt_demo_open_def unir_mqtt_demo_ctx_init_def leave_def
      unir_mqtt_demo_ctx_free_def with_ctx_def)

text \<open>The task can run once: it leaves the pointer to the freed context behind, so a second start
  writes to freed memory.\<close>

theorem second_start_uses_freed_context:
  assumes "unir_mqtt_demo_task api oenv es s = Exit s' out" and "default_ok oenv'"
    and "\<forall>e \<in> set es. mqtt_event_ok api e" and "g_mqtt_ctx s = Ctx_null"
    and "default_ok oenv" and "ctx_alloc oenv"
  shows "unir_mqtt_demo_task api oenv' es' s' = Undefined Use_after_free"
proof -
  have "g_mqtt_ctx s' = Ctx_freed"
    using task_outcome [OF assms(4-6,3)] assms(1) by (simp add: mqtt_fin_def)
  with assms(2) show ?thesis
    by (simp add: unir_mqtt_demo_task_def unir_mqtt_demo_open_def unir_mqtt_demo_ctx_init_def)
qed

section \<open>The properties at concrete inputs\<close>

definition ex_api :: mqtt_api where
  "ex_api = \<lparr>RES_OK = 0, MAX_TOPIC_NUM = 5, vtls = True\<rparr>"

definition ex_open :: open_env where
  "ex_open = \<lparr>default_ok = True, ctx_alloc = True, msgq_ok = True, ssl_alloc = True, new_client = 3, init_ret = 0, open_ret = 0\<rparr>"

definition ex_env :: mqtt_env where
  "ex_env = \<lparr>connect_ret = 0, state_ret = 0, state_then = STATE_MQTT_CONNECTED,
     read_message = Some (7, MQTT_DEMO_TOPIC1, ''hi''), state_after = STATE_MQTT_CONNECTED\<rparr>"

definition ex_data :: mqtt_data where
  "ex_data = \<lparr>send_ok = True, send_msg_id = 1, retry_count = 0, qoss = True, close_cause = 0, store_id = 0\<rparr>"

definition ex_resp :: mqtt_resp where
  "ex_resp = \<lparr>rs_client_id = 3, rs_msg_id = 1, rs_result = 0, rs_code = 0, rs_data = Some ex_data\<rparr>"

definition ex_start :: mqtt_state where
  "ex_start = \<lparr>g_mqtt_ctx = Ctx_null, live = 0\<rparr>"

definition ex_ctx :: mqtt_demo_ctx where
  "ex_ctx = \<lparr>client_id = 3, port = 8883, msg_id = 1, msgq = True, ssl_config = True\<rparr>"

text \<open>A connection that is refused right after it was made.\<close>

definition ex_events :: "(mqtt_env \<times> mqtt_event \<times> mqtt_resp) list" where
  "ex_events = [(ex_env, CONNECT_EVENT, ex_resp), (ex_env\<lparr>state_after := STATE_TCP_CLOSED\<rparr>, CLOSE_EVENT, ex_resp)]"

lemmas mqtt_eval = ex_api_def ex_open_def ex_env_def ex_data_def ex_resp_def ex_start_def ex_ctx_def ex_events_def

lemma ex_start_facts: "g_mqtt_ctx ex_start = Ctx_null" "default_ok ex_open" "ctx_alloc ex_open"
  "\<forall>e \<in> set ex_events. mqtt_event_ok ex_api e"
  by (simp_all add: mqtt_eval)

lemma ex_exit: "\<exists>s' out. unir_mqtt_demo_task ex_api ex_open ex_events ex_start = Exit s' out \<and> request_ids out = [1]"
  by (simp add: mqtt_eval unir_mqtt_demo_task_def unir_mqtt_demo_open_def unir_mqtt_demo_ctx_init_def zero_ctx_def
      request_defs Let_def MQTT_DEMO_TEST_MQTTS_def unir_mqtt_demo_event_handle_def report_text_def follow_up_def
      next_id_def round_end_def leave_def unir_mqtt_demo_ctx_free_def)



theorem event_reports_fit_witness:
  "\<exists>ret s' calls b n. unir_mqtt_demo_event_handle ex_api ex_env DISCONNECT_EVENT ex_resp ex_start = Inr (ret, s', calls) \<and>
    Urc b n \<in> set calls \<and> n = length b \<and> n < 128"
proof -
  have "\<exists>s' b n. unir_mqtt_demo_event_handle ex_api ex_env DISCONNECT_EVENT ex_resp ex_start = Inr (0, s', [Urc b n])"
    by (simp add: unir_mqtt_demo_event_handle_def report_text_def follow_up_def report_calls_def
        MQTT_DEMO_TEST_URC_ENABLE_def Let_def)
  then obtain s' b n where h: "unir_mqtt_demo_event_handle ex_api ex_env DISCONNECT_EVENT ex_resp ex_start = Inr (0, s', [Urc b n])"
    by blast
  have "resp_int32 ex_resp" by (simp add: mqtt_eval resp_int32_def int32_def)
  from event_reports_fit [OF this h, of b n] h show ?thesis by auto
qed

text \<open>A refused subscription.\<close>

theorem event_blocks_freed_witness:
  "\<exists>ret s' calls. mqtt_dispatch ex_api ex_env SUBACK_EVENT (ex_resp\<lparr>rs_result := 5\<rparr>)
      (\<lparr>g_mqtt_ctx = Ctx_live ex_ctx, live = 3\<rparr>) = Inr (ret, s', calls) \<and> live s' = 1"
proof -
  let ?s = "\<lparr>g_mqtt_ctx = Ctx_live ex_ctx, live = 0\<rparr>" and ?r = "ex_resp\<lparr>rs_result := 5\<rparr>"
  have "\<exists>ret s' calls. mqtt_dispatch ex_api ex_env SUBACK_EVENT ?r (?s\<lparr>live := live ?s + blocks_of ?r\<rparr>) =
      Inr (ret, s', calls) \<and> live s' = live ?s + of_bool (rs_result ?r \<noteq> RES_OK ex_api \<and> (\<exists>d. rs_data ?r = Some d \<and> qoss d))"
    by (rule event_blocks_freed [where c = ex_ctx]) (simp_all add: mqtt_eval)
  then show ?thesis by (simp add: blocks_of_def) (simp add: mqtt_eval)
qed


theorem failed_setup_dereferences_null_witness:
  "unir_mqtt_demo_task ex_api (ex_open\<lparr>default_ok := False\<rparr>) [] ex_start = Undefined Null_dereference"
  by (rule failed_setup_dereferences_null) (simp_all add: mqtt_eval)

theorem second_start_uses_freed_context_witness:
  "\<exists>s' out. unir_mqtt_demo_task ex_api ex_open ex_events ex_start = Exit s' out \<and>
    unir_mqtt_demo_task ex_api ex_open ex_events s' = Undefined Use_after_free"
proof -
  obtain s' out where e: "unir_mqtt_demo_task ex_api ex_open ex_events ex_start = Exit s' out"
    using ex_exit by blast
  from second_start_uses_freed_context [OF e ex_start_facts(2,4,1,2,3)] e show ?thesis by blast
qed

end
