(* ===== verification/Mqtt5_Demo.thy ===== *)
theory Mqtt5_Demo
  imports Mqtt_Demo
begin

text \<open>
  The MQTT 5 client, \<^verbatim>\<open>network/network_protocol/mqtt/mqtt5/mqtt5_demo.c\<close>: the client of \<open>Mqtt_Demo\<close> with
  properties on each request, and with the messages the library keeps in a cache. After each
  message the task looks at the cache and, when it is not empty, sends itself a message to read
  from it.

  State: that of \<open>Mqtt_Demo\<close> (\<open>base\<close>), the library's cache, and the messages the task has sent to itself,
  each with the client and whether the field \<^verbatim>\<open>data\<close> of its block happens to be \<^verbatim>\<open>NULL\<close>. The copies of
  strings a request makes are freed on the same path and are not counted.
\<close>

section \<open>Data\<close>

definition MQTT_DEMO_TOPIC1_ALIAS :: int where "MQTT_DEMO_TOPIC1_ALIAS = 10"
definition MQTT5_RESPONSE_TOPIC1 :: string where "MQTT5_RESPONSE_TOPIC1 = ''response_topic1''"
definition MQTT5_CORRELATION_DATA1 :: string where "MQTT5_CORRELATION_DATA1 = ''correlation_data1''"
definition MQTT5_CONTENT_TYPE1 :: string where "MQTT5_CONTENT_TYPE1 = ''text/plain''"
definition MQTT5_USER_PROPERTY_KEY1 :: string where "MQTT5_USER_PROPERTY_KEY1 = ''firmware''"
definition MQTT5_USER_PROPERTY_VALUE1 :: string where "MQTT5_USER_PROPERTY_VALUE1 = ''v1.1.0''"

record mqtt5_api =
  api3 :: mqtt_api
  mqtt5_func :: bool                 \<comment> \<open>\<^verbatim>\<open>CONFIG_QCM_MQTT5_FUNC\<close>\<close>

record cached_msg =
  cm_id :: int
  cm_topic :: string
  cm_payload :: string
  cm_props :: bool                   \<comment> \<open>it comes with a block of properties\<close>

record mqtt5_env =
  env3 :: mqtt_env
  alias_ok :: bool
  new_props :: bool                  \<comment> \<open>the message read has properties\<close>
  arrived :: "cached_msg list"       \<comment> \<open>put into the cache before the event\<close>
  cache_read_ok :: bool
  resp_alloc :: bool
  data_null :: bool                  \<comment> \<open>what a fresh block holds in its field \<^verbatim>\<open>data\<close>\<close>
  release5_ok :: bool

record mqtt5_state =
  base :: mqtt_state
  cache :: "cached_msg list"
  own :: "(u8 \<times> bool) list"

datatype pub_property =
    Message_expiry int | Subscription_id int | Topic_alias int | Payload_format int
  | Response_topic string | Correlation_data string | Content_type string | User_property string string

datatype mqtt5_call =
    Req mqtt_call "pub_property list"
  | Server_info u8
  | Props_released

datatype mqtt_version = VERSION_V5 | VERSION_V3_1_1

record conn_properties =
  session_expiry_interval :: int
  topic_alias_maximum :: int
  receive_maximum :: int
  maximum_packet_size :: int
  conn_user_property :: "(string \<times> string) list"

record mqtt5_option =
  opt3 :: mqtt_option
  opt_version :: mqtt_version
  conn_props :: "conn_properties option"   \<comment> \<open>\<open>None\<close>: as the library's default has them\<close>

type_synonym mqtt5_result = "(mqtt5_state \<times> mqtt5_call list) c_result"

section \<open>Requests\<close>

definition mqtt5_ctx_init :: "mqtt5_api \<Rightarrow> open_env \<Rightarrow> mqtt_state \<Rightarrow> (int \<times> mqtt_state \<times> mqtt5_option option) c_result" where
  "mqtt5_ctx_init api env s =
     c_bind (unir_mqtt_demo_ctx_init (api3 api) env s) (\<lambda>(ret, s1, opt). Inr (ret, s1,
       map_option (\<lambda>o3.
         if mqtt5_func api
         then \<lparr>opt3 = o3, opt_version = VERSION_V5, conn_props = Some
               \<lparr>session_expiry_interval = 60, topic_alias_maximum = 60, receive_maximum = 60,
                maximum_packet_size = 1500, conn_user_property = [(''key1'', ''value1'')]\<rparr>\<rparr>
         else \<lparr>opt3 = o3, opt_version = VERSION_V3_1_1, conn_props = None\<rparr>) opt))"

definition mqtt5_open :: "mqtt5_api \<Rightarrow> open_env \<Rightarrow> mqtt_state \<Rightarrow> (int \<times> mqtt_state \<times> mqtt5_call list) c_result" where
  "mqtt5_open api env s =
     (if \<not> default_ok env then Inr (-1, s, [])
      else c_bind (mqtt5_ctx_init api env s) (\<lambda>(ret, s1, opt).
        if ret \<noteq> 0 then Inr (-1, s1, [])
        else with_ctx s1 (\<lambda>c0.
          let c = c0\<lparr>client_id := new_client env\<rparr>; s2 = s1\<lparr>g_mqtt_ctx := Ctx_live c\<rparr> in
          if init_ret env \<noteq> RES_OK (api3 api) then Inr (-1, s2, [])
          else
            let call = Req (Mqtt_open (client_id c) MQTT_DEMO_SERVER_ADDR (port c)) [] in
            if open_ret env \<noteq> RES_OK (api3 api) then Inr (-1, s2, [call]) else Inr (0, s2, [call]))))"

definition user_props :: "mqtt5_api \<Rightarrow> pub_property list" where
  "user_props api =
     (if mqtt5_func api then [User_property MQTT5_USER_PROPERTY_KEY1 MQTT5_USER_PROPERTY_VALUE1] else [])"

definition pub_props :: "mqtt5_api \<Rightarrow> mqtt5_env \<Rightarrow> pub_property list" where
  "pub_props api env =
     (if mqtt5_func api then
        [Message_expiry 100, Subscription_id 1] @
        (if alias_ok env then [Topic_alias MQTT_DEMO_TOPIC1_ALIAS] else []) @
        [Payload_format 1, Response_topic MQTT5_RESPONSE_TOPIC1, Correlation_data MQTT5_CORRELATION_DATA1,
         Content_type MQTT5_CONTENT_TYPE1] @ user_props api
      else [])"

definition mqtt5_publish :: "mqtt5_api \<Rightarrow> mqtt5_env \<Rightarrow> mqtt5_state \<Rightarrow> mqtt5_result" where
  "mqtt5_publish api env s = with_ctx (base s) (\<lambda>c.
     Inr (s\<lparr>base := next_id c (base s)\<rparr>,
          [Req (Mqtt_publish (client_id c) (msg_id c) MQTT_DEMO_TOPIC1 MQTT_DEMO_TEST_CONTENT) (pub_props api env)]))"

definition mqtt5_subscribe :: "mqtt5_api \<Rightarrow> mqtt5_env \<Rightarrow> mqtt5_state \<Rightarrow> mqtt5_result" where
  "mqtt5_subscribe api env s = with_ctx (base s) (\<lambda>c.
     if state_ret (env3 env) \<noteq> RES_OK (api3 api) \<or> state_then (env3 env) \<noteq> STATE_MQTT_CONNECTED then Inr (s, [])
     else if MAX_TOPIC_NUM (api3 api) < 4 then Inl Out_of_bounds
     else Inr (s\<lparr>base := next_id c (base s)\<rparr>,
       [Req (Mqtt_subscribe (client_id c) (msg_id c) [MQTT_DEMO_TOPIC1, MQTT_DEMO_TOPIC2, MQTT_DEMO_TOPIC3])
          ((if mqtt5_func api then [Subscription_id 1] else []) @ user_props api)]))"

definition mqtt5_unsubscribe :: "mqtt5_api \<Rightarrow> mqtt5_state \<Rightarrow> mqtt5_result" where
  "mqtt5_unsubscribe api s = with_ctx (base s) (\<lambda>c.
     let un_sub_topic = [MQTT_DEMO_TOPIC1, MQTT_DEMO_TOPIC2]; topic_cnt = 1 in
     Inr (s\<lparr>base := next_id c (base s)\<rparr>,
          [Req (Mqtt_unsubscribe (client_id c) (msg_id c) (take topic_cnt un_sub_topic)) (user_props api)]))"

definition mqtt5_disconnect :: "mqtt5_api \<Rightarrow> mqtt5_state \<Rightarrow> mqtt5_result" where
  "mqtt5_disconnect api s = with_ctx (base s) (\<lambda>c. Inr (s, [Req (Mqtt_disconnect (client_id c)) (user_props api)]))"

definition mqtt5_close :: "mqtt5_state \<Rightarrow> mqtt5_result" where
  "mqtt5_close s = with_ctx (base s) (\<lambda>c. Inr (s, [Req (Mqtt_close (client_id c)) []]))"

section \<open>Events\<close>

text \<open>The server's answer to the connection is asked for, logged and released.\<close>

definition connack_props :: "mqtt5_api \<Rightarrow> u8 \<Rightarrow> mqtt5_call list" where
  "connack_props api cid = (if mqtt5_func api then [Server_info cid, Props_released] else [])"

text \<open>The properties of a received message are released when there are any.\<close>

definition recvpub_props :: "mqtt5_api \<Rightarrow> bool \<Rightarrow> mqtt5_call list" where
  "recvpub_props api props = (if mqtt5_func api \<and> props then [Props_released] else [])"

definition mqtt5_follow_up ::
  "mqtt5_api \<Rightarrow> mqtt5_env \<Rightarrow> mqtt_event \<Rightarrow> mqtt_resp \<Rightarrow> mqtt5_state \<Rightarrow> (int \<times> mqtt5_state \<times> mqtt5_call list) c_result" where
  "mqtt5_follow_up api env ev r s =
     (if rs_result r \<noteq> RES_OK (api3 api) then Inr (0, s, [])
      else case ev of
        OPEN_EVENT \<Rightarrow> c_bind (unir_mqtt_demo_connect (api3 api) (env3 env) (base s))
          (\<lambda>(ret, calls). Inr (ret, s, map (\<lambda>c. Req c []) calls))
      | CONNECT_EVENT \<Rightarrow> c_bind (mqtt5_subscribe api env s)
          (\<lambda>(s1, calls). Inr (0, s1, connack_props api (rs_client_id r) @ calls))
      | SUBACK_EVENT \<Rightarrow> c_bind (mqtt5_publish api env s) (\<lambda>(s1, calls). Inr (0, s1, calls))
      | UNSUBACK_EVENT \<Rightarrow> c_bind (mqtt5_disconnect api s) (\<lambda>(s1, calls). Inr (0, s1, calls))
      | _ \<Rightarrow> Inr (0, s, []))"

definition drop_live :: "nat \<Rightarrow> mqtt5_state \<Rightarrow> mqtt5_state" where
  "drop_live n s = s\<lparr>base := (base s)\<lparr>live := live (base s) - n\<rparr>\<rparr>"

text \<open>The report lines are those of the older client.\<close>

definition mqtt5_event_handle ::
  "mqtt5_api \<Rightarrow> mqtt5_env \<Rightarrow> mqtt_event \<Rightarrow> mqtt_resp \<Rightarrow> mqtt5_state \<Rightarrow> (int \<times> mqtt5_state \<times> mqtt5_call list) c_result" where
  "mqtt5_event_handle api env ev r s =
     c_bind (report_text (api3 api) ev r) (\<lambda>t.
     c_bind (mqtt5_follow_up api env ev r s) (\<lambda>(ret, s1, calls).
       Inr (ret, drop_live (freed_blocks (api3 api) ev r) s1, calls @ map (\<lambda>c. Req c []) (report_calls t))))"

text \<open>The message the task sends itself: only \<^verbatim>\<open>client_id\<close> of the new block is set. When the queue is full
  the block is lost.\<close>

definition check_cache_cnt :: "mqtt5_env \<Rightarrow> u8 \<Rightarrow> mqtt5_state \<Rightarrow> mqtt5_state c_result" where
  "check_cache_cnt env cid s =
     (if cache s = [] \<or> \<not> resp_alloc env then Inr s
      else with_ctx (base s) (\<lambda>c.
        let s1 = s\<lparr>base := (base s)\<lparr>live := live (base s) + 1\<rparr>\<rparr> in
        Inr (if release5_ok env then s1\<lparr>own := own s1 @ [(cid, data_null env)]\<rparr> else s1)))"

text \<open>Two reports per message: a line with its identifiers, cut to its buffer, and the payload.\<close>

definition recv_urcs :: "u8 \<Rightarrow> int \<Rightarrow> string \<Rightarrow> string \<Rightarrow> mqtt_call list" where
  "recv_urcs cid mid topic payload =
     (let urc_buf = snprintf_buf 128 (''+QMTRECV: '' @ fmt_d (uint cid) @ '','' @ fmt_d mid @ '','' @
            [CHR 34] @ topic @ [CHR 34] @ '','' @ fmt_d (int (length payload)) @ '','' @ [CHR 34]) in
      if MQTT_DEMO_TEST_URC_ENABLE then [Urc urc_buf (length urc_buf), Urc payload (length payload)] else [])"

definition mqtt5_recv_new_message :: "mqtt5_api \<Rightarrow> mqtt5_env \<Rightarrow> mqtt_resp \<Rightarrow> mqtt5_state \<Rightarrow> mqtt5_result" where
  "mqtt5_recv_new_message api env r s =
     (case rs_data r of
        None \<Rightarrow> Inl Null_dereference
      | Some d \<Rightarrow>
          c_bind
            (case read_message (env3 env) of
               None \<Rightarrow> Inr (s, [])
             | Some (mid, topic, payload) \<Rightarrow>
                 let shown = map (\<lambda>c. Req c []) (recv_urcs (rs_client_id r) mid topic payload) @
                       recvpub_props api (new_props env) in
                 c_bind (topic_matches topic) (\<lambda>hit.
                   if hit then c_bind (mqtt5_unsubscribe api s) (\<lambda>(s1, calls). Inr (s1, shown @ calls))
                   else Inr (s, shown)))
            (\<lambda>(s1, calls). c_bind (check_cache_cnt env (rs_client_id r) (drop_live 2 s1)) (\<lambda>s2. Inr (s2, calls))))"

definition mqtt5_recv_cache_message :: "mqtt5_api \<Rightarrow> mqtt5_env \<Rightarrow> u8 \<Rightarrow> bool \<Rightarrow> mqtt5_state \<Rightarrow> mqtt5_result" where
  "mqtt5_recv_cache_message api env cid null s =
     (let (s1, calls) =
        (case cache s of
           [] \<Rightarrow> (s, [])
         | m # ms \<Rightarrow>
             if cache_read_ok env
             then (s\<lparr>cache := ms\<rparr>, map (\<lambda>c. Req c []) (recv_urcs cid (cm_id m) (cm_topic m) (cm_payload m)) @
                   recvpub_props api (cm_props m))
             else (s, [])) in
      if \<not> null then Inl Uninitialised
      else c_bind (check_cache_cnt env cid (drop_live 1 s1)) (\<lambda>s2. Inr (s2, calls)))"

section \<open>The task\<close>

text \<open>A message of the queue: an event of the library, or the oldest one the task has sent itself.\<close>

datatype mqtt5_input = Event5 mqtt5_env mqtt_event mqtt_resp | Own5 mqtt5_env

fun input_env :: "mqtt5_input \<Rightarrow> mqtt5_env" where
  "input_env (Event5 env ev r) = env" | "input_env (Own5 env) = env"

definition leave5 :: "mqtt5_state \<Rightarrow> mqtt5_call list \<Rightarrow> (mqtt5_state, mqtt5_call) outcome" where
  "leave5 s calls =
     (case unir_mqtt_demo_ctx_free (base s) of Inl u \<Rightarrow> Undefined u | Inr b \<Rightarrow> Exit (s\<lparr>base := b\<rparr>) calls)"

definition round_end5 :: "mqtt5_env \<Rightarrow> int \<Rightarrow> mqtt5_state \<Rightarrow> mqtt5_call list \<Rightarrow> (mqtt5_state, mqtt5_call) outcome" where
  "round_end5 env ret s calls =
     (let st = state_after (env3 env) in
      case (if st = STATE_TCP_CLOSING \<or> st = STATE_MQTT_DISCONNECTING then mqtt5_close s else Inr (s, [])) of
        Inl u \<Rightarrow> Undefined u
      | Inr (s1, closing) \<Rightarrow>
          if st = STATE_TCP_CLOSED \<or> st = STATE_INIT then leave5 s1 (calls @ closing)
          else if ret \<noteq> 0 then leave5 s1 (calls @ closing)
          else Continue s1 (calls @ closing))"

fun mqtt5_dispatch :: "mqtt5_api \<Rightarrow> mqtt5_input \<Rightarrow> mqtt5_state \<Rightarrow> (int \<times> mqtt5_state \<times> mqtt5_call list) c_result" where
  "mqtt5_dispatch api (Event5 env ev r) s =
     (case ev of
        NEW_MESSAGE_EVENT \<Rightarrow> c_bind (mqtt5_recv_new_message api env r s) (\<lambda>(s1, calls). Inr (0, s1, calls))
      | OTHER_EVENT \<Rightarrow> Inr (0, s, [])
      | _ \<Rightarrow> mqtt5_event_handle api env ev r s)"
| "mqtt5_dispatch api (Own5 env) s =
     (case own s of
        [] \<Rightarrow> Inr (0, s, [])
      | (cid, null) # ms \<Rightarrow>
          c_bind (mqtt5_recv_cache_message api env cid null (s\<lparr>own := ms\<rparr>)) (\<lambda>(s1, calls). Inr (0, s1, calls)))"

text \<open>An event arrives with its blocks; what the library cached meanwhile is there too.\<close>

fun arrival :: "mqtt5_input \<Rightarrow> mqtt5_state \<Rightarrow> mqtt5_state" where
  "arrival (Event5 env ev r) s =
     s\<lparr>base := (base s)\<lparr>live := live (base s) + blocks_of r\<rparr>, cache := cache s @ arrived env\<rparr>"
| "arrival (Own5 env) s = s\<lparr>cache := cache s @ arrived env\<rparr>"

definition mqtt5_step :: "mqtt5_api \<Rightarrow> mqtt5_state \<Rightarrow> mqtt5_input \<Rightarrow> (mqtt5_state, mqtt5_call) outcome" where
  "mqtt5_step api s e =
     (case mqtt5_dispatch api e (arrival e s) of
        Inl u \<Rightarrow> Undefined u
      | Inr (ret, s1, calls) \<Rightarrow> round_end5 (input_env e) ret s1 calls)"

definition mqtt5_task :: "mqtt5_api \<Rightarrow> open_env \<Rightarrow> mqtt5_input list \<Rightarrow> mqtt5_state \<Rightarrow> (mqtt5_state, mqtt5_call) outcome" where
  "mqtt5_task api oenv evs s =
     (case mqtt5_open api oenv (base s) of
        Inl u \<Rightarrow> Undefined u
      | Inr (ret, b, calls) \<Rightarrow>
          if ret \<noteq> 0 then leave5 (s\<lparr>base := b\<rparr>) calls
          else emit calls (run_loop (mqtt5_step api) (s\<lparr>base := b\<rparr>) evs))"

section \<open>Refinement of the older client\<close>

text \<open>Forget the properties and what only the new client asks the library.\<close>

fun erase :: "mqtt5_call \<Rightarrow> mqtt_call list" where
  "erase (Req c ps) = [c]" | "erase (Server_info cid) = []" | "erase Props_released = []"

abbreviation erase_all :: "mqtt5_call list \<Rightarrow> mqtt_call list" where
  "erase_all cs \<equiv> concat (map erase cs)"

definition erase_result :: "(int \<times> mqtt5_state \<times> mqtt5_call list) c_result \<Rightarrow> (int \<times> mqtt_state \<times> mqtt_call list) c_result" where
  "erase_result r = c_bind r (\<lambda>(ret, s, cs). Inr (ret, base s, erase_all cs))"

lemma erase_Req [simp]:
  "erase_all (map (\<lambda>c. Req c []) cs) = cs" "concat (map (erase \<circ> (\<lambda>c. Req c [])) cs) = cs"
  by (induction cs) auto

lemma erase_props [simp]: "erase_all (connack_props api cid) = []" "erase_all (recvpub_props api p) = []"
  by (auto simp: connack_props_def recvpub_props_def)

lemma drop_live_simps [simp]:
  "base (drop_live n s) = (base s)\<lparr>live := live (base s) - n\<rparr>" "cache (drop_live n s) = cache s" "own (drop_live n s) = own s"
  by (simp_all add: drop_live_def)

lemmas mqtt5_request_defs = mqtt5_publish_def mqtt5_subscribe_def mqtt5_unsubscribe_def mqtt5_disconnect_def mqtt5_close_def

lemma follow_up_erase:
  "erase_result (mqtt5_follow_up api env ev r s) = follow_up (api3 api) (env3 env) ev r (base s)"
  by (cases ev; cases "g_mqtt_ctx (base s)")
    (simp_all add: erase_result_def mqtt5_follow_up_def follow_up_def mqtt5_request_defs request_defs)

lemma event_handle_erase:
  "erase_result (mqtt5_event_handle api env ev r s) = unir_mqtt_demo_event_handle (api3 api) (env3 env) ev r (base s)"
  using follow_up_erase [of api env ev r s, symmetric]
  by (cases "report_text (api3 api) ev r"; cases "mqtt5_follow_up api env ev r s")
    (auto simp: erase_result_def mqtt5_event_handle_def unir_mqtt_demo_event_handle_def)

lemma recv_new_erase:
  assumes "cache s = []"
  shows "erase_result (c_bind (mqtt5_recv_new_message api env r s) (\<lambda>(s1, calls). Inr (0, s1, calls))) =
    c_bind (unir_mqtt_demo_recv_new_message (env3 env) r (base s)) (\<lambda>(s1, calls). Inr (0, s1, calls))"
  using assms
  by (cases "g_mqtt_ctx (base s)")
    (auto simp: erase_result_def mqtt5_recv_new_message_def unir_mqtt_demo_recv_new_message_def check_cache_cnt_def
      recv_urcs_def mqtt5_request_defs request_defs topic_matches_def Let_def split: option.split)

lemma dispatch_erase:
  assumes "cache s = []"
  shows "erase_result (mqtt5_dispatch api (Event5 env ev r) s) = mqtt_dispatch (api3 api) (env3 env) ev r (base s)"
  using recv_new_erase [OF assms, of api env r] event_handle_erase [of api env _ r s]
  by (cases ev) (simp_all add: erase_result_def)

lemma round_end_erase:
  "abs_outcome base erase (round_end5 env ret s calls) = round_end (env3 env) ret (base s) (erase_all calls)"
  by (cases "g_mqtt_ctx (base s)"; cases "state_after (env3 env)")
    (simp_all add: round_end5_def round_end_def leave5_def leave_def unir_mqtt_demo_ctx_free_def mqtt5_close_def
      request_defs Let_def)

lemma dispatch_keeps_cache:
  assumes "mqtt5_dispatch api (Event5 env ev r) s = Inr (ret, s', calls)"
  shows "cache s' = cache s"
  using assms
  by (cases ev; cases "g_mqtt_ctx (base s)")
    (auto simp: mqtt5_event_handle_def mqtt5_follow_up_def mqtt5_recv_new_message_def mqtt5_request_defs request_defs
      check_cache_cnt_def next_id_def c_bind_eq_Inr Let_def split: option.splits if_splits)

fun quiet :: "mqtt5_input \<Rightarrow> bool" where
  "quiet (Event5 env ev r) \<longleftrightarrow> arrived env = []" | "quiet (Own5 env) \<longleftrightarrow> False"

fun event3 :: "mqtt5_input \<Rightarrow> mqtt_env \<times> mqtt_event \<times> mqtt_resp" where
  "event3 (Event5 env ev r) = (env3 env, ev, r)"
| "event3 (Own5 env) = (env3 env, OTHER_EVENT, \<lparr>rs_client_id = 0, rs_msg_id = 0, rs_result = 0, rs_code = 0, rs_data = None\<rparr>)"

lemma step_erase:
  assumes "cache s = []" and "quiet e"
  shows "abs_outcome base erase (mqtt5_step api s e) = mqtt_step (api3 api) (base s) (event3 e)"
proof -
  obtain env ev r where e: "e = Event5 env ev r" "arrived env = []" using assms(2) by (cases e) auto
  define s1 where "s1 = arrival e s"
  have s1: "cache s1 = []" "base s1 = (base s)\<lparr>live := live (base s) + blocks_of r\<rparr>"
    using assms(1) e by (simp_all add: s1_def)
  have d: "mqtt_dispatch (api3 api) (env3 env) ev r (base s1) = erase_result (mqtt5_dispatch api e s1)"
    using dispatch_erase [OF s1(1), of api env ev r] e by simp
  have "input_env e = env" using e(1) by simp
  then have "mqtt5_step api s e =
      (case mqtt5_dispatch api e s1 of Inl u \<Rightarrow> Undefined u | Inr (ret, s2, calls) \<Rightarrow> round_end5 env ret s2 calls)"
    by (simp add: mqtt5_step_def s1_def split: sum.split)
  moreover have "mqtt_step (api3 api) (base s) (event3 e) =
      (case erase_result (mqtt5_dispatch api e s1) of Inl u \<Rightarrow> Undefined u | Inr (ret, b, calls) \<Rightarrow> round_end (env3 env) ret b calls)"
    using e s1(2) d by simp
  ultimately show ?thesis
    using round_end_erase [of env] by (cases "mqtt5_dispatch api e s1") (auto simp: erase_result_def)
qed

interpretation mqtt5_is_mqtt: task_refinement "mqtt5_step api" "mqtt_step (api3 api)" base erase event3
  "\<lambda>s. cache s = []" "\<lambda>s. quiet" for api
proof
  fix s :: mqtt5_state and e assume s: "cache s = []" "quiet e"
  then show "abs_outcome base erase (mqtt5_step api s e) = mqtt_step (api3 api) (base s) (event3 e)"
    by (rule step_erase)
  fix s' os assume step: "mqtt5_step api s e = Continue s' os"
  obtain env ev r where e: "e = Event5 env ev r" "arrived env = []" using s(2) by (cases e) auto
  obtain ret s1 calls where d: "mqtt5_dispatch api e (arrival e s) = Inr (ret, s1, calls)"
      "round_end5 env ret s1 calls = Continue s' os"
    using step e by (auto simp: mqtt5_step_def split: sum.splits)
  have "cache s1 = []" using dispatch_keeps_cache d(1) e s(1) by fastforce
  moreover have "cache s' = cache s1"
    using d(2) by (auto simp: round_end5_def leave5_def mqtt5_close_def with_ctx_def Let_def
        split: sum.splits if_splits ctx_ptr.splits)
  ultimately show "cache s' = []" by simp
qed

section \<open>Reading the cache\<close>

text \<open>Everything the task needs to read a cached message: memory whose contents happen to be zero, room in
  the queue, a library that hands the message over, a connection that stays up.\<close>

definition cache_env_ok :: "mqtt5_env \<Rightarrow> bool" where
  [env_defs]: "cache_env_ok env \<longleftrightarrow> cache_read_ok env \<and> resp_alloc env \<and> data_null env \<and> release5_ok env \<and>
     arrived env = [] \<and> state_after (env3 env) = STATE_MQTT_CONNECTED"

definition reported :: "mqtt5_api \<Rightarrow> u8 \<Rightarrow> cached_msg \<Rightarrow> mqtt5_call list" where
  "reported api cid m = map (\<lambda>c. Req c []) (recv_urcs cid (cm_id m) (cm_topic m) (cm_payload m)) @ recvpub_props api (cm_props m)"

lemma own_step:
  assumes "g_mqtt_ctx (base s) = Ctx_live c" and "cache s = m # ms" and "own s = [(cid, True)]" and "cache_env_ok env"
    and "0 < live (base s)"
  shows "mqtt5_step api s (Own5 env) =
    Continue (s\<lparr>cache := ms, own := (if ms = [] then [] else [(cid, True)]),
      base := (base s)\<lparr>live := live (base s) - of_bool (ms = [])\<rparr>\<rparr>) (reported api cid m)"
  using assms
  by (simp add: mqtt5_step_def mqtt5_recv_cache_message_def reported_def check_cache_cnt_def drop_live_def round_end5_def
      with_ctx_def cache_env_ok_def Let_def)

text \<open>Once the task has been told of a cached message it reads the whole cache: with one message to itself per
  entry it reports every cached message once, in the order of the cache, and ends with an empty
  cache, no message to itself left and its block freed.\<close>

theorem cache_is_drained:
  assumes "g_mqtt_ctx (base s) = Ctx_live c" and "own s = [(cid, True)]" and "0 < live (base s)"
    and "cache s \<noteq> []" and "length envs = length (cache s)" and "\<forall>env \<in> set envs. cache_env_ok env"
  shows "\<exists>s'. run_loop (mqtt5_step api) s (map Own5 envs) = Continue s' (concat (map (reported api cid) (cache s))) \<and>
    cache s' = [] \<and> own s' = [] \<and> live (base s') = live (base s) - 1 \<and> g_mqtt_ctx (base s') = Ctx_live c"
  using assms
proof (induction envs arbitrary: s)
  case Nil
  then show ?case by simp
next
  case (Cons env envs)
  then obtain m ms where m: "cache s = m # ms" by (cases "cache s") auto
  have step: "mqtt5_step api s (Own5 env) =
    Continue (s\<lparr>cache := ms, own := (if ms = [] then [] else [(cid, True)]),
      base := (base s)\<lparr>live := live (base s) - of_bool (ms = [])\<rparr>\<rparr>) (reported api cid m)"
    using Cons.prems m by (intro own_step) simp_all
  show ?case
  proof (cases "ms = []")
    case True
    with Cons.prems m step show ?thesis by auto
  next
    case False
    define s1 where "s1 = s\<lparr>cache := ms, own := [(cid, True)]\<rparr>"
    have "\<exists>s'. run_loop (mqtt5_step api) s1 (map Own5 envs) = Continue s' (concat (map (reported api cid) (cache s1))) \<and>
        cache s' = [] \<and> own s' = [] \<and> live (base s') = live (base s1) - 1 \<and> g_mqtt_ctx (base s') = Ctx_live c"
      by (rule Cons.IH) (use Cons.prems m False in \<open>simp_all add: s1_def\<close>)
    moreover have "mqtt5_step api s (Own5 env) = Continue s1 (reported api cid m)"
      using step False by (simp add: s1_def)
    ultimately show ?thesis using m by (auto simp: s1_def)
  qed
qed

text \<open>The block of the message the task sends itself is not cleared, and its field \<^verbatim>\<open>data\<close> is never set: unless the
  memory happens to be zero, reading the cache frees a pointer that nobody has set. \<close>

theorem cached_message_frees_unset_pointer:
  assumes "g_mqtt_ctx (base s) = Ctx_live c" and "cache s \<noteq> []" and "resp_alloc env" and "release5_ok env"
    and "\<not> data_null env" and "own s = []"
  shows "\<exists>s'. check_cache_cnt env cid s = Inr s' \<and> mqtt5_step api s' (Own5 env') = Undefined Uninitialised"
proof -
  let ?s = "s\<lparr>base := (base s)\<lparr>live := live (base s) + 1\<rparr>, own := [(cid, False)]\<rparr>"
  have "check_cache_cnt env cid s = Inr ?s"
    using assms by (simp add: check_cache_cnt_def with_ctx_def Let_def)
  moreover have "mqtt5_step api ?s (Own5 env') = Undefined Uninitialised"
    by (auto simp: mqtt5_step_def mqtt5_recv_cache_message_def Let_def split: list.splits)
  ultimately show ?thesis by blast
qed


section \<open>The properties at concrete inputs\<close>

definition ex_env5 :: mqtt5_env where
  "ex_env5 = \<lparr>env3 = ex_env, alias_ok = True, new_props = False, arrived = [], cache_read_ok = True, resp_alloc = True,
     data_null = True, release5_ok = True\<rparr>"

definition ex_api5 :: mqtt5_api where "ex_api5 = \<lparr>api3 = ex_api, mqtt5_func = True\<rparr>"

definition ex_cached :: cached_msg where
  "ex_cached = \<lparr>cm_id = 4, cm_topic = MQTT_DEMO_TOPIC2, cm_payload = ''cached'', cm_props = True\<rparr>"

definition ex_state5 :: mqtt5_state where
  "ex_state5 = \<lparr>base = \<lparr>g_mqtt_ctx = Ctx_live ex_ctx, live = 1\<rparr>, cache = [ex_cached, ex_cached], own = [(3, True)]\<rparr>"

theorem cache_is_drained_witness:
  "\<exists>s'. run_loop (mqtt5_step ex_api5) ex_state5 [Own5 ex_env5, Own5 ex_env5] =
      Continue s' (reported ex_api5 3 ex_cached @ reported ex_api5 3 ex_cached) \<and> cache s' = [] \<and> own s' = []"
proof -
  have "g_mqtt_ctx (base ex_state5) = Ctx_live ex_ctx" "own ex_state5 = [(3, True)]" "0 < live (base ex_state5)"
      "cache ex_state5 \<noteq> []" "length [ex_env5, ex_env5] = length (cache ex_state5)"
      "\<forall>env \<in> set [ex_env5, ex_env5]. cache_env_ok env"
    by (simp_all add: ex_state5_def ex_env5_def cache_env_ok_def ex_env_def)
  from cache_is_drained [OF this, of ex_api5] show ?thesis by (simp add: ex_state5_def) blast
qed

theorem cached_message_frees_unset_pointer_witness:
  "\<exists>s'. check_cache_cnt (ex_env5\<lparr>data_null := False\<rparr>) 3 (ex_state5\<lparr>own := []\<rparr>) = Inr s' \<and>
    mqtt5_step ex_api5 s' (Own5 ex_env5) = Undefined Uninitialised"
  by (rule cached_message_frees_unset_pointer [where c = ex_ctx]) (simp_all add: ex_state5_def ex_env5_def)


end
