(* ===== verification/Ftp_Get.thy ===== *)
theory Ftp_Get
  imports File_Transfer
begin

text \<open>
  The FTP download example, \<^verbatim>\<open>network/network_protocol/ftp/get/ftp_get_demo.c\<close>.

  State: the context \<open>qurl_demo_ftp_t\<close> with its four heap strings. A heap string is the whole
  allocated block, so that a store behind its end shows; \<open>leaked\<close> counts command buffers that no
  path frees. Operations: one per FTP command, the parser of the 257 reply, the download
  callback, opening and closing, and the demo itself.

  The transfer library (\<^verbatim>\<open>qurl_*\<close>) is not part of the repository: what the source sets as options
  is the record \<open>request\<close>, and \<^verbatim>\<open>qurl_core_perform\<close> is an \<open>answer\<close> of the environment, its result
  together with the reply lines and data it passes to the callbacks that were installed.
\<close>

section \<open>Data\<close>

definition QURL_FTP_DEMO_HOSTNAME :: string where "QURL_FTP_DEMO_HOSTNAME = ''xxx''"
definition QURL_FTP_DEMO_USERNAME :: string where "QURL_FTP_DEMO_USERNAME = ''test''"
definition QURL_FTP_DEMO_PASSNAME :: string where "QURL_FTP_DEMO_PASSNAME = ''test''"
definition QURL_FTP_DEMO_SERVPORT :: int where "QURL_FTP_DEMO_SERVPORT = 21"
definition QURL_FTP_HOSTNAME_MAX_LEN :: nat where "QURL_FTP_HOSTNAME_MAX_LEN = 256"
definition QURL_FTP_DEMO_TIMEOUT :: int where "QURL_FTP_DEMO_TIMEOUT = 90"
definition QURL_FTP_DEMO_TEST_DIR :: string where "QURL_FTP_DEMO_TEST_DIR = ''ftp_test_dir''"
definition QURL_FTP_DEMO_SERVER_FILENAME :: string where "QURL_FTP_DEMO_SERVER_FILENAME = ''ftp_test1.txt''"

datatype ssl_type = SSL_TYPE_NONE | SSL_TYPE_IMP | SSL_TYPE_EXP

datatype ftp_mode = MODE_PASSIVE | MODE_ACTIVE

record qurl_demo_data =
  total_len :: int
  used_len :: int
  fd :: int
  is_file :: bool

record qurl_demo_ftp =
  qurl :: bool                      \<comment> \<open>the handle is not \<^verbatim>\<open>NULL\<close>\<close>
  hostname :: string
  username :: string
  password :: string
  timeout :: int
  server_port :: int
  transfer_type :: int
  skip_pasv_ip :: int
  pdp_cid :: int
  currentDir :: "string option"
  last_reply_Dir :: "string option"
  server_ap :: "string option"
  url :: "string option"
  data :: qurl_demo_data
  ssl_enable :: ssl_type
  mode :: ftp_mode
  leaked :: nat

text \<open>The library's view: the callback for received data, the options at the moment of a transfer,
  and the transfer's outcome.\<close>

datatype write_cb = Cb_null | Cb_discard | Cb_download | Cb_list | Cb_not_a_function

record request =
  rq_url :: "string option"
  rq_port :: int
  rq_username :: string
  rq_password :: string
  rq_quote :: "string list"
  rq_custom :: "string option"
  rq_nobody :: int
  rq_write_cb :: write_cb
  rq_write_arg :: bool              \<comment> \<open>the argument is the context\<close>
  rq_head_cb :: bool                \<comment> \<open>\<^verbatim>\<open>qurl_ftp_demo_open_header\<close> is installed\<close>
  rq_idle_ms :: int
  rq_network :: int
  rq_no_skip :: bool                \<comment> \<open>\<^verbatim>\<open>QURL_OPT_FTP_SKIP_PASV_IP\<close> set to 0\<close>
  rq_active :: bool                 \<comment> \<open>\<^verbatim>\<open>QURL_OPT_FTP_PORT\<close> set to \<^verbatim>\<open>"-"\<close>\<close>

record answer =
  res_ok :: bool
  reply_lines :: "string list"
  chunks :: "string list"

record ftp_env =
  alloc1 :: bool
  alloc2 :: bool
  dir_alloc :: bool                 \<comment> \<open>allocations in the header callback\<close>
  cur_alloc :: bool
  ans1 :: answer                    \<comment> \<open>first and second transfer of the operation\<close>
  ans2 :: answer
  opened_fd :: int
  vfs_io :: "string \<Rightarrow> nat \<Rightarrow> int"   \<comment> \<open>\<^verbatim>\<open>qosa_vfs_write\<close> of a chunk, at an offset\<close>
  content_length :: "int option"
  core_created :: bool

datatype ftp_call =
    Perform request
  | Vfs_open
  | Vfs_write int string            \<comment> \<open>handle, bytes written\<close>
  | Vfs_close int
  | Core_delete

type_synonym ftp_result = "(qurl_demo_ftp \<times> ftp_call list) c_result"

text \<open>\<^verbatim>\<open>strlen\<close> and \<^verbatim>\<open>%s\<close> of a heap string: through \<^verbatim>\<open>NULL\<close> there is none.\<close>

definition c_text :: "string option \<Rightarrow> string c_result" where
  "c_text p = (case p of None \<Rightarrow> Inl Null_dereference | Some b \<Rightarrow> Inr (c_str b))"

text \<open>A block of \<open>n\<close> zero bytes with a text printed into it.\<close>

definition printed :: "nat \<Rightarrow> string \<Rightarrow> string" where
  "printed n t = snprintf_buf n t @ replicate (n - length (snprintf_buf n t)) NUL"

section \<open>File helpers\<close>

text \<open>Code and offset reached. The handle is closed exactly when the code is -1; the calls of the
  callback below include that.\<close>

function qurl_ftp_demo_file_read :: "(nat \<Rightarrow> int) \<Rightarrow> nat \<Rightarrow> nat \<Rightarrow> int \<times> nat" where
  "qurl_ftp_demo_file_read io len temp_len =
     (if temp_len < len then
        (if io temp_len \<le> 0 then (-1, temp_len)
         else qurl_ftp_demo_file_read io len (temp_len + nat (io temp_len)))
      else (0, temp_len))"
  by pat_completeness auto
termination
  by (relation "measure (\<lambda>(io, len, off). len - off)") auto

function qurl_ftp_demo_vfs_write :: "(nat \<Rightarrow> int) \<Rightarrow> nat \<Rightarrow> nat \<Rightarrow> int \<times> nat" where
  "qurl_ftp_demo_vfs_write io len temp_len =
     (if temp_len < len then
        (if io temp_len \<le> 0 then (-1, temp_len)
         else qurl_ftp_demo_vfs_write io len (temp_len + nat (io temp_len)))
      else (0, temp_len))"
  by pat_completeness auto
termination
  by (relation "measure (\<lambda>(io, len, off). len - off)") auto

declare qurl_ftp_demo_file_read.simps [simp del] qurl_ftp_demo_vfs_write.simps [simp del]

interpretation ftp_read: transfer_loop qurl_ftp_demo_file_read
  by unfold_locales (auto simp: qurl_ftp_demo_file_read.simps [of _ _ off for off])

interpretation ftp_write: transfer_loop qurl_ftp_demo_vfs_write
  by unfold_locales (auto simp: qurl_ftp_demo_vfs_write.simps [of _ _ off for off])

text \<open>The callback of a download: on a failed write the handle is closed and 0 is returned.\<close>

definition qurl_ftp_download_data_cb ::
  "ftp_env \<Rightarrow> string \<Rightarrow> qurl_demo_ftp \<Rightarrow> int \<times> qurl_demo_ftp \<times> ftp_call list" where
  "qurl_ftp_download_data_cb env buf s =
     (let f = fd (data s); (ret, n) = qurl_ftp_demo_vfs_write (vfs_io env buf) (length buf) 0 in
      if ret < 0 then (0, s, [Vfs_write f (take n buf), Vfs_close f])
      else (int (length buf), s\<lparr>data := (data s)\<lparr>used_len := used_len (data s) + int (length buf)\<rparr>\<rparr>,
            [Vfs_write f (take n buf)]))"

section \<open>Replies\<close>

text \<open>\<^verbatim>\<open>qurl_ftp_demo_init\<close>.\<close>

definition qurl_ftp_demo_init :: "qurl_demo_ftp \<Rightarrow> qurl_demo_ftp" where
  "qurl_ftp_demo_init s =
     s\<lparr>hostname := snprintf_buf QURL_FTP_HOSTNAME_MAX_LEN QURL_FTP_DEMO_HOSTNAME,
       username := snprintf_buf QURL_FTP_HOSTNAME_MAX_LEN QURL_FTP_DEMO_USERNAME,
       password := snprintf_buf QURL_FTP_HOSTNAME_MAX_LEN QURL_FTP_DEMO_PASSNAME,
       timeout := QURL_FTP_DEMO_TIMEOUT, server_port := QURL_FTP_DEMO_SERVPORT, pdp_cid := 1,
       transfer_type := 0, skip_pasv_ip := 1, ssl_enable := SSL_TYPE_NONE, mode := MODE_ACTIVE\<rparr>"

text \<open>The position of the closing quote, from \<open>i\<close> on; the length of the line when there is none.\<close>

fun quote_from :: "string \<Rightarrow> nat \<Rightarrow> nat" where
  "quote_from [] i = i"
| "quote_from (c # cs) i = (if c = CHR 34 then i else quote_from cs (Suc i))"

text \<open>\<^verbatim>\<open>257 "dir" ...\<close>: the new value of the directory pointer.\<close>

definition qurl_ftp_demo_open_get_current_dir :: "bool \<Rightarrow> string \<Rightarrow> string option \<Rightarrow> string option" where
  "qurl_ftp_demo_open_get_current_dir alloc str current_dir =
     (if length str > 5 \<and> take 5 str = ''257 '' @ [CHR 34] then
        (let i = quote_from (drop 5 str) 5 in
         if i < length str then
           (if \<not> alloc then current_dir
            else Some (take (i - 5) (drop 5 str) @ replicate (length str - (i - 5)) NUL))
         else current_dir)
      else current_dir)"

text \<open>\<^verbatim>\<open>atoi\<close>.\<close>

definition is_space :: "char \<Rightarrow> bool" where
  "is_space c \<longleftrightarrow> c = CHR '' '' \<or> (9 \<le> (of_char c :: nat) \<and> (of_char c :: nat) \<le> 13)"

definition is_digit :: "char \<Rightarrow> bool" where
  "is_digit c \<longleftrightarrow> 48 \<le> (of_char c :: nat) \<and> (of_char c :: nat) \<le> 57"

definition digits_value :: "string \<Rightarrow> int" where
  "digits_value ds = fold (\<lambda>c n. 10 * n + (of_char c - 48)) ds 0"

definition atoi :: "string \<Rightarrow> int" where
  "atoi str =
     (case dropWhile is_space str of
        [] \<Rightarrow> 0
      | c # cs \<Rightarrow>
          if c = CHR ''-'' then - digits_value (takeWhile is_digit cs)
          else if c = CHR ''+'' then digits_value (takeWhile is_digit cs)
          else digits_value (takeWhile is_digit (c # cs)))"

text \<open>A reply line: a 257 stores the directory as the last reply and as the current directory. The
  second allocation is not tested.\<close>

definition qurl_ftp_demo_open_header :: "ftp_env \<Rightarrow> string \<Rightarrow> qurl_demo_ftp \<Rightarrow> qurl_demo_ftp c_result" where
  "qurl_ftp_demo_open_header env str s =
     (if length str > 4 then
        (let code = atoi (c_str (take 3 str)) in
         if code < 100 \<or> code > 600 then Inr s
         else if code = 257 then
           (let dir = qurl_ftp_demo_open_get_current_dir (dir_alloc env) str (last_reply_Dir s);
                s1 = s\<lparr>last_reply_Dir := dir\<rparr> in
            case dir of
              None \<Rightarrow> Inr s1
            | Some b \<Rightarrow>
                if \<not> cur_alloc env then Inl Null_dereference
                else Inr (s1\<lparr>currentDir := Some (c_str b @ [NUL])\<rparr>))
         else Inr s)
      else Inr s)"

section \<open>Transfers\<close>

fun run_headers :: "ftp_env \<Rightarrow> string list \<Rightarrow> qurl_demo_ftp \<Rightarrow> qurl_demo_ftp c_result" where
  "run_headers env [] s = Inr s"
| "run_headers env (l # ls) s = c_bind (qurl_ftp_demo_open_header env l s) (run_headers env ls)"

fun run_chunks :: "ftp_env \<Rightarrow> string list \<Rightarrow> qurl_demo_ftp \<Rightarrow> qurl_demo_ftp \<times> ftp_call list" where
  "run_chunks env [] s = (s, [])"
| "run_chunks env (b # bs) s =
     (let (r, s1, c1) = qurl_ftp_download_data_cb env b s; (s2, c2) = run_chunks env bs s1 in (s2, c1 @ c2))"

text \<open>A transfer feeds the reply lines and the data to the callbacks installed by the source.\<close>

definition perform :: "ftp_env \<Rightarrow> answer \<Rightarrow> request \<Rightarrow> qurl_demo_ftp \<Rightarrow> (bool \<times> qurl_demo_ftp \<times> ftp_call list) c_result" where
  "perform env ans rq s =
     c_bind (if rq_head_cb rq then run_headers env (reply_lines ans) s else Inr s) (\<lambda>s1.
       let (s2, calls) = (if rq_write_cb rq = Cb_download then run_chunks env (chunks ans) s1 else (s1, []))
       in Inr (res_ok ans, s2, Perform rq # calls))"

text \<open>The options every command sets after the reset.\<close>

definition base_request :: "qurl_demo_ftp \<Rightarrow> request" where
  "base_request s =
     \<lparr>rq_url = map_option c_str (url s), rq_port = server_port s, rq_username = username s,
      rq_password = password s, rq_quote = [], rq_custom = None, rq_nobody = 0,
      rq_write_cb = Cb_null, rq_write_arg = False, rq_head_cb = False,
      rq_idle_ms = timeout s * 1000, rq_network = pdp_cid s,
      rq_no_skip = (skip_pasv_ip s = 0), rq_active = (mode s = MODE_ACTIVE)\<rparr>"

text \<open>When a callback is given, the second \<^verbatim>\<open>setopt\<close> overwrites it with the context pointer.\<close>

definition qurl_ftp_demo_request_command_quote ::
  "ftp_env \<Rightarrow> string option \<Rightarrow> write_cb \<Rightarrow> int \<Rightarrow> qurl_demo_ftp \<Rightarrow> ftp_result" where
  "qurl_ftp_demo_request_command_quote env pCommand cb opt_nobody s =
     c_bind (perform env (ans1 env)
       ((base_request s)\<lparr>rq_nobody := opt_nobody,
          rq_quote := (case pCommand of None \<Rightarrow> [] | Some c \<Rightarrow> [c]),
          rq_write_cb := (if cb \<noteq> Cb_null then Cb_not_a_function else Cb_discard), rq_write_arg := True\<rparr>) s)
     (\<lambda>(ok, s1, calls). Inr (s1, calls))"

definition qurl_ftp_demo_request_command_std ::
  "ftp_env \<Rightarrow> string \<Rightarrow> write_cb \<Rightarrow> int \<Rightarrow> qurl_demo_ftp \<Rightarrow> ftp_result" where
  "qurl_ftp_demo_request_command_std env pCommand cb opt_nobody s =
     c_bind (perform env (ans1 env)
       ((base_request s)\<lparr>rq_nobody := opt_nobody, rq_custom := Some pCommand,
          rq_write_cb := cb, rq_write_arg := (cb \<noteq> Cb_null)\<rparr>) s)
     (\<lambda>(ok, s1, calls). Inr (s1, calls))"

section \<open>Commands\<close>

definition qurl_ftp_demo_get :: "ftp_env \<Rightarrow> string \<Rightarrow> qurl_demo_ftp \<Rightarrow> ftp_result" where
  "qurl_ftp_demo_get env filename s =
     (let f = opened_fd env;
          s1 = s\<lparr>data := (data s)\<lparr>is_file := True, fd := f\<rparr>\<rparr> in
      if f < 0 then Inr (s1, [Vfs_open])
      else c_bind (c_text (currentDir s1)) (\<lambda>dir.
        let url_len = length (hostname s1) + length dir + length filename + 64 in
        if \<not> alloc1 env then Inr (s1\<lparr>url := None\<rparr>, [Vfs_open, Vfs_close f])
        else
          let s2 = s1\<lparr>url := Some (printed url_len (''ftp://'' @ hostname s1 @ dir @ ''/'' @ filename))\<rparr> in
          c_bind (perform env (ans1 env) ((base_request s2)\<lparr>rq_write_cb := Cb_download, rq_write_arg := True\<rparr>) s2)
            (\<lambda>(ok, s3, calls). Inr (s3, Vfs_open # calls @ [Vfs_close (fd (data s3))]))))"

definition qurl_ftp_demo_size :: "ftp_env \<Rightarrow> string \<Rightarrow> qurl_demo_ftp \<Rightarrow> ftp_result" where
  "qurl_ftp_demo_size env filename s =
     (let s1 = s\<lparr>data := \<lparr>total_len = 0, used_len = 0, fd = 0, is_file = False\<rparr>\<rparr> in
      c_bind (c_text (currentDir s1)) (\<lambda>dir.
        let url_len = length (hostname s1) + length dir + length filename + 64 in
        if \<not> alloc1 env then Inr (s1\<lparr>url := None\<rparr>, [])
        else
          let s2 = s1\<lparr>url := Some (printed url_len (''ftp://'' @ hostname s1 @ dir @ filename))\<rparr> in
          c_bind (perform env (ans1 env) ((base_request s2)\<lparr>rq_nobody := 1\<rparr>) s2) (\<lambda>(ok, s3, calls).
            Inr (case content_length env of
                   Some n \<Rightarrow> if ok \<and> n \<ge> 0 then s3\<lparr>data := (data s3)\<lparr>total_len := n\<rparr>\<rparr> else s3
                 | None \<Rightarrow> s3, calls))))"

definition qurl_ftp_demo_pwd :: "ftp_env \<Rightarrow> qurl_demo_ftp \<Rightarrow> ftp_result" where
  "qurl_ftp_demo_pwd env s =
     (if \<not> qurl s then Inr (s, []) else qurl_ftp_demo_request_command_quote env (Some ''PWD'') Cb_null 1 s)"

text \<open>The URL of the current directory, as the commands below print it.\<close>

definition dir_url :: "string \<Rightarrow> qurl_demo_ftp \<Rightarrow> string" where
  "dir_url dir s = printed (length (hostname s) + length dir + 64) (''FTP://'' @ hostname s @ dir)"

definition leak :: "qurl_demo_ftp \<Rightarrow> qurl_demo_ftp" where
  "leak s = s\<lparr>leaked := Suc (leaked s)\<rparr>"

definition qurl_ftp_demo_delete :: "ftp_env \<Rightarrow> string option \<Rightarrow> qurl_demo_ftp \<Rightarrow> ftp_result" where
  "qurl_ftp_demo_delete env path s =
     (case path of
        None \<Rightarrow> Inr (s, [])
      | Some p \<Rightarrow>
          if \<not> qurl s then Inr (s, [])
          else c_bind (c_text (server_ap s)) (\<lambda>ap.
            let szComand_size = length ap + length p + 64 in
            if \<not> alloc1 env then Inr (s, [])
            else c_bind (c_text (currentDir s)) (\<lambda>dir.
              if \<not> alloc2 env then Inr (leak (s\<lparr>url := None\<rparr>), [])
              else
                let s1 = s\<lparr>url := Some (dir_url dir s)\<rparr>;
                    szComand = snprintf_buf szComand_size
                      (if take 1 p = ''/'' then ''DELE '' @ p else ''DELE '' @ dir @ p) in
                c_bind (qurl_ftp_demo_request_command_quote env (Some szComand) Cb_null 1 s1)
                  (\<lambda>(s2, calls). Inr (leak s2, calls)))))"

text \<open>\<^verbatim>\<open>server_ap[server_ap_len - 1]\<close>; the shortened length is not used afterwards.\<close>

definition server_ap_tail :: "qurl_demo_ftp \<Rightarrow> string c_result" where
  "server_ap_tail s =
     c_bind (c_text (server_ap s)) (\<lambda>ap. if ap = [] then Inl Out_of_bounds else Inr ap)"

text \<open>After a change of directory: append a slash in place when there is none.\<close>

definition append_slash :: "string \<Rightarrow> string c_result" where
  "append_slash b =
     (let n = length (c_str b) in
      if n = 0 then Inl Out_of_bounds
      else if b ! (n - 1) \<noteq> CHR ''/''
      then c_bind (c_store b n (CHR ''/'')) (\<lambda>b1. c_store b1 (n + 1) NUL)
      else Inr b)"

definition qurl_ftp_demo_cwd :: "ftp_env \<Rightarrow> string option \<Rightarrow> qurl_demo_ftp \<Rightarrow> ftp_result" where
  "qurl_ftp_demo_cwd env path s =
     (case path of
        None \<Rightarrow> Inr (s, [])
      | Some p \<Rightarrow>
          if \<not> qurl s \<or> p = [] then Inr (s, [])
          else c_bind (c_text (currentDir s)) (\<lambda>dir.
            let url_len = length (hostname s) + length dir + length p + 64 in
            if \<not> alloc1 env then Inr (s\<lparr>url := None\<rparr>, [])
            else c_bind (server_ap_tail s) (\<lambda>_.
              let s1 = s\<lparr>url := Some (printed url_len
                    (if take 1 p \<noteq> ''/'' then ''FTP://'' @ hostname s @ ''/'' @ p @ ''/''
                     else ''FTP://'' @ hostname s @ p))\<rparr>;
                  rq = (base_request s1)\<lparr>rq_write_cb := Cb_discard, rq_write_arg := True, rq_head_cb := True,
                        rq_nobody := 1\<rparr> in
              c_bind (perform env (ans1 env) rq s1) (\<lambda>(ok, s2, calls).
                if \<not> ok then Inr (s2, calls)
                else c_bind (perform env (ans2 env) (rq\<lparr>rq_quote := [''PWD'']\<rparr>) s2) (\<lambda>(ok2, s3, calls2).
                  if \<not> ok2 then Inr (leak s3, calls @ calls2)
                  else case currentDir s3 of
                    None \<Rightarrow> Inl Null_dereference
                  | Some b \<Rightarrow> c_bind (append_slash b) (\<lambda>b'. Inr (s3\<lparr>currentDir := Some b'\<rparr>, calls @ calls2)))))))"

text \<open>\<^verbatim>\<open>NLST\<close> and \<^verbatim>\<open>LIST\<close> differ in the verb only. The condition asks for a non-empty path where the
  comment wants an absent one.\<close>

definition list_command :: "string \<Rightarrow> string option \<Rightarrow> string \<Rightarrow> string" where
  "list_command verb dir_path dir =
     (case dir_path of
        None \<Rightarrow> verb @ '' '' @ dir
      | Some p \<Rightarrow>
          if p \<noteq> [] then verb @ '' '' @ dir
          else if take 1 p = ''/'' then verb @ '' '' @ p
          else verb @ '' '' @ dir @ p)"

definition list_request :: "string \<Rightarrow> ftp_env \<Rightarrow> string option \<Rightarrow> qurl_demo_ftp \<Rightarrow> ftp_result" where
  "list_request verb env dir_path s =
     (if \<not> qurl s then Inr (s, [])
      else c_bind (c_text (server_ap s)) (\<lambda>ap.
        let szComand_size = length ap + length (case dir_path of None \<Rightarrow> [] | Some p \<Rightarrow> p) + 64 in
        if \<not> alloc1 env then Inr (s, [])
        else c_bind (c_text (currentDir s)) (\<lambda>dir.
          if \<not> alloc2 env then Inr (leak (s\<lparr>url := None\<rparr>), [])
          else c_bind (server_ap_tail s) (\<lambda>_.
            let s1 = s\<lparr>url := Some (dir_url dir s)\<rparr> in
            c_bind (qurl_ftp_demo_request_command_std env
                (snprintf_buf szComand_size (list_command verb dir_path dir)) Cb_list 0 s1)
              (\<lambda>(s2, calls). Inr (leak s2, calls))))))"

definition qurl_ftp_demo_nlist :: "ftp_env \<Rightarrow> string option \<Rightarrow> qurl_demo_ftp \<Rightarrow> ftp_result" where
  "qurl_ftp_demo_nlist = list_request ''NLST''"

definition qurl_ftp_demo_list :: "ftp_env \<Rightarrow> string option \<Rightarrow> qurl_demo_ftp \<Rightarrow> ftp_result" where
  "qurl_ftp_demo_list = list_request ''LIST''"

text \<open>\<^verbatim>\<open>sprintf\<close> into a block of known size.\<close>

definition c_sprintf :: "nat \<Rightarrow> string \<Rightarrow> string c_result" where
  "c_sprintf n t = (if length t < n then Inr t else Inl Out_of_bounds)"

definition qurl_ftp_demo_mkdir :: "ftp_env \<Rightarrow> string option \<Rightarrow> qurl_demo_ftp \<Rightarrow> ftp_result" where
  "qurl_ftp_demo_mkdir env path s =
     (case path of
        None \<Rightarrow> Inr (s, [])
      | Some p \<Rightarrow>
          if \<not> qurl s \<or> p = [] then Inr (s, [])
          else c_bind (c_text (server_ap s)) (\<lambda>ap.
            if \<not> alloc1 env then Inr (s, [])
            else c_bind (server_ap_tail s) (\<lambda>_.
              c_bind (c_sprintf (length ap + length p + 64)
                  (if take 1 p \<noteq> ''/'' then ''MKD '' @ p else ''MKD '' @ ap @ p)) (\<lambda>szComand.
                qurl_ftp_demo_request_command_quote env (Some szComand) Cb_null 1 s))))"

definition qurl_ftp_demo_rmd :: "ftp_env \<Rightarrow> string option \<Rightarrow> qurl_demo_ftp \<Rightarrow> ftp_result" where
  "qurl_ftp_demo_rmd env path s =
     (case path of
        None \<Rightarrow> Inr (s, [])
      | Some p \<Rightarrow>
          if \<not> qurl s \<or> p = [] then Inr (s, [])
          else c_bind (c_text (server_ap s)) (\<lambda>ap.
            if \<not> alloc1 env then Inr (s, [])
            else c_bind (c_text (currentDir s)) (\<lambda>dir.
              if \<not> alloc2 env then Inr (s\<lparr>url := None\<rparr>, [])
              else
                let s1 = s\<lparr>url := Some (dir_url dir s)\<rparr>;
                    szComand = snprintf_buf (length ap + length p + 64)
                      (if take 1 p = ''/'' then ''RMD '' @ p else ''RMD '' @ dir @ p) in
                c_bind (qurl_ftp_demo_request_command_quote env (Some szComand) Cb_null 1 s1)
                  (\<lambda>(s2, calls). Inr (leak s2, calls)))))"

section \<open>The demo\<close>

text \<open>Opening works on a fresh context; a freed \<^verbatim>\<open>server_ap\<close> that gets no new value is \<open>None\<close> here.\<close>

definition qurl_ftp_demo_open :: "ftp_env \<Rightarrow> qurl_demo_ftp \<Rightarrow> ftp_result" where
  "qurl_ftp_demo_open env s =
     (let s0 = s\<lparr>qurl := core_created env\<rparr> in
      if \<not> core_created env then Inr (s0, [])
      else if \<not> alloc1 env then Inr (s0\<lparr>url := None\<rparr>, [])
      else c_bind (c_sprintf (length (hostname s) + 64) (''ftp://'' @ hostname s @ ''/'')) (\<lambda>u.
        let s1 = s0\<lparr>url := Some (u @ replicate (length (hostname s) + 64 - length u) NUL)\<rparr>;
            rq = (base_request s1)\<lparr>rq_write_cb := Cb_discard, rq_write_arg := True, rq_head_cb := True,
                  rq_nobody := 1, rq_active := False\<rparr> in
        c_bind (perform env (ans1 env) rq s1) (\<lambda>(ok, s2, calls).
          if \<not> ok then Inr (s2, calls)
          else case last_reply_Dir s2 of
            None \<Rightarrow> Inr (s2\<lparr>server_ap := None\<rparr>, calls)
          | Some b \<Rightarrow>
              Inr (s2\<lparr>server_ap := (if alloc2 env then Some (c_str b @ [NUL]) else None)\<rparr>, calls))))"

definition zero_ftp :: qurl_demo_ftp where
  "zero_ftp = \<lparr>qurl = False, hostname = [], username = [], password = [], timeout = 0, server_port = 0,
     transfer_type = 0, skip_pasv_ip = 0, pdp_cid = 0, currentDir = None, last_reply_Dir = None,
     server_ap = None, url = None, data = \<lparr>total_len = 0, used_len = 0, fd = 0, is_file = False\<rparr>,
     ssl_enable = SSL_TYPE_NONE, mode = MODE_PASSIVE, leaked = 0\<rparr>"

text \<open>Run operations one after the other; the environment of the \<open>i\<close>-th is \<open>env i\<close>.\<close>

fun run_ops ::
  "(nat \<Rightarrow> ftp_env) \<Rightarrow> nat \<Rightarrow> (ftp_env \<Rightarrow> qurl_demo_ftp \<Rightarrow> ftp_result) list \<Rightarrow> qurl_demo_ftp \<Rightarrow> ftp_result" where
  "run_ops env i [] s = Inr (s, [])"
| "run_ops env i (f # fs) s =
     c_bind (f (env i) s) (\<lambda>(s1, c1). c_bind (run_ops env (Suc i) fs s1) (\<lambda>(s2, c2). Inr (s2, c1 @ c2)))"

definition demo_ops :: "(ftp_env \<Rightarrow> qurl_demo_ftp \<Rightarrow> ftp_result) list" where
  "demo_ops =
     [qurl_ftp_demo_open,
      \<lambda>e. qurl_ftp_demo_mkdir e (Some QURL_FTP_DEMO_TEST_DIR),
      \<lambda>e. qurl_ftp_demo_cwd e (Some QURL_FTP_DEMO_TEST_DIR),
      qurl_ftp_demo_pwd,
      \<lambda>e. qurl_ftp_demo_size e QURL_FTP_DEMO_SERVER_FILENAME,
      \<lambda>e. qurl_ftp_demo_get e QURL_FTP_DEMO_SERVER_FILENAME,
      \<lambda>e. qurl_ftp_demo_list e None,
      \<lambda>e. qurl_ftp_demo_nlist e None,
      \<lambda>e. qurl_ftp_demo_delete e (Some QURL_FTP_DEMO_SERVER_FILENAME),
      \<lambda>e. qurl_ftp_demo_cwd e (Some ''/''),
      \<lambda>e. qurl_ftp_demo_rmd e (Some QURL_FTP_DEMO_TEST_DIR),
      \<lambda>e s. Inr (s, [Core_delete])]"

text \<open>The clean-up frees the four strings and the context; what remains is \<open>leaked\<close>.\<close>

definition ftp_get_demo :: "(nat \<Rightarrow> ftp_env) \<Rightarrow> (nat \<times> ftp_call list) c_result" where
  "ftp_get_demo env =
     c_bind (run_ops env 0 demo_ops (qurl_ftp_demo_init zero_ftp)) (\<lambda>(s, calls). Inr (leaked s, calls))"

section \<open>Lemmas\<close>

lemma printed_text [simp]:
  assumes "NUL \<notin> set t" and "length t < n"
  shows "c_str (printed n t) = t"
  using assms by (simp add: printed_def)

lemma quote_from_split:
  "CHR 34 \<notin> set d \<Longrightarrow> quote_from (d @ CHR 34 # t) i = i + length d"
  by (induction d arbitrary: i) auto

text \<open>The code of a 257 reply.\<close>

lemma atoi_257: "atoi ''257'' = 257"
  by (simp add: atoi_def is_space_def is_digit_def digits_value_def)

lemma get_current_dir_reply:
  assumes "CHR 34 \<notin> set d"
  shows "qurl_ftp_demo_open_get_current_dir True (''257 '' @ [CHR 34] @ d @ [CHR 34] @ t) old =
    Some (d @ replicate (6 + length t) NUL)"
  using quote_from_split [OF assms, of t 5]
  by (simp add: qurl_ftp_demo_open_get_current_dir_def Let_def)

lemma header_257:
  assumes "CHR 34 \<notin> set d" and "NUL \<notin> set d" and "dir_alloc env" and "cur_alloc env"
  shows "qurl_ftp_demo_open_header env (''257 '' @ [CHR 34] @ d @ [CHR 34] @ t) s =
      Inr (s\<lparr>last_reply_Dir := Some (d @ replicate (6 + length t) NUL), currentDir := Some (d @ [NUL])\<rparr>)"
proof -
  have "c_str ''257'' = ''257''" by simp
  with get_current_dir_reply [OF assms(1), of t "last_reply_Dir s"] assms(2-4) atoi_257 show ?thesis
    by (simp add: qurl_ftp_demo_open_header_def Let_def)
qed

lemma run_chunks_all:
  assumes "\<forall>b \<in> set bs. io_within (vfs_io env b) (length b) \<and> (\<forall>off < length b. 0 < vfs_io env b off)"
  shows "run_chunks env bs s =
    (s\<lparr>data := (data s)\<lparr>used_len := used_len (data s) + int (length (concat bs))\<rparr>\<rparr>,
     map (Vfs_write (fd (data s))) bs)"
  using assms
proof (induction bs arbitrary: s)
  case Nil
  then show ?case by simp
next
  case (Cons b bs)
  have "qurl_ftp_demo_vfs_write (vfs_io env b) (length b) 0 = (0, length b)"
    using Cons.prems by (intro ftp_write.loop_completes) simp_all
  with Cons show ?case
    by (simp add: qurl_ftp_download_data_cb_def add.assoc)
qed

lemmas command_defs = perform_def qurl_ftp_demo_request_command_quote_def
  qurl_ftp_demo_request_command_std_def base_request_def Let_def

section \<open>Properties of the FTP example\<close>

text \<open>C30: a server's reply \<^verbatim>\<open>257 "dir"\<close> is understood: whatever follows the closing quote, the current
  directory becomes exactly \<open>dir\<close>, and nothing else of the context changes but the last reply.\<close>

theorem dir_reply_round_trip:
  assumes "CHR 34 \<notin> set d" and "NUL \<notin> set d" and "dir_alloc env" and "cur_alloc env"
  shows "\<exists>b. qurl_ftp_demo_open_header env (''257 '' @ [CHR 34] @ d @ [CHR 34] @ t) s =
      Inr (s\<lparr>last_reply_Dir := Some b, currentDir := Some (d @ [NUL])\<rparr>) \<and>
    c_text (Some b) = Inr d \<and> c_text (Some (d @ [NUL])) = Inr d"
  using header_257 [OF assms, of t s] assms(2)
  by (intro exI [of _ "d @ replicate (6 + length t) NUL"]) (simp add: c_text_def)

text \<open>C29: a download asks for the complete URL of the file, whatever the lengths of host, directory
  and name, and when the file system takes every write, the file handle gets all data in order
  between one open and one close, and \<^verbatim>\<open>used_len\<close> grows by its length.\<close>

theorem get_downloads_file:
  assumes "0 \<le> opened_fd env" and "currentDir s = Some b" and "alloc1 env"
    and "NUL \<notin> set (hostname s)" and "NUL \<notin> set filename"
    and "\<forall>c \<in> set (chunks (ans1 env)). io_within (vfs_io env c) (length c) \<and> (\<forall>off < length c. 0 < vfs_io env c off)"
  shows "\<exists>s' rq. qurl_ftp_demo_get env filename s =
      Inr (s', Vfs_open # Perform rq # map (Vfs_write (opened_fd env)) (chunks (ans1 env)) @ [Vfs_close (opened_fd env)]) \<and>
    rq_url rq = Some (''ftp://'' @ hostname s @ c_str b @ ''/'' @ filename) \<and>
    used_len (data s') = used_len (data s) + int (length (concat (chunks (ans1 env))))"
  using assms run_chunks_all [OF assms(6)]
  by (simp add: qurl_ftp_demo_get_def c_text_def command_defs)

text \<open>When a write of the download fails, the callback closes the file and the download closes it
  again: the handle is closed twice, the second time after it may have been given to another
  file.\<close>

theorem failed_write_closes_twice:
  assumes "0 \<le> opened_fd env" and "currentDir s = Some b" and "alloc1 env"
    and "chunks (ans1 env) = [c]" and "io_within (vfs_io env c) (length c)"
    and "qurl_ftp_demo_vfs_write (vfs_io env c) (length c) 0 \<noteq> (0, length c)"
  shows "\<exists>s' rq k. qurl_ftp_demo_get env filename s =
      Inr (s', [Vfs_open, Perform rq, Vfs_write (opened_fd env) (take k c),
        Vfs_close (opened_fd env), Vfs_close (opened_fd env)]) \<and> k < length c"
proof -
  obtain k where "qurl_ftp_demo_vfs_write (vfs_io env c) (length c) 0 = (-1, k)" "k < length c"
    using ftp_write.loop_result [OF assms(5), of 0] assms(6) by auto
  with assms(1-4) show ?thesis
    by (auto simp: qurl_ftp_demo_get_def c_text_def command_defs qurl_ftp_download_data_cb_def)
qed

text \<open>Changing into a directory whose name the server reports without a trailing slash writes one
  byte behind the block that holds it: the current directory was allocated for its text and
  terminator only.\<close>

theorem cwd_writes_past_block:
  assumes "qurl s" and "p \<noteq> []" and "currentDir s = Some b" and "server_ap s = Some a" and "c_str a \<noteq> []"
    and "alloc1 env" and "dir_alloc env" and "cur_alloc env"
    and "res_ok (ans1 env)" and "reply_lines (ans1 env) = []" and "res_ok (ans2 env)"
    and "reply_lines (ans2 env) = [''257 '' @ [CHR 34] @ d @ [CHR 34] @ t]"
    and "CHR 34 \<notin> set d" and "NUL \<notin> set d" and "d \<noteq> []" and "last d \<noteq> CHR ''/''"
  shows "qurl_ftp_demo_cwd env (Some p) s = Inl Out_of_bounds"
proof -
  have over: "append_slash (d @ [NUL]) = Inl Out_of_bounds"
    using assms(14-16)
    by (simp add: append_slash_def Let_def c_store_def nth_append last_conv_nth)
  define hdr where "hdr = ''257 '' @ [CHR 34] @ d @ [CHR 34] @ t"
  have "\<exists>s'. qurl_ftp_demo_open_header env hdr s1 = Inr s' \<and> currentDir s' = Some (d @ [NUL])" for s1
    using header_257 [OF assms(13,14,7,8), of t s1] by (auto simp: hdr_def)
  then obtain nxt where nxt: "\<And>s1. qurl_ftp_demo_open_header env hdr s1 = Inr (nxt s1) \<and>
      currentDir (nxt s1) = Some (d @ [NUL])"
    by metis
  have "reply_lines (ans2 env) = [hdr]" using assms(12) by (simp add: hdr_def)
  with assms(1-6,9-11) over nxt show ?thesis
    by (simp add: qurl_ftp_demo_cwd_def c_text_def server_ap_tail_def command_defs)
qed

text \<open>The buffer of a \<^verbatim>\<open>DELE\<close> with a relative path is sized for the server's root but filled with the
  current directory: the path sent is complete exactly when the current directory is at most 58
  characters longer than the root; in a deeper directory a truncated path is deleted. The
  buffer is never freed.\<close>

theorem delete_path_complete_iff:
  assumes "qurl s" and "server_ap s = Some a" and "currentDir s = Some b" and "alloc1 env" and "alloc2 env"
    and "p \<noteq> []" and "take 1 p \<noteq> ''/''"
  shows "\<exists>s' rq. qurl_ftp_demo_delete env (Some p) s = Inr (s', [Perform rq]) \<and>
    (rq_quote rq = [''DELE '' @ c_str b @ p] \<longleftrightarrow> length (c_str b) \<le> length (c_str a) + 58) \<and>
    leaked s' = Suc (leaked s)"
proof -
  let ?cmd = "''DELE '' @ c_str b @ p" and ?n = "length (c_str a) + length p + 64"
  have "snprintf_buf ?n ?cmd = ?cmd \<longleftrightarrow> length (c_str b) \<le> length (c_str a) + 58"
  proof (cases "length (c_str b) \<le> length (c_str a) + 58")
    case True
    then show ?thesis by simp
  next
    case False
    then have "length (snprintf_buf ?n ?cmd) \<noteq> length ?cmd" by (simp add: snprintf_buf_def)
    with False show ?thesis by metis
  qed
  with assms show ?thesis
    by (simp add: qurl_ftp_demo_delete_def c_text_def command_defs leak_def)
qed

text \<open>Listing a directory by name lists the current one: for every non-empty path, absolute or
  not, the command sent names the current directory (when the buffer holds it).\<close>

theorem list_ignores_path:
  assumes "qurl s" and "server_ap s = Some a" and "c_str a \<noteq> []" and "currentDir s = Some b"
    and "alloc1 env" and "alloc2 env" and "p \<noteq> []"
    and "length (c_str b) + 5 < length (c_str a) + length p + 64"
  shows "\<exists>s' rq. qurl_ftp_demo_list env (Some p) s = Inr (s', [Perform rq]) \<and>
    rq_custom rq = Some (''LIST '' @ c_str b) \<and> leaked s' = Suc (leaked s)"
  using assms
  by (simp add: qurl_ftp_demo_list_def list_request_def c_text_def server_ap_tail_def list_command_def
      command_defs leak_def)

text \<open>The demo does not look at the result of opening: when the connection fails, making the
  directory dereferences the server root that was never set.\<close>

theorem failed_open_dereferences_null:
  assumes "core_created (env 0)" and "alloc1 (env 0)" and "\<not> res_ok (ans1 (env 0))"
    and "reply_lines (ans1 (env 0)) = []"
  shows "ftp_get_demo env = Inl Null_dereference"
proof -
  let ?s = "qurl_ftp_demo_init zero_ftp"
  have "server_ap ?s = None" "hostname ?s = ''xxx''"
    by (simp_all add: qurl_ftp_demo_init_def zero_ftp_def QURL_FTP_DEMO_HOSTNAME_def QURL_FTP_HOSTNAME_MAX_LEN_def)
  with assms obtain s1 calls where "qurl_ftp_demo_open (env 0) ?s = Inr (s1, calls)" "server_ap s1 = None" "qurl s1"
    by (simp add: qurl_ftp_demo_open_def c_sprintf_def command_defs)
  then show ?thesis
    by (simp add: ftp_get_demo_def demo_ops_def qurl_ftp_demo_mkdir_def QURL_FTP_DEMO_TEST_DIR_def c_text_def)
qed

section \<open>The properties at concrete inputs\<close>

definition ex_ans :: answer where
  "ex_ans = \<lparr>res_ok = True, reply_lines = [], chunks = [''abc'', ''de'']\<rparr>"

definition ex_env :: ftp_env where
  "ex_env = \<lparr>alloc1 = True, alloc2 = True, dir_alloc = True, cur_alloc = True, ans1 = ex_ans,
     ans2 = ex_ans\<lparr>reply_lines := [''257 '' @ [CHR 34] @ ''/ftp_test_dir'' @ [CHR 34] @ '' ok'']\<rparr>,
     opened_fd = 3, vfs_io = (\<lambda>c off. 1), content_length = Some 5, core_created = True\<rparr>"

definition ex_ftp :: qurl_demo_ftp where
  "ex_ftp = (qurl_ftp_demo_init zero_ftp)\<lparr>qurl := True, currentDir := Some (''/'' @ [NUL]), server_ap := Some (''/'' @ [NUL])\<rparr>"

lemma root_text: "c_str [CHR ''/'', NUL] = ''/''"
  by (simp add: c_str_def)

lemmas ftp_eval = ex_ftp_def ex_env_def ex_ans_def qurl_ftp_demo_init_def zero_ftp_def
  QURL_FTP_DEMO_HOSTNAME_def QURL_FTP_HOSTNAME_MAX_LEN_def root_text

theorem dir_reply_round_trip_witness:
  "\<exists>b. qurl_ftp_demo_open_header ex_env (''257 '' @ [CHR 34] @ ''/home/user'' @ [CHR 34] @ '' is cwd'') ex_ftp =
      Inr (ex_ftp\<lparr>last_reply_Dir := Some b, currentDir := Some (''/home/user'' @ [NUL])\<rparr>)"
proof -
  have "dir_alloc ex_env" "cur_alloc ex_env" by (simp_all add: ex_env_def)
  from dir_reply_round_trip [OF _ _ this, of "''/home/user''" "'' is cwd''" ex_ftp] show ?thesis
    by auto
qed

theorem get_downloads_file_witness:
  "\<exists>s' rq. qurl_ftp_demo_get ex_env ''a.txt'' ex_ftp =
      Inr (s', [Vfs_open, Perform rq, Vfs_write 3 ''abc'', Vfs_write 3 ''de'', Vfs_close 3]) \<and>
    rq_url rq = Some ''ftp://xxx//a.txt'' \<and> used_len (data s') = 5"
proof -
  have "0 \<le> opened_fd ex_env" "currentDir ex_ftp = Some [CHR ''/'', NUL]" "alloc1 ex_env"
      "NUL \<notin> set (hostname ex_ftp)" "NUL \<notin> set ''a.txt''"
      "\<forall>c \<in> set (chunks (ans1 ex_env)). io_within (vfs_io ex_env c) (length c) \<and>
        (\<forall>off < length c. 0 < vfs_io ex_env c off)"
    by (simp_all add: ftp_eval io_within_def)
  from get_downloads_file [OF this] show ?thesis
    by (simp add: ftp_eval)
qed

theorem failed_write_closes_twice_witness:
  "\<exists>s' rq k. qurl_ftp_demo_get (ex_env\<lparr>ans1 := ex_ans\<lparr>chunks := [''abc'']\<rparr>, vfs_io := (\<lambda>c off. 1 - int off)\<rparr>) ''a.txt'' ex_ftp =
      Inr (s', [Vfs_open, Perform rq, Vfs_write 3 (take k ''abc''), Vfs_close 3, Vfs_close 3]) \<and> k < 3"
proof -
  let ?env = "ex_env\<lparr>ans1 := ex_ans\<lparr>chunks := [''abc'']\<rparr>, vfs_io := (\<lambda>c off. 1 - int off)\<rparr>"
  have "0 \<le> opened_fd ?env" "currentDir ex_ftp = Some [CHR ''/'', NUL]" "alloc1 ?env"
      "chunks (ans1 ?env) = [''abc'']" "io_within (vfs_io ?env ''abc'') (length ''abc'')"
      "qurl_ftp_demo_vfs_write (vfs_io ?env ''abc'') (length ''abc'') 0 \<noteq> (0, length ''abc'')"
    by (simp_all add: ftp_eval io_within_def qurl_ftp_demo_vfs_write.simps)
  from failed_write_closes_twice [OF this, of "''a.txt''"] show ?thesis
    by (simp add: ex_env_def numeral_3_eq_3)
qed

text \<open>The change of directory the demo itself makes.\<close>

theorem cwd_writes_past_block_witness:
  "qurl_ftp_demo_cwd ex_env (Some QURL_FTP_DEMO_TEST_DIR) ex_ftp = Inl Out_of_bounds"
  by (rule cwd_writes_past_block [where b = "''/'' @ [NUL]" and a = "''/'' @ [NUL]" and d = "''/ftp_test_dir''" and t = "'' ok''"])
    (simp_all add: ftp_eval QURL_FTP_DEMO_TEST_DIR_def)

theorem delete_path_complete_iff_witness:
  "\<exists>s' rq. qurl_ftp_demo_delete ex_env (Some ''a.txt'') (ex_ftp\<lparr>currentDir := Some (replicate 70 (CHR ''d'') @ [NUL])\<rparr>) =
      Inr (s', [Perform rq]) \<and> rq_quote rq \<noteq> [''DELE '' @ replicate 70 (CHR ''d'') @ ''a.txt''] \<and> leaked s' = 1"
proof -
  let ?s = "ex_ftp\<lparr>currentDir := Some (replicate 70 (CHR ''d'') @ [NUL])\<rparr>"
  have dir: "c_str (replicate 70 (CHR ''d'') @ [NUL]) = replicate 70 (CHR ''d'')"
    by (rule c_str_append_nul) (simp add: in_set_replicate)
  have "qurl ?s" "server_ap ?s = Some [CHR ''/'', NUL]" "currentDir ?s = Some (replicate 70 (CHR ''d'') @ [NUL])"
      "alloc1 ex_env" "alloc2 ex_env" "''a.txt'' \<noteq> []" "take 1 ''a.txt'' \<noteq> ''/''"
    by (simp_all add: ftp_eval)
  from delete_path_complete_iff [OF this] dir show ?thesis
    by (simp add: root_text) (simp add: ftp_eval)
qed

theorem list_ignores_path_witness:
  "\<exists>s' rq. qurl_ftp_demo_list ex_env (Some ''/other'') ex_ftp = Inr (s', [Perform rq]) \<and>
    rq_custom rq = Some ''LIST /'' \<and> leaked s' = 1"
proof -
  have "qurl ex_ftp" "server_ap ex_ftp = Some [CHR ''/'', NUL]" "c_str [CHR ''/'', NUL] \<noteq> []"
      "currentDir ex_ftp = Some [CHR ''/'', NUL]" "alloc1 ex_env" "alloc2 ex_env" "''/other'' \<noteq> []"
      "length (c_str [CHR ''/'', NUL]) + 5 < length (c_str [CHR ''/'', NUL]) + length ''/other'' + 64"
    by (simp_all add: ftp_eval)
  from list_ignores_path [OF this] show ?thesis
    by (simp add: root_text) (simp add: ftp_eval)
qed

theorem failed_open_dereferences_null_witness:
  "ftp_get_demo (\<lambda>_. ex_env\<lparr>ans1 := ex_ans\<lparr>res_ok := False\<rparr>\<rparr>) = Inl Null_dereference"
  by (rule failed_open_dereferences_null) (simp_all add: ftp_eval)

end
