(* ===== verification/Ftp_Put.thy ===== *)
theory Ftp_Put
  imports Ftp_Get Upload "HOL-Library.Sublist"
begin

text \<open>
  The FTP upload example, \<^verbatim>\<open>network/network_protocol/ftp/put/ftp_put_demo.c\<close>.

  Its commands, reply parser and file helpers are the text of the download example, so their
  definitions are those of \<open>Ftp_Get\<close>; its own are the upload callback, the \<^verbatim>\<open>put\<close> command and the
  demo. The file is its content and a function that says how many bytes a read at a position
  yields; \<open>pull_all\<close> is the library asking the callback for data.
\<close>

section \<open>Data\<close>

definition QURL_FTP_DEMO_UPLOAD_FILENAME :: string where
  "QURL_FTP_DEMO_UPLOAD_FILENAME = ''/user/ftp_test1.txt''"

record put_file =
  content :: string
  read_io :: "nat \<Rightarrow> nat \<Rightarrow> int"     \<comment> \<open>\<^verbatim>\<open>qosa_vfs_read\<close> at a position, bytes asked for\<close>
  st_size :: "int option"            \<comment> \<open>\<^verbatim>\<open>qosa_vfs_fstat\<close>; \<open>None\<close> when it fails\<close>
  fstat_err :: int                   \<comment> \<open>its result in that case\<close>

datatype put_call =
    Ftp ftp_call
  | Vfs_open_ro string
  | Vfs_fstat int
  | Vfs_lseek int
  | Vfs_read int string              \<comment> \<open>handle, bytes read\<close>
  | Upload request string            \<comment> \<open>options, bytes the callback handed over\<close>

record put_run =
  ctx :: qurl_demo_ftp
  file_pos :: nat
  put_trace :: "put_call list"

section \<open>Operations\<close>

definition qurl_ftp_upload_data_cb :: "put_file \<Rightarrow> put_run read_cb" where
  "qurl_ftp_upload_data_cb fe buf_size u =
     (if buf_size = 0 then Inr ([], u)
      else
        let d = data (ctx u) in
        if used_len d < total_len d then
          (let free_len = total_len d - used_len d;
               read_len = min (int buf_size) free_len;
               pos = file_pos u;
               (ret, n) = qurl_ftp_demo_file_read (\<lambda>off. read_io fe (pos + off) (nat read_len - off)) (nat read_len) 0;
               u1 = u\<lparr>file_pos := pos + n, put_trace := put_trace u @ [Vfs_read (fd d) (take n (drop pos (content fe)))]\<rparr> in
           if ret < 0 then Inr ([], u1\<lparr>put_trace := put_trace u1 @ [Ftp (Vfs_close (fd d))]\<rparr>)
           else Inr (take (nat read_len) (drop pos (content fe)),
                     u1\<lparr>ctx := (ctx u)\<lparr>data := d\<lparr>used_len := used_len d + read_len\<rparr>\<rparr>\<rparr>))
        else Inr ([], u))"

text \<open>\<^verbatim>\<open>data->is_file\<close> is set to true right before it is tested, so the branch for constant data is never
  taken. On success the value returned is the one \<^verbatim>\<open>fstat\<close> left in \<^verbatim>\<open>ret\<close>.\<close>

definition qurl_ftp_demo_put ::
  "ftp_env \<Rightarrow> put_file \<Rightarrow> (nat \<Rightarrow> nat) \<Rightarrow> string \<Rightarrow> qurl_demo_ftp \<Rightarrow>
   (int \<times> qurl_demo_ftp \<times> put_call list) c_result option" where
  "qurl_ftp_demo_put env fe sizes filename s =
     (let f = opened_fd env;
          s1 = s\<lparr>data := \<lparr>total_len = 0, used_len = 0, fd = f, is_file = True\<rparr>\<rparr> in
      if f < 0 then Some (Inr (-1, s1, [Vfs_open_ro filename]))
      else
        let (ret, s2) = (case st_size fe of
                           Some n \<Rightarrow> (0, s1\<lparr>data := (data s1)\<lparr>total_len := n\<rparr>\<rparr>)
                         | None \<Rightarrow> (fstat_err fe, s1));
            opening = [Vfs_open_ro filename, Vfs_fstat f, Vfs_lseek f] in
        case c_text (currentDir s2) of
          Inl u \<Rightarrow> Some (Inl u)
        | Inr dir \<Rightarrow>
            let url_len = length (hostname s2) + length dir + length QURL_FTP_DEMO_SERVER_FILENAME + 64 in
            if \<not> alloc1 env then Some (Inr (-1, s2\<lparr>url := None\<rparr>, opening @ [Ftp (Vfs_close f)]))
            else
              let s3 = s2\<lparr>url := Some (printed url_len (''ftp://'' @ hostname s2 @ dir @ QURL_FTP_DEMO_SERVER_FILENAME))\<rparr> in
              Option.bind
                (pull_all (qurl_ftp_upload_data_cb fe) sizes 0 \<lparr>ctx = s3, file_pos = 0, put_trace = []\<rparr>)
                (\<lambda>r. Some (c_bind r (\<lambda>(sent, u).
                  Inr (if res_ok (ans1 env) then ret else -1, ctx u,
                       opening @ Upload (base_request s3) sent # put_trace u @ [Ftp (Vfs_close (fd (data (ctx u))))])))))"

text \<open>The file repeats the commands of the download example word for word; here they are operations of the
  demo, whose trace also has the calls of the upload.\<close>

type_synonym put_op = "ftp_env \<Rightarrow> qurl_demo_ftp \<Rightarrow> (qurl_demo_ftp \<times> put_call list) c_result option"

definition ftp_op :: "(ftp_env \<Rightarrow> qurl_demo_ftp \<Rightarrow> ftp_result) \<Rightarrow> put_op" where
  "ftp_op f env s = Some (c_bind (f env s) (\<lambda>(s1, calls). Inr (s1, map Ftp calls)))"

definition put_upload :: "put_file \<Rightarrow> (nat \<Rightarrow> nat) \<Rightarrow> put_op" where
  "put_upload fe sizes env s =
     Option.bind (qurl_ftp_demo_put env fe sizes QURL_FTP_DEMO_UPLOAD_FILENAME s)
       (\<lambda>r. Some (c_bind r (\<lambda>(ret, s1, calls). Inr (s1, calls))))"

definition put_open :: put_op where
  "put_open = ftp_op qurl_ftp_demo_open"

definition put_mkdir :: "string option \<Rightarrow> put_op" where
  "put_mkdir path = ftp_op (\<lambda>e. qurl_ftp_demo_mkdir e path)"

definition put_cwd :: "string option \<Rightarrow> put_op" where
  "put_cwd path = ftp_op (\<lambda>e. qurl_ftp_demo_cwd e path)"

definition put_pwd :: put_op where
  "put_pwd = ftp_op qurl_ftp_demo_pwd"

definition put_size :: "string \<Rightarrow> put_op" where
  "put_size name = ftp_op (\<lambda>e. qurl_ftp_demo_size e name)"

definition put_list :: "string option \<Rightarrow> put_op" where
  "put_list path = ftp_op (\<lambda>e. qurl_ftp_demo_list e path)"

definition put_nlist :: "string option \<Rightarrow> put_op" where
  "put_nlist path = ftp_op (\<lambda>e. qurl_ftp_demo_nlist e path)"

definition put_delete :: "string option \<Rightarrow> put_op" where
  "put_delete path = ftp_op (\<lambda>e. qurl_ftp_demo_delete e path)"

definition put_rmd :: "string option \<Rightarrow> put_op" where
  "put_rmd path = ftp_op (\<lambda>e. qurl_ftp_demo_rmd e path)"

definition put_close :: put_op where
  "put_close = ftp_op (\<lambda>e s. Inr (s, [Core_delete]))"

lemmas put_commands = put_open_def put_mkdir_def put_cwd_def put_pwd_def put_size_def put_list_def put_nlist_def
  put_delete_def put_rmd_def put_close_def

definition put_demo_ops :: "put_file \<Rightarrow> (nat \<Rightarrow> nat) \<Rightarrow> put_op list" where
  "put_demo_ops fe sizes =
     [put_open,
      put_mkdir (Some QURL_FTP_DEMO_TEST_DIR),
      put_cwd (Some QURL_FTP_DEMO_TEST_DIR),
      put_pwd,
      put_upload fe sizes,
      put_size QURL_FTP_DEMO_SERVER_FILENAME,
      put_list None,
      put_nlist None,
      put_delete (Some QURL_FTP_DEMO_SERVER_FILENAME),
      put_cwd (Some ''/''),
      put_rmd (Some QURL_FTP_DEMO_TEST_DIR),
      put_close]"

fun run_put_ops ::
  "(nat \<Rightarrow> ftp_env) \<Rightarrow> nat \<Rightarrow> put_op list \<Rightarrow> qurl_demo_ftp \<Rightarrow> (qurl_demo_ftp \<times> put_call list) c_result option" where
  "run_put_ops env i [] s = Some (Inr (s, []))"
| "run_put_ops env i (f # fs) s =
     (case f (env i) s of
        None \<Rightarrow> None
      | Some (Inl u) \<Rightarrow> Some (Inl u)
      | Some (Inr (s1, c1)) \<Rightarrow>
          (case run_put_ops env (Suc i) fs s1 of
             None \<Rightarrow> None
           | Some (Inl u) \<Rightarrow> Some (Inl u)
           | Some (Inr (s2, c2)) \<Rightarrow> Some (Inr (s2, c1 @ c2))))"

definition ftp_put_demo ::
  "(nat \<Rightarrow> ftp_env) \<Rightarrow> put_file \<Rightarrow> (nat \<Rightarrow> nat) \<Rightarrow> (nat \<times> put_call list) c_result option" where
  "ftp_put_demo env fe sizes =
     Option.bind (run_put_ops env 0 (put_demo_ops fe sizes) (qurl_ftp_demo_init zero_ftp))
       (\<lambda>r. Some (c_bind r (\<lambda>(s, calls). Inr (leaked s, calls))))"

section \<open>The callback as an upload\<close>

text \<open>A read yields what is there, and no more than was asked for.\<close>

definition file_reads :: "put_file \<Rightarrow> bool" where
  [env_defs]: "file_reads fe \<longleftrightarrow> (\<forall>pos n. read_io fe pos n \<le> int (min n (length (content fe) - pos)))"

definition in_step :: "put_file \<Rightarrow> int \<Rightarrow> put_run \<Rightarrow> bool" where
  "in_step fe f u \<longleftrightarrow> used_len (data (ctx u)) = int (file_pos u) \<and> file_pos u \<le> length (content fe) \<and>
     total_len (data (ctx u)) = int (length (content fe)) \<and> fd (data (ctx u)) = f \<and>
     (\<exists>ds. put_trace u = map (Vfs_read f) ds \<and> concat ds = take (file_pos u) (content fe))"

text \<open>Before the end of the file a read yields something.\<close>

definition file_progress :: "put_file \<Rightarrow> bool" where
  [env_defs]: "file_progress fe \<longleftrightarrow> (\<forall>pos < length (content fe). \<forall>n > 0. 0 < read_io fe pos n)"

lemma read_within:
  assumes "file_reads fe"
  shows "io_within (\<lambda>off. read_io fe (pos + off) (len - off)) len"
  unfolding io_within_def
proof (intro allI impI)
  fix off assume "off < len"
  have "read_io fe (pos + off) (len - off) \<le> int (min (len - off) (length (content fe) - (pos + off)))"
    using assms unfolding file_reads_def by blast
  then show "read_io fe (pos + off) (len - off) \<le> int (len - off)" by linarith
qed

text \<open>Whatever the file answers, a call that returns data brings the count closer to the total.\<close>

interpretation put_pull: pulled "qurl_ftp_upload_data_cb fe" "\<lambda>u. True"
  "\<lambda>u. nat (total_len (data (ctx u)) - used_len (data (ctx u)))" "\<lambda>n. True" for fe
proof
  fix u n
  show "\<exists>d s'. qurl_ftp_upload_data_cb fe n u = Inr (d, s') \<and> True \<and> length d \<le> n \<and>
      (d \<noteq> [] \<longrightarrow> nat (total_len (data (ctx s')) - used_len (data (ctx s')))
        < nat (total_len (data (ctx u)) - used_len (data (ctx u))))"
    by (auto simp: qurl_ftp_upload_data_cb_def Let_def split: prod.splits)
qed

text \<open>What the library gets is the beginning of the file from the position on, also when a read fails.\<close>

interpretation put_prefix: upload_spec "qurl_ftp_upload_data_cb fe" "\<lambda>u. file_reads fe"
  "\<lambda>u. nat (total_len (data (ctx u)) - used_len (data (ctx u)))" "\<lambda>n. True"
  "\<lambda>u out. prefix out (drop (file_pos u) (content fe))" for fe
proof
  fix u n
  assume "file_reads fe"
  then show "\<exists>d s'. qurl_ftp_upload_data_cb fe n u = Inr (d, s') \<and> file_reads fe \<and> length d \<le> n \<and>
      (d \<noteq> [] \<longrightarrow> nat (total_len (data (ctx s')) - used_len (data (ctx s')))
        < nat (total_len (data (ctx u)) - used_len (data (ctx u))))"
    using put_pull.call [where fe = fe and s = u and n = n] by simp
next
  fix u n d s' out
  assume *: "file_reads fe" "qurl_ftp_upload_data_cb fe n u = Inr (d, s')" "d \<noteq> []"
    "prefix out (drop (file_pos s') (content fe))"
  define len where "len = nat (min (int n) (total_len (data (ctx u)) - used_len (data (ctx u))))"
  have "qurl_ftp_demo_file_read (\<lambda>off. read_io fe (file_pos u + off) (len - off)) len 0 = (0, len) \<or>
      fst (qurl_ftp_demo_file_read (\<lambda>off. read_io fe (file_pos u + off) (len - off)) len 0) = -1"
    using ftp_read.loop_result [OF read_within [OF *(1)], of 0 len "file_pos u"] by auto
  with *(2,3) have "d = take len (drop (file_pos u) (content fe))" "file_pos s' = file_pos u + len"
    by (auto simp: qurl_ftp_upload_data_cb_def len_def Let_def split: prod.splits if_splits)
  with *(4) show "prefix (d @ out) (drop (file_pos u) (content fe))"
    by (metis drop_split same_prefix_prefix)
qed simp

interpretation put_source: upload_source "qurl_ftp_upload_data_cb fe"
  "\<lambda>u. file_reads fe \<and> file_progress fe \<and> in_step fe f u" "\<lambda>u. drop (file_pos u) (content fe)" "\<lambda>n. 0 < n" for fe f
proof
  fix u n
  assume inv: "file_reads fe \<and> file_progress fe \<and> in_step fe f u" and n: "0 < (n::nat)"
  let ?pos = "file_pos u"
  define len where "len = min n (length (content fe) - ?pos)"
  have len: "nat (min (int n) (total_len (data (ctx u)) - used_len (data (ctx u)))) = len"
    "used_len (data (ctx u)) < total_len (data (ctx u)) \<longleftrightarrow> ?pos < length (content fe)"
    "min (int n) (total_len (data (ctx u)) - used_len (data (ctx u))) = int len"
    using inv by (auto simp: in_step_def len_def)
  have "\<forall>off < len. 0 < read_io fe (?pos + off) (len - off)"
  proof (intro allI impI)
    fix off assume "off < len"
    then have "?pos + off < length (content fe)" "0 < len - off" by (auto simp: len_def)
    with inv show "0 < read_io fe (?pos + off) (len - off)" unfolding file_progress_def by blast
  qed
  then have "qurl_ftp_demo_file_read (\<lambda>off. read_io fe (?pos + off) (len - off)) len 0 = (0, len)"
    using inv by (intro ftp_read.loop_completes read_within) simp_all
  note read = this
  obtain ds where ds: "put_trace u = map (Vfs_read f) ds" "concat ds = take ?pos (content fe)"
    using inv by (auto simp: in_step_def)
  show "\<exists>d s'. qurl_ftp_upload_data_cb fe n u = Inr (d, s') \<and>
      (file_reads fe \<and> file_progress fe \<and> in_step fe f s') \<and> length d \<le> n \<and>
      drop ?pos (content fe) = d @ drop (file_pos s') (content fe) \<and> (d = [] \<longrightarrow> drop ?pos (content fe) = [])"
  proof (cases "?pos < length (content fe)")
    case False
    with n inv len show ?thesis by (simp add: qurl_ftp_upload_data_cb_def Let_def)
  next
    case True
    define piece where "piece = take len (drop ?pos (content fe))"
    have "len \<le> n" "?pos + len \<le> length (content fe)" "0 < len" using True n by (auto simp: len_def)
    moreover have "map (Vfs_read f) ds @ [Vfs_read f piece] = map (Vfs_read f) (ds @ [piece])"
      "concat (ds @ [piece]) = take (?pos + len) (content fe)"
      using ds by (simp_all add: piece_def take_add)
    then have "\<exists>es. map (Vfs_read f) ds @ [Vfs_read f piece] = map (Vfs_read f) es \<and>
        concat es = take (?pos + len) (content fe)"
      by metis
    moreover have "drop ?pos (content fe) = piece @ drop (?pos + len) (content fe)"
      unfolding piece_def by (rule drop_split)
    moreover have "piece \<noteq> []" "length piece = len" using True \<open>0 < len\<close> by (auto simp: piece_def len_def)
    ultimately show ?thesis
      using n inv len read ds(1) True
      by (simp add: qurl_ftp_upload_data_cb_def Let_def in_step_def flip: piece_def)
  qed
qed

text \<open>A file that cannot be read from position \<open>k\<close> on stops the read helper there or earlier.\<close>

lemma read_stops_at:
  assumes "\<forall>pos n. read_io fe pos n \<le> int (min n (k - pos))" and "k < len" and "off \<le> k"
  shows "\<exists>m. qurl_ftp_demo_file_read (\<lambda>off. read_io fe off (len - off)) len off = (-1, m) \<and> m \<le> k"
  using assms(3)
proof (induction "len - off" arbitrary: off rule: less_induct)
  case less
  let ?io = "\<lambda>off. read_io fe off (len - off)"
  have "off < len" using less.prems assms(2) by simp
  show ?case
  proof (cases "?io off \<le> 0")
    case True
    with \<open>off < len\<close> less.prems show ?thesis by (simp add: ftp_read.failed)
  next
    case False
    have "?io off \<le> int (min (len - off) (k - off))" using assms(1) by blast
    with False have "off + nat (?io off) \<le> k" "len - (off + nat (?io off)) < len - off"
      using \<open>off < len\<close> less.prems by linarith+
    with less.hyps False \<open>off < len\<close> show ?thesis by (simp add: ftp_read.moved)
  qed
qed

section \<open>Properties of the upload\<close>

lemmas put_defs = qurl_ftp_demo_put_def c_text_def base_request_def

text \<open>The upload proper, from an opened file.\<close>

lemma upload_sends_file:
  assumes "file_reads fe" and "file_progress fe" and "\<forall>i. 0 < sizes i"
    and "data s = \<lparr>total_len = int (length (content fe)), used_len = 0, fd = f, is_file = True\<rparr>"
  shows "\<exists>u ds. pull_all (qurl_ftp_upload_data_cb fe) sizes 0 \<lparr>ctx = s, file_pos = 0, put_trace = []\<rparr> =
      Some (Inr (content fe, u)) \<and> fd (data (ctx u)) = f \<and> put_trace u = map (Vfs_read f) ds \<and> concat ds = content fe"
proof -
  let ?u = "\<lparr>ctx = s, file_pos = 0, put_trace = []\<rparr>"
  have "file_reads fe \<and> file_progress fe \<and> in_step fe f ?u" using assms by (simp add: in_step_def)
  from put_source.pull_sends_rest [OF this assms(3), of 0] show ?thesis by (auto simp: in_step_def)
qed

text \<open>C6: an upload hands the whole file to the library, in order, whatever the sizes of the library's
  buffers and however the file system splits the reads: it opens the file, asks for the URL of the
  server's file in the current directory, reads every byte once and closes the file once.\<close>

theorem put_uploads_file:
  assumes "0 \<le> opened_fd env" and "currentDir s = Some b" and "alloc1 env" and "res_ok (ans1 env)"
    and "NUL \<notin> set (hostname s)" and "file_reads fe" and "file_progress fe"
    and "st_size fe = Some (int (length (content fe)))" and "\<forall>i. 0 < sizes i"
  shows "\<exists>s' rq ds. qurl_ftp_demo_put env fe sizes filename s =
      Some (Inr (0, s', [Vfs_open_ro filename, Vfs_fstat (opened_fd env), Vfs_lseek (opened_fd env),
        Upload rq (content fe)] @ map (Vfs_read (opened_fd env)) ds @ [Ftp (Vfs_close (opened_fd env))])) \<and>
    concat ds = content fe \<and>
    rq_url rq = Some (''ftp://'' @ hostname s @ c_str b @ QURL_FTP_DEMO_SERVER_FILENAME)"
proof -
  define s3 where "s3 = s\<lparr>data := \<lparr>total_len = int (length (content fe)), used_len = 0, fd = opened_fd env, is_file = True\<rparr>,
    url := Some (printed (length (hostname s) + length (c_str b) + length QURL_FTP_DEMO_SERVER_FILENAME + 64)
      (''ftp://'' @ hostname s @ c_str b @ QURL_FTP_DEMO_SERVER_FILENAME))\<rparr>"
  have "data s3 = \<lparr>total_len = int (length (content fe)), used_len = 0, fd = opened_fd env, is_file = True\<rparr>"
    by (simp add: s3_def)
  from upload_sends_file [OF assms(6,7,9) this] obtain u ds where
    "pull_all (qurl_ftp_upload_data_cb fe) sizes 0 \<lparr>ctx = s3, file_pos = 0, put_trace = []\<rparr> = Some (Inr (content fe, u))"
    "fd (data (ctx u)) = opened_fd env" "put_trace u = map (Vfs_read (opened_fd env)) ds" "concat ds = content fe"
    by blast
  moreover have "rq_url (base_request s3) = Some (''ftp://'' @ hostname s @ c_str b @ QURL_FTP_DEMO_SERVER_FILENAME)"
    using assms(5) by (simp add: s3_def base_request_def QURL_FTP_DEMO_SERVER_FILENAME_def)
  ultimately show ?thesis
    using assms(1-4,8) unfolding s3_def
    by (intro exI [of _ "ctx u"] exI [of _ "base_request s3"] exI [of _ ds])
      (simp add: qurl_ftp_demo_put_def c_text_def Let_def s3_def)
qed


text \<open>When the file cannot be read to its end, the upload of a file that fits one buffer ends as if the file were complete:
  nothing of it is sent, yet the command returns 0 when the server confirms the empty file, and the
  handle is closed twice.\<close>

theorem failed_read_reports_success:
  assumes "0 \<le> opened_fd env" and "currentDir s = Some b" and "alloc1 env" and "res_ok (ans1 env)"
    and "st_size fe = Some (int (length (content fe)))" and "length (content fe) \<le> sizes 0"
    and "k < length (content fe)" and "\<forall>pos n. read_io fe pos n \<le> int (min n (k - pos))"
  shows "\<exists>s' rq m. qurl_ftp_demo_put env fe sizes filename s =
      Some (Inr (0, s', [Vfs_open_ro filename, Vfs_fstat (opened_fd env), Vfs_lseek (opened_fd env),
        Upload rq [], Vfs_read (opened_fd env) (take m (content fe)),
        Ftp (Vfs_close (opened_fd env)), Ftp (Vfs_close (opened_fd env))])) \<and> m \<le> k"
proof -
  let ?len = "length (content fe)"
  obtain m where m: "qurl_ftp_demo_file_read (\<lambda>off. read_io fe off (?len - off)) ?len 0 = (-1, m)" "m \<le> k"
    using read_stops_at [OF assms(8,7), of 0] by auto
  define s3 where "s3 = s\<lparr>data := \<lparr>total_len = int ?len, used_len = 0, fd = opened_fd env, is_file = True\<rparr>,
    url := Some (printed (length (hostname s) + length (c_str b) + length QURL_FTP_DEMO_SERVER_FILENAME + 64)
      (''ftp://'' @ hostname s @ c_str b @ QURL_FTP_DEMO_SERVER_FILENAME))\<rparr>"
  let ?u = "\<lparr>ctx = s3, file_pos = 0, put_trace = []\<rparr>"
  have "min (int (sizes 0)) (int ?len) = int ?len" "sizes 0 \<noteq> 0" "content fe \<noteq> []" using assms(6,7) by auto
  with m(1) have "qurl_ftp_upload_data_cb fe (sizes 0) ?u =
      Inr ([], ?u\<lparr>file_pos := m, put_trace := [Vfs_read (opened_fd env) (take m (content fe)), Ftp (Vfs_close (opened_fd env))]\<rparr>)"
    by (simp add: qurl_ftp_upload_data_cb_def s3_def Let_def)
  from pull_all_end [of "qurl_ftp_upload_data_cb fe" sizes 0 ?u, OF this] m(2) assms(1-5) show ?thesis
    by (intro exI [of _ s3] exI [of _ "base_request s3"] exI [of _ m])
      (simp add: qurl_ftp_demo_put_def c_text_def Let_def s3_def)
qed

section \<open>The properties at concrete inputs\<close>

definition ex_file :: put_file where
  "ex_file = \<lparr>content = ''hello'', read_io = (\<lambda>pos n. int (min (min n 2) (5 - pos))), st_size = Some 5, fstat_err = 0\<rparr>"

theorem put_uploads_file_witness:
  "\<exists>s' rq ds. qurl_ftp_demo_put ex_env ex_file (\<lambda>i. i + 1) ''f'' ex_ftp =
      Some (Inr (0, s', [Vfs_open_ro ''f'', Vfs_fstat 3, Vfs_lseek 3, Upload rq ''hello''] @
        map (Vfs_read 3) ds @ [Ftp (Vfs_close 3)])) \<and>
    concat ds = ''hello'' \<and> rq_url rq = Some ''ftp://xxx/ftp_test1.txt''"
proof -
  have "0 \<le> opened_fd ex_env" "currentDir ex_ftp = Some [CHR ''/'', NUL]" "alloc1 ex_env" "res_ok (ans1 ex_env)"
      "NUL \<notin> set (hostname ex_ftp)" "file_reads ex_file" "file_progress ex_file"
      "st_size ex_file = Some (int (length (content ex_file)))" "\<forall>i. 0 < i + (1::nat)"
    by (auto simp: ftp_eval ex_file_def file_reads_def file_progress_def)
  from put_uploads_file [OF this, of "''f''"] show ?thesis
    by (simp add: ftp_eval) (simp add: ex_file_def QURL_FTP_DEMO_SERVER_FILENAME_def)
qed

theorem failed_read_reports_success_witness:
  "\<exists>s' rq m. qurl_ftp_demo_put ex_env (ex_file\<lparr>read_io := (\<lambda>pos n. if pos < 3 then int (min n (3 - pos)) else -1)\<rparr>)
      (\<lambda>i. 1024) ''f'' ex_ftp =
    Some (Inr (0, s', [Vfs_open_ro ''f'', Vfs_fstat 3, Vfs_lseek 3, Upload rq [], Vfs_read 3 (take m ''hello''),
      Ftp (Vfs_close 3), Ftp (Vfs_close 3)])) \<and> m \<le> 3"
proof -
  let ?fe = "ex_file\<lparr>read_io := (\<lambda>pos n. if pos < 3 then int (min n (3 - pos)) else -1)\<rparr>"
  have "0 \<le> opened_fd ex_env" "currentDir ex_ftp = Some [CHR ''/'', NUL]" "alloc1 ex_env" "res_ok (ans1 ex_env)"
      "st_size ?fe = Some (int (length (content ?fe)))" "length (content ?fe) \<le> (\<lambda>i. 1024) (0::nat)"
      "3 < length (content ?fe)" "\<forall>pos n. read_io ?fe pos n \<le> int (min n (3 - pos))"
    by (auto simp: ftp_eval ex_file_def)
  from failed_read_reports_success [OF this, of "''f''"] show ?thesis
    by (simp add: ex_env_def) (simp add: ex_file_def)
qed

end
