(* ===== verification/Sms_Demo.thy ===== *)
theory Sms_Demo
  imports UniRTOS_Prelude
begin

text \<open>
  The short message application, \<^verbatim>\<open>network/sms/demo/sms_demo.c\<close>.

  State: the configuration per SIM slot, the current SIM, the message queue of the task with the
  request data its messages own, the reports on their way to the centre task, the heap of
  contexts of running listings, and the number of other live blocks (\<open>sms_state\<close>). Operations: the
  entry points for other tasks, the handlers of the task, the responses of the modem and the
  status event.

  The short message library and the value-string maps (\<^verbatim>\<open>qosa_sms_*\<close>, \<^verbatim>\<open>qosa_Vs_map_*\<close>,
  \<^verbatim>\<open>qcm_utils_*\<close>) are the parameter \<open>sms_api\<close>; the answers of the modem during one call are
  \<open>sms_env\<close>.
\<close>

section \<open>Data\<close>

definition QOSA_SMS_DEMO_SMS_MAX_LENGTH :: nat where "QOSA_SMS_DEMO_SMS_MAX_LENGTH = 5 * 160"

text \<open>\<^verbatim>\<open>sizeof\<close> of the two text fields of \<^verbatim>\<open>qosa_sms_demo_send_msg_t\<close>.\<close>

definition phone_number_size :: nat where "phone_number_size = 16"
definition message_size :: nat where "message_size = QOSA_SMS_DEMO_SMS_MAX_LENGTH + 1"

datatype sms_format = FORMAT_PDU | FORMAT_TEXT

text \<open>Result codes of the library the source distinguishes.\<close>

datatype sms_err = SMS_SUCCESS | NO_MSG_ERR | NOT_INIT_ERR | INVALID_PARA | Other_err int

record mem_info =
  mem1 :: int
  mem2 :: int
  mem3 :: int

record sms_async_ctx =
  ctx_format :: sms_format
  ctx_storage :: int
  ctx_list :: "u16 list"
  list_len :: u16
  cur_pos :: u16

record send_req =
  phone_buf :: string
  message_buf :: string
  pdu_length :: u32

record delete_req =
  del_index :: u16
  del_flag :: int

datatype sms_msg =
    Msg_send "send_req option"
  | Msg_read "u16 option"
  | Msg_delete "delete_req option"
  | Msg_list "string option"
  | Msg_exit

record status_event =
  ev_simid :: u8
  ev_ready :: bool

record sms_state =
  format_cfg :: "sms_format list"
  mem_cfg :: "mem_info list"
  mem_ready :: "bool list"
  sms_simid :: u8
  msgq :: "sms_msg list"
  reports :: "status_event list"
  ctxs :: "nat \<rightharpoonup> sms_async_ctx"
  next_ctx :: nat
  live :: nat

text \<open>Library types: the stored configuration, a record read from the storage, its decoded text,
  the message to encode.\<close>

record sms_conf =
  conf_mem :: mem_info
  text_fo :: int
  text_pid :: int
  text_dcs :: int
  text_vp :: int

record sms_time =
  year :: nat
  month :: nat
  day :: nat
  hour :: nat
  minute :: nat
  second :: nat

record sms_record =
  rec_status :: nat
  rec_pdu :: "u8 list"

datatype sms_text =
    Submit nat nat string string               \<comment> \<open>index, status, destination, data\<close>
  | Deliver nat nat string sms_time string     \<comment> \<open>index, status, origin, time, data\<close>
  | Status_report nat nat string sms_time
  | Other_text

record submit =
  da :: string
  toda :: int
  sub_data :: string
  sub_data_len :: u16
  fo :: int
  pid :: int
  dcs :: int
  vp :: int
  ucs2 :: bool

record sms_api =
  slot_num :: nat                        \<comment> \<open>\<^verbatim>\<open>CONFIG_QOSA_SIM_HAL_SLOT_NUM\<close>\<close>
  STOR_ME :: int
  STOR_SM :: int
  DEL_INDEX :: int
  DEL_ALL :: int
  st_UNREAD :: int
  st_READ :: int
  st_UNSENT :: int
  st_SENT :: int
  st_ALL :: int
  vs_find_by_value :: "(int \<times> string) list \<Rightarrow> int \<Rightarrow> (int \<times> string) option"
  vs_find_by_istr :: "(int \<times> string) list \<Rightarrow> string option \<Rightarrow> (int \<times> string) option"
  pdu_to_text :: "sms_record \<Rightarrow> sms_text"
  text_to_pdu :: "submit \<Rightarrow> sms_err + u8 list"
  alphabet_16bit :: "int \<Rightarrow> bool"
  data_to_hex_string :: "u8 list \<Rightarrow> string"
  data_string_to_hex :: "string \<Rightarrow> u8 list option"
  sca_part_len :: "u8 list \<Rightarrow> u8"

record sms_env =
  alloc_ok :: bool                       \<comment> \<open>the first allocation of the function\<close>
  alloc2_ok :: bool                      \<comment> \<open>the second one\<close>
  fresh :: string                        \<comment> \<open>what \<^verbatim>\<open>qosa_malloc\<close> leaves in a block\<close>
  queue_made :: bool                     \<comment> \<open>\<open>qosa_sms_demo_msgq\<close> is not \<^verbatim>\<open>NULL\<close>\<close>
  queue_ok :: bool                       \<comment> \<open>whether \<^verbatim>\<open>qosa_msgq_release\<close> accepts\<close>
  attached :: bool
  conf :: "u8 \<Rightarrow> sms_conf"
  stor_info :: "u8 \<Rightarrow> (u16 \<times> u16) option"                     \<comment> \<open>\<open>total_me\<close>, \<open>total_sm\<close>\<close>
  spec_record :: "u8 \<Rightarrow> int \<Rightarrow> int \<Rightarrow> u16 \<Rightarrow> (u16 list \<times> u16) option"
  send_ret :: sms_err
  read_ret :: sms_err
  delete_ret :: sms_err

text \<open>What the application asks of the library and what it prints. A read carries the context its
  response gets.\<close>

datatype sms_call =
    Call_set_config u8 sms_conf
  | Call_send_pdu u8 "u8 list"
  | Call_read_pdu u8 int int "nat option"
  | Call_delete u8 bool int u16 int      \<comment> \<open>by index, storage, index, flag\<close>
  | Print string

text \<open>A function of the application returns its code, the new state and its calls, or is undefined.\<close>

type_synonym sms_result = "(int \<times> sms_state \<times> sms_call list) c_result"

section \<open>Configuration\<close>

definition qosa_sms_set_sim_id :: "sms_api \<Rightarrow> u8 \<Rightarrow> sms_state \<Rightarrow> sms_state" where
  "qosa_sms_set_sim_id api simid s = (if unat simid < slot_num api then s\<lparr>sms_simid := simid\<rparr> else s)"

definition qosa_sms_get_sim_id :: "sms_state \<Rightarrow> u8" where
  "qosa_sms_get_sim_id s = sms_simid s"

definition qosa_sms_set_format :: "sms_format \<Rightarrow> sms_state \<Rightarrow> sms_state c_result" where
  "qosa_sms_set_format f s =
     c_bind (c_store (format_cfg s) (unat (sms_simid s)) f) (\<lambda>fs. Inr (s\<lparr>format_cfg := fs\<rparr>))"

definition qosa_sms_set_memory_config ::
  "sms_api \<Rightarrow> sms_env \<Rightarrow> int \<Rightarrow> int \<Rightarrow> int \<Rightarrow> sms_state \<Rightarrow> (sms_state \<times> sms_call list) c_result" where
  "qosa_sms_set_memory_config api env m1 m2 m3 s =
     (if m1 > STOR_SM api \<or> m2 > STOR_SM api \<or> m3 > STOR_SM api then Inr (s, [])
      else
        let m = \<lparr>mem1 = m1, mem2 = m2, mem3 = m3\<rparr> in
        c_bind (c_store (mem_cfg s) (unat (sms_simid s)) m) (\<lambda>ms.
          Inr (s\<lparr>mem_cfg := ms\<rparr>,
               [Call_set_config (sms_simid s) ((conf env (sms_simid s))\<lparr>conf_mem := m\<rparr>)])))"

text \<open>Each output pointer that is not \<^verbatim>\<open>NULL\<close> (\<open>pf\<close>, \<open>pm\<close>, \<open>pr\<close>) gets its field of the current SIM.\<close>

definition out_field :: "bool \<Rightarrow> 'a list \<Rightarrow> sms_state \<Rightarrow> 'a option c_result" where
  "out_field wanted xs s =
     (if wanted then c_bind (c_nth xs (unat (sms_simid s))) (\<lambda>x. Inr (Some x)) else Inr None)"

definition qosa_sms_get_config_ex ::
  "bool \<Rightarrow> bool \<Rightarrow> bool \<Rightarrow> sms_state \<Rightarrow> (sms_format option \<times> mem_info option \<times> bool option) c_result" where
  "qosa_sms_get_config_ex pf pm pr s =
     c_bind (out_field pf (format_cfg s) s) (\<lambda>f.
     c_bind (out_field pm (mem_cfg s) s) (\<lambda>m.
     c_bind (out_field pr (mem_ready s) s) (\<lambda>r. Inr (f, m, r))))"

text \<open>The service centre: the address library is the pair of functions; the value is the return
  code and the address handed to the SIM, or what is written to the caller's buffers.\<close>

definition qosa_sms_set_center_number ::
  "(string \<Rightarrow> u8 \<Rightarrow> 'a option) \<Rightarrow> (u8 \<Rightarrow> 'a \<Rightarrow> bool) \<Rightarrow> string option \<Rightarrow> u8 \<Rightarrow> sms_state \<Rightarrow> int \<times> (u8 \<times> 'a) option" where
  "qosa_sms_set_center_number text_to_address set_sca sca_str tosca_type s =
     (case sca_str of
        None \<Rightarrow> (-1, None)
      | Some sca \<Rightarrow>
          if sca = [] then (-1, None)
          else
            let tosca = (if tosca_type = 0 then 129 else tosca_type) in
            case text_to_address sca tosca of
              None \<Rightarrow> (-1, None)
            | Some address \<Rightarrow>
                if set_sca (sms_simid s) address then (0, Some (sms_simid s, address))
                else (-1, Some (sms_simid s, address)))"

definition qosa_sms_get_center_number ::
  "(u8 \<Rightarrow> 'a option) \<Rightarrow> ('a \<Rightarrow> u8 \<Rightarrow> string option) \<Rightarrow> ('a \<Rightarrow> u8) \<Rightarrow> bool \<Rightarrow> u8 \<Rightarrow> bool \<Rightarrow> sms_state \<Rightarrow>
   (string \<times> u8) option" where
  "qosa_sms_get_center_number get_sca address_to_text address_type has_buf buf_len has_type s =
     (if \<not> has_buf \<or> \<not> has_type then None
      else case get_sca (sms_simid s) of
        None \<Rightarrow> None
      | Some address \<Rightarrow>
          (case address_to_text address buf_len of
             None \<Rightarrow> None
           | Some t \<Rightarrow> Some (t, address_type address)))"

text \<open>All slots: text format, storage in the equipment, not ready.\<close>

definition qosa_sms_demo_init_config :: "sms_api \<Rightarrow> sms_state \<Rightarrow> sms_state" where
  "qosa_sms_demo_init_config api s =
     s\<lparr>format_cfg := replicate (slot_num api) FORMAT_TEXT,
       mem_ready := replicate (slot_num api) False,
       mem_cfg := replicate (slot_num api) \<lparr>mem1 = STOR_ME api, mem2 = STOR_ME api, mem3 = STOR_ME api\<rparr>\<rparr>"

text \<open>The current SIM is set from the event without a test of its range.\<close>

definition qosa_sms_demo_sms_status_handler ::
  "sms_env \<Rightarrow> status_event \<Rightarrow> sms_state \<Rightarrow> sms_state c_result" where
  "qosa_sms_demo_sms_status_handler env ev s =
     (let i = unat (ev_simid ev); s1 = s\<lparr>sms_simid := ev_simid ev\<rparr> in
      if \<not> ev_ready ev then
        c_bind (c_store (mem_ready s1) i False) (\<lambda>rs. Inr (s1\<lparr>mem_ready := rs\<rparr>))
      else
        c_bind (c_store (mem_cfg s1) i (conf_mem (conf env (ev_simid ev)))) (\<lambda>ms.
        c_bind (c_store (mem_ready s1) i True) (\<lambda>rs.
          Inr (s1\<lparr>mem_cfg := ms, mem_ready := rs\<rparr>))))"

text \<open>The event callback allocates a report for the centre task; the handler there frees it.\<close>

definition quecos_modem_sms_status_event_cb :: "sms_env \<Rightarrow> status_event \<Rightarrow> sms_state \<Rightarrow> int \<times> sms_state" where
  "quecos_modem_sms_status_event_cb env ev s =
     (if \<not> alloc_ok env then (-1, s)
      else (0, s\<lparr>live := Suc (live s), reports := reports s @ [ev]\<rparr>))"

definition qosa_sms_demo_sms_indicate_hdlr ::
  "sms_env \<Rightarrow> status_event option \<Rightarrow> sms_state \<Rightarrow> sms_state c_result" where
  "qosa_sms_demo_sms_indicate_hdlr env msg s =
     (case msg of
        None \<Rightarrow> Inr s
      | Some ev \<Rightarrow>
          c_bind (qosa_sms_demo_sms_status_handler env ev s) (\<lambda>s1. Inr (s1\<lparr>live := live s1 - 1\<rparr>)))"

section \<open>Listing\<close>

text \<open>Both blocks of a listing, the context and its index list, are the entry in \<open>ctxs\<close>; they are
  allocated and freed together. \<open>format\<close> and \<open>storage\<close> are filled in by the caller.\<close>

definition total_slot :: "sms_api \<Rightarrow> int \<Rightarrow> u16 \<times> u16 \<Rightarrow> u16" where
  "total_slot api storage info = (if STOR_ME api = storage then fst info else snd info)"

definition qosa_sms_demo_list_sms_init ::
  "sms_api \<Rightarrow> sms_env \<Rightarrow> u8 \<Rightarrow> int \<Rightarrow> int \<Rightarrow> sms_state \<Rightarrow> nat option \<times> sms_state" where
  "qosa_sms_demo_list_sms_init api env simid storage status s =
     (if \<not> alloc_ok env then (None, s)
      else case stor_info env simid of
        None \<Rightarrow> (None, s)
      | Some info \<Rightarrow>
          if \<not> alloc2_ok env then (None, s)
          else case spec_record env simid storage status (total_slot api storage info) of
            None \<Rightarrow> (None, s)
          | Some (recs, num) \<Rightarrow>
              (Some (next_ctx s),
               s\<lparr>ctxs := (ctxs s)(next_ctx s \<mapsto>
                    \<lparr>ctx_format = FORMAT_PDU, ctx_storage = 0, ctx_list = recs, list_len = num, cur_pos = 0\<rparr>),
                 next_ctx := Suc (next_ctx s)\<rparr>))"

definition qosa_sms_demo_get_mem :: "u8 \<Rightarrow> sms_state \<Rightarrow> (sms_err \<times> mem_info) c_result" where
  "qosa_sms_demo_get_mem simid s =
     c_bind (c_nth (mem_ready s) (unat simid)) (\<lambda>ready.
       if \<not> ready then Inr (NOT_INIT_ERR, \<lparr>mem1 = 0, mem2 = 0, mem3 = 0\<rparr>)
       else c_bind (c_nth (mem_cfg s) (unat simid)) (\<lambda>m. Inr (SMS_SUCCESS, m)))"

text \<open>The next index of the list, or -1; the cursor moves.\<close>

definition qosa_sms_demo_list_sms_fetch_next_ex :: "sms_async_ctx \<Rightarrow> (int \<times> sms_async_ctx) c_result" where
  "qosa_sms_demo_list_sms_fetch_next_ex c =
     (if cur_pos c \<ge> list_len c then Inr (-1, c)
      else c_bind (c_nth (ctx_list c) (unat (cur_pos c))) (\<lambda>i. Inr (uint i, c\<lparr>cur_pos := cur_pos c + 1\<rparr>)))"

definition qosa_sms_demo_delete_sms_deinit_ex :: "nat \<Rightarrow> sms_state \<Rightarrow> sms_state" where
  "qosa_sms_demo_delete_sms_deinit_ex a s = s\<lparr>ctxs := (ctxs s)(a := None)\<rparr>"

definition qosa_sms_status_vs :: "sms_api \<Rightarrow> (int \<times> string) list" where
  "qosa_sms_status_vs api =
     [(st_UNREAD api, ''REC UNREAD''), (st_READ api, ''REC READ''), (st_UNSENT api, ''STO UNSENT''),
      (st_SENT api, ''STO SENT''), (st_ALL api, ''ALL'')]"

definition qosa_sms_demo_sms_msg_status_str :: "sms_api \<Rightarrow> nat \<Rightarrow> string" where
  "qosa_sms_demo_sms_msg_status_str api status =
     (case vs_find_by_value api (qosa_sms_status_vs api) (int status) of None \<Rightarrow> '''' | Some m \<Rightarrow> snd m)"

section \<open>Responses of the modem\<close>

definition fmt_time :: "sms_time \<Rightarrow> string" where
  "fmt_time t = fmt_u (year t) @ ''/'' @ fmt_02u (month t) @ ''/'' @ fmt_02u (day t) @ '','' @
     fmt_02u (hour t) @ '':'' @ fmt_02u (minute t) @ '':'' @ fmt_02u (second t)"

text \<open>The line printed for a record of a listing, and for a record that was read; \<open>None\<close> where the
  \<^verbatim>\<open>switch\<close> prints nothing.\<close>

fun list_line :: "sms_api \<Rightarrow> sms_text \<Rightarrow> string option" where
  "list_line api (Submit i st n d) =
     Some (snprintf_buf 1024 (''+SMS LIST: '' @ fmt_u i @ '', '' @ [CHR 34] @ qosa_sms_demo_sms_msg_status_str api st @
       [CHR 34] @ '', '' @ [CHR 34] @ n @ [CHR 34] @ '', '' @ [CHR 34] @ d @ [CHR 34]))"
| "list_line api (Deliver i st n t d) =
     Some (snprintf_buf 1024 (''+SMS LIST: '' @ fmt_u i @ '', '' @ [CHR 34] @ qosa_sms_demo_sms_msg_status_str api st @
       [CHR 34] @ '', '' @ [CHR 34] @ n @ [CHR 34] @ '', '' @ [CHR 34] @ fmt_time t @ [CHR 34] @ '', '' @
       [CHR 34] @ d @ [CHR 34]))"
| "list_line api (Status_report i st n t) =
     Some (snprintf_buf 1024 (''+SMS LIST: '' @ fmt_u i @ '','' @ [CHR 34] @ qosa_sms_demo_sms_msg_status_str api st @
       [CHR 34] @ '','' @ [CHR 34] @ n @ [CHR 34] @ '','' @ [CHR 34] @ fmt_time t @ [CHR 34]))"
| "list_line api Other_text = None"

fun read_line :: "sms_api \<Rightarrow> sms_text \<Rightarrow> string option" where
  "read_line api (Submit i st n d) =
     Some (snprintf_buf 1024 ([CHR 34] @ qosa_sms_demo_sms_msg_status_str api st @ [CHR 34] @ '', '' @
       [CHR 34] @ n @ [CHR 34] @ '', '' @ [CHR 34] @ d @ [CHR 34]))"
| "read_line api (Deliver i st n t d) =
     Some (snprintf_buf 1024 ([CHR 34] @ qosa_sms_demo_sms_msg_status_str api st @ [CHR 34] @ '', '' @
       [CHR 34] @ n @ [CHR 34] @ '', '' @ [CHR 34] @ fmt_time t @ [CHR 34] @ '', '' @ [CHR 34] @ d @ [CHR 34]))"
| "read_line api (Status_report i st n t) =
     Some (snprintf_buf 1024 ([CHR 34] @ qosa_sms_demo_sms_msg_status_str api st @ [CHR 34] @ '', '' @
       [CHR 34] @ n @ [CHR 34]))"
| "read_line api Other_text = None"

text \<open>In PDU format the hexadecimal text is built in the same 1024 bytes, so a PDU of 512 bytes or
  more does not fit.\<close>

definition pdu_line :: "sms_api \<Rightarrow> sms_record \<Rightarrow> string c_result" where
  "pdu_line api r =
     (let h = data_to_hex_string api (rec_pdu r) in
      if length h < 1024
      then Inr (fmt_u (rec_status r) @ '', '' @ fmt_u (length (rec_pdu r)) @ '', '' @ h)
      else Inl Out_of_bounds)"

definition record_lines ::
  "sms_api \<Rightarrow> (sms_api \<Rightarrow> sms_text \<Rightarrow> string option) \<Rightarrow> sms_format \<Rightarrow> sms_record \<Rightarrow> sms_call list c_result" where
  "record_lines api line f r =
     (case f of
        FORMAT_TEXT \<Rightarrow> Inr (case line api (pdu_to_text api r) of None \<Rightarrow> [] | Some t \<Rightarrow> [Print t])
      | FORMAT_PDU \<Rightarrow> c_bind (pdu_line api r) (\<lambda>t. Inr [Print t]))"

text \<open>Ask for the next record of a listing, or end it. Shared by the two places that do so; the code
  returned is the one of \<^verbatim>\<open>qosa_sms_demo_list_sms\<close>.\<close>

definition list_next :: "sms_env \<Rightarrow> nat \<Rightarrow> sms_async_ctx \<Rightarrow> sms_state \<Rightarrow> sms_result" where
  "list_next env a c s =
     c_bind (qosa_sms_demo_list_sms_fetch_next_ex c) (\<lambda>(i, c').
       let s1 = s\<lparr>ctxs := (ctxs s)(a \<mapsto> c')\<rparr> in
       if i < 0 then Inr (0, qosa_sms_demo_delete_sms_deinit_ex a s1, [])
       else
         let call = Call_read_pdu (sms_simid s1) (ctx_storage c') i (Some a) in
         if read_ret env \<noteq> SMS_SUCCESS then
           Inr (if read_ret env = NO_MSG_ERR then 0 else -1, qosa_sms_demo_delete_sms_deinit_ex a s1, [call])
         else Inr (0, s1, [call]))"

definition qosa_sms_demo_list_msg_rsp ::
  "sms_api \<Rightarrow> sms_env \<Rightarrow> nat \<Rightarrow> sms_err \<Rightarrow> sms_record \<Rightarrow> sms_state \<Rightarrow> sms_result" where
  "qosa_sms_demo_list_msg_rsp api env a err record s =
     c_bind (c_nth (format_cfg s) (unat (sms_simid s))) (\<lambda>f.
       case ctxs s a of
         None \<Rightarrow> Inl Use_after_free
       | Some c \<Rightarrow>
           if err \<noteq> SMS_SUCCESS then Inr (0, qosa_sms_demo_delete_sms_deinit_ex a s, [])
           else
             c_bind (record_lines api list_line f record) (\<lambda>out.
             c_bind (list_next env a c s) (\<lambda>(r, s', calls). Inr (0, s', out @ calls))))"

text \<open>The buffer is allocated before the code of the response is looked at and is not freed on the
  early returns.\<close>

definition qosa_sms_demo_read_msg_rsp ::
  "sms_api \<Rightarrow> sms_env \<Rightarrow> sms_err \<Rightarrow> sms_record \<Rightarrow> sms_state \<Rightarrow> sms_result" where
  "qosa_sms_demo_read_msg_rsp api env err record s =
     (if \<not> alloc_ok env then Inr (0, s, [])
      else
        c_bind (c_nth (format_cfg s) (unat (sms_simid s))) (\<lambda>f.
          let s1 = s\<lparr>live := Suc (live s)\<rparr> in
          if err \<noteq> SMS_SUCCESS then Inr (0, s1, [])
          else c_bind (record_lines api read_line f record) (\<lambda>out. Inr (0, s1\<lparr>live := live s1 - 1\<rparr>, out))))"

section \<open>Requests of the task\<close>

text \<open>The message in text format, filled from the stored text parameters.\<close>

definition text_submit :: "sms_api \<Rightarrow> sms_env \<Rightarrow> string \<Rightarrow> string \<Rightarrow> sms_state \<Rightarrow> submit" where
  "text_submit api env phone msg s =
     (let cf = conf env (sms_simid s) in
      \<lparr>da = phone, toda = 129, sub_data = msg, sub_data_len = of_nat (length msg),
       fo = text_fo cf, pid = text_pid cf, dcs = text_dcs cf, vp = text_vp cf,
       ucs2 = alphabet_16bit api (text_dcs cf)\<rparr>)"

text \<open>The PDU in text format, and the PDU the caller gave in hexadecimal; \<^verbatim>\<open>pdu_with_sca_len\<close> is a
  \<^verbatim>\<open>uint8_t\<close>, and the test of the length is made in 32-bit unsigned arithmetic.\<close>

definition pdu_of_text :: "sms_api \<Rightarrow> submit \<Rightarrow> sms_err + u8 list" where
  "pdu_of_text api m =
     (case text_to_pdu api m of
        Inl e \<Rightarrow> Inl e
      | Inr d \<Rightarrow> Inr (take (unat (of_nat (length d) :: u8)) d))"

definition pdu_of_hex :: "sms_api \<Rightarrow> sms_env \<Rightarrow> string \<Rightarrow> u32 \<Rightarrow> sms_err + u8 list" where
  "pdu_of_hex api env msg pdulen =
     (let message_len = (of_nat (length msg) :: u16) in
      if \<not> alloc_ok env then Inl INVALID_PARA
      else case data_string_to_hex api msg of
        None \<Rightarrow> Inl INVALID_PARA
      | Some d \<Rightarrow>
          if ucast (sca_part_len api d) + pdulen \<noteq> (ucast message_len :: u32) div 2 then Inl INVALID_PARA
          else Inr (take (unat (ucast (message_len div 2) :: u8)) d))"

text \<open>Both strings come from the request's fixed buffers; a buffer without a terminator is read
  past its end.\<close>

definition qosa_sms_demo_send_sms ::
  "sms_api \<Rightarrow> sms_env \<Rightarrow> string \<Rightarrow> string \<Rightarrow> u32 \<Rightarrow> sms_state \<Rightarrow> sms_result" where
  "qosa_sms_demo_send_sms api env phone_number message_txt pdulen s =
     c_bind (c_nth (format_cfg s) (unat (sms_simid s))) (\<lambda>f0.
       if \<not> attached env then Inr (-1, s, [])
       else
         let f = (if pdulen > 0 then FORMAT_PDU else f0) in
         if \<not> terminated message_txt then Inl Out_of_bounds
         else if (of_nat (length (c_str message_txt)) :: u16) = 0 then Inr (-1, s, [])
         else if f = FORMAT_TEXT \<and> \<not> terminated phone_number then Inl Out_of_bounds
         else
           case (if f = FORMAT_TEXT
                 then pdu_of_text api (text_submit api env (c_str phone_number) (c_str message_txt) s)
                 else pdu_of_hex api env (c_str message_txt) pdulen) of
             Inl e \<Rightarrow> Inr (-1, s, [])
           | Inr d \<Rightarrow>
               Inr (if send_ret env \<noteq> SMS_SUCCESS then -1 else 0, s, [Call_send_pdu (sms_simid s) d]))"

definition qosa_sms_demo_list_sms :: "sms_api \<Rightarrow> sms_env \<Rightarrow> string option \<Rightarrow> sms_state \<Rightarrow> sms_result" where
  "qosa_sms_demo_list_sms api env stat s =
     c_bind (c_nth (format_cfg s) (unat (sms_simid s))) (\<lambda>f.
       case vs_find_by_istr api (qosa_sms_status_vs api) stat of
         None \<Rightarrow> Inr (-1, s, [])
       | Some (status, str) \<Rightarrow>
           c_bind (qosa_sms_demo_get_mem (sms_simid s) s) (\<lambda>(err, m).
             if err \<noteq> SMS_SUCCESS then Inr (-1, s, [])
             else
               let storage = mem1 m in
               case qosa_sms_demo_list_sms_init api env (sms_simid s) storage status s of
                 (None, s1) \<Rightarrow> Inr (-1, s1, [])
               | (Some a, s1) \<Rightarrow>
                   list_next env a ((the (ctxs s1 a))\<lparr>ctx_format := f, ctx_storage := storage\<rparr>) s1))"

text \<open>Range test shared by reading and deleting: \<open>total_slot - 1\<close> is an \<^verbatim>\<open>int\<close>, so an empty storage
  refuses every index.\<close>

definition checked_storage ::
  "sms_api \<Rightarrow> sms_env \<Rightarrow> u16 \<Rightarrow> sms_state \<Rightarrow> int option c_result" where
  "checked_storage api env index s =
     c_bind (qosa_sms_demo_get_mem (sms_simid s) s) (\<lambda>(err, m).
       if err \<noteq> SMS_SUCCESS then Inr None
       else case stor_info env (sms_simid s) of
         None \<Rightarrow> Inr None
       | Some info \<Rightarrow>
           if uint index > uint (total_slot api (mem1 m) info) - 1 then Inr None
           else Inr (Some (mem1 m)))"

definition code_of :: "sms_err \<Rightarrow> int" where
  "code_of e = (if e = SMS_SUCCESS \<or> e = NO_MSG_ERR then 0 else -1)"

definition qosa_sms_demo_read_sms :: "sms_api \<Rightarrow> sms_env \<Rightarrow> u16 \<Rightarrow> sms_state \<Rightarrow> sms_result" where
  "qosa_sms_demo_read_sms api env index s =
     c_bind (checked_storage api env index s) (\<lambda>st.
       case st of
         None \<Rightarrow> Inr (-1, s, [])
       | Some storage \<Rightarrow>
           Inr (code_of (read_ret env), s, [Call_read_pdu (sms_simid s) storage (uint index) None]))"

definition qosa_sms_demo_delete_sms :: "sms_api \<Rightarrow> sms_env \<Rightarrow> u16 \<Rightarrow> int \<Rightarrow> sms_state \<Rightarrow> sms_result" where
  "qosa_sms_demo_delete_sms api env index delflag s =
     c_bind (checked_storage api env index s) (\<lambda>st.
       case st of
         None \<Rightarrow> Inr (-1, s, [])
       | Some storage \<Rightarrow>
           Inr (code_of (delete_ret env), s,
                [Call_delete (sms_simid s) (delflag = 0) storage index delflag]))"

section \<open>Handlers and loop of the task\<close>

text \<open>A handler returns when its message has no data; otherwise it runs the request and frees the
  data.\<close>

definition free_data :: "sms_result \<Rightarrow> sms_result" where
  "free_data r = c_bind r (\<lambda>(c, s, calls). Inr (c, s\<lparr>live := live s - 1\<rparr>, calls))"

definition qosa_sms_demo_handle_send_sms ::
  "sms_api \<Rightarrow> sms_env \<Rightarrow> send_req option \<Rightarrow> sms_state \<Rightarrow> sms_result" where
  "qosa_sms_demo_handle_send_sms api env data s =
     (case data of
        None \<Rightarrow> Inr (0, s, [])
      | Some d \<Rightarrow> free_data (qosa_sms_demo_send_sms api env (phone_buf d) (message_buf d) (pdu_length d) s))"

definition qosa_sms_demo_handle_read_sms ::
  "sms_api \<Rightarrow> sms_env \<Rightarrow> u16 option \<Rightarrow> sms_state \<Rightarrow> sms_result" where
  "qosa_sms_demo_handle_read_sms api env data s =
     (case data of None \<Rightarrow> Inr (0, s, []) | Some i \<Rightarrow> free_data (qosa_sms_demo_read_sms api env i s))"

definition qosa_sms_demo_handle_delete_sms ::
  "sms_api \<Rightarrow> sms_env \<Rightarrow> delete_req option \<Rightarrow> sms_state \<Rightarrow> sms_result" where
  "qosa_sms_demo_handle_delete_sms api env data s =
     (case data of
        None \<Rightarrow> Inr (0, s, [])
      | Some d \<Rightarrow> free_data (qosa_sms_demo_delete_sms api env (del_index d) (del_flag d) s))"

definition qosa_sms_demo_handle_list_sms ::
  "sms_api \<Rightarrow> sms_env \<Rightarrow> string option \<Rightarrow> sms_state \<Rightarrow> sms_result" where
  "qosa_sms_demo_handle_list_sms api env stat s =
     (let r = qosa_sms_demo_list_sms api env stat s in if stat = None then r else free_data r)"

text \<open>The \<^verbatim>\<open>switch\<close> of the task; \<^verbatim>\<open>EXIT\<close> is left to the loop.\<close>

fun sms_dispatch :: "sms_api \<Rightarrow> sms_env \<Rightarrow> sms_msg \<Rightarrow> sms_state \<Rightarrow> sms_result" where
  "sms_dispatch api env (Msg_send d) s = qosa_sms_demo_handle_send_sms api env d s"
| "sms_dispatch api env (Msg_read d) s = qosa_sms_demo_handle_read_sms api env d s"
| "sms_dispatch api env (Msg_delete d) s = qosa_sms_demo_handle_delete_sms api env d s"
| "sms_dispatch api env (Msg_list d) s = qosa_sms_demo_handle_list_sms api env d s"
| "sms_dispatch api env Msg_exit s = Inr (0, s, [])"

section \<open>Entry points for other tasks\<close>

text \<open>Data is allocated, the message released to the queue; when the queue refuses, the data is
  freed again.\<close>

definition post :: "sms_env \<Rightarrow> sms_msg \<Rightarrow> sms_state \<Rightarrow> int \<times> sms_state" where
  "post env m s =
     (if queue_ok env then (0, s\<lparr>msgq := msgq s @ [m]\<rparr>) else (-1, s\<lparr>live := live s - 1\<rparr>))"

text \<open>\<^verbatim>\<open>fresh\<close> are the bytes \<^verbatim>\<open>qosa_malloc\<close> leaves in the request; the last byte of each text field
  is not written.\<close>

definition qosa_sms_send_message ::
  "sms_env \<Rightarrow> string option \<Rightarrow> string option \<Rightarrow> u32 \<Rightarrow> sms_state \<Rightarrow> int \<times> sms_state" where
  "qosa_sms_send_message env phone_number message pdulen s =
     (case (phone_number, message) of
        (Some p, Some m) \<Rightarrow>
          if length m > QOSA_SMS_DEMO_SMS_MAX_LENGTH then (-1, s)
          else if \<not> alloc_ok env then (-1, s)
          else post env
                 (Msg_send (Some
                    \<lparr>phone_buf = strncpy_buf (take phone_number_size (fresh env)) p (phone_number_size - 1),
                     message_buf = strncpy_buf (take message_size (drop phone_number_size (fresh env))) m (message_size - 1),
                     pdu_length = pdulen\<rparr>))
                 (s\<lparr>live := Suc (live s)\<rparr>)
      | _ \<Rightarrow> (-1, s))"

definition qosa_sms_read_message :: "sms_env \<Rightarrow> u16 \<Rightarrow> sms_state \<Rightarrow> int \<times> sms_state" where
  "qosa_sms_read_message env index s =
     (if \<not> alloc_ok env then (-1, s) else post env (Msg_read (Some index)) (s\<lparr>live := Suc (live s)\<rparr>))"

definition qosa_sms_delete_message :: "sms_api \<Rightarrow> sms_env \<Rightarrow> u16 \<Rightarrow> int \<Rightarrow> sms_state \<Rightarrow> int \<times> sms_state" where
  "qosa_sms_delete_message api env index delflag s =
     (if \<not> (DEL_INDEX api \<le> delflag \<and> delflag \<le> DEL_ALL api) then (-1, s)
      else if \<not> alloc_ok env then (-1, s)
      else post env (Msg_delete (Some \<lparr>del_index = index, del_flag = delflag\<rparr>)) (s\<lparr>live := Suc (live s)\<rparr>))"

definition qosa_sms_list_messages :: "sms_env \<Rightarrow> string option \<Rightarrow> sms_state \<Rightarrow> int \<times> sms_state" where
  "qosa_sms_list_messages env stat s =
     (case stat of
        None \<Rightarrow> if queue_ok env then (0, s\<lparr>msgq := msgq s @ [Msg_list None]\<rparr>) else (-1, s)
      | Some t \<Rightarrow>
          if \<not> alloc_ok env then (-1, s) else post env (Msg_list (Some t)) (s\<lparr>live := Suc (live s)\<rparr>))"

definition qosa_sms_stop :: "sms_env \<Rightarrow> sms_state \<Rightarrow> sms_state" where
  "qosa_sms_stop env s =
     (if queue_made env then (if queue_ok env then s\<lparr>msgq := msgq s @ [Msg_exit]\<rparr> else s) else s)"

section \<open>The application as a transition system\<close>

text \<open>Who runs: the task (it takes the oldest message), the centre task (the oldest report), the
  modem with a response or a status event, another task calling an entry point.\<close>

datatype sms_event =
    Run_task
  | Run_centre
  | Modem_status status_event
  | Modem_list_rsp nat sms_err sms_record
  | Modem_read_rsp sms_err sms_record
  | Api_send "string option" "string option" u32
  | Api_read u16
  | Api_delete u16 int
  | Api_list "string option"
  | Api_stop
  | Api_set_sim u8
  | Api_set_format sms_format
  | Api_set_memory int int int

fun lift_result :: "sms_result \<Rightarrow> (sms_state, sms_call) outcome" where
  "lift_result (Inl u) = Undefined u"
| "lift_result (Inr (r, s, calls)) = Continue s calls"

fun lift_state :: "sms_state c_result \<Rightarrow> (sms_state, sms_call) outcome" where
  "lift_state (Inl u) = Undefined u"
| "lift_state (Inr s) = Continue s []"

text \<open>One round of \<^verbatim>\<open>qosa_sms_demo_task\<close>.\<close>

fun sms_task_iter :: "sms_api \<Rightarrow> sms_env \<Rightarrow> sms_state \<Rightarrow> (sms_state, sms_call) outcome" where
  "sms_task_iter api env s =
     (case msgq s of
        [] \<Rightarrow> Continue s []
      | Msg_exit # q \<Rightarrow> Exit (s\<lparr>msgq := []\<rparr>) []
      | m # q \<Rightarrow> lift_result (sms_dispatch api env m (s\<lparr>msgq := q\<rparr>)))"

fun sms_step :: "sms_api \<Rightarrow> sms_state \<Rightarrow> sms_env \<times> sms_event \<Rightarrow> (sms_state, sms_call) outcome" where
  "sms_step api s (env, Run_task) = sms_task_iter api env s"
| "sms_step api s (env, Run_centre) =
     (case reports s of
        [] \<Rightarrow> Continue s []
      | r # rs \<Rightarrow> lift_state (qosa_sms_demo_sms_indicate_hdlr env (Some r) (s\<lparr>reports := rs\<rparr>)))"
| "sms_step api s (env, Modem_status ev) = Continue (snd (quecos_modem_sms_status_event_cb env ev s)) []"
| "sms_step api s (env, Modem_list_rsp a err r) = lift_result (qosa_sms_demo_list_msg_rsp api env a err r s)"
| "sms_step api s (env, Modem_read_rsp err r) = lift_result (qosa_sms_demo_read_msg_rsp api env err r s)"
| "sms_step api s (env, Api_send p m n) = Continue (snd (qosa_sms_send_message env p m n s)) []"
| "sms_step api s (env, Api_read i) = Continue (snd (qosa_sms_read_message env i s)) []"
| "sms_step api s (env, Api_delete i f) = Continue (snd (qosa_sms_delete_message api env i f s)) []"
| "sms_step api s (env, Api_list t) = Continue (snd (qosa_sms_list_messages env t s)) []"
| "sms_step api s (env, Api_stop) = Continue (qosa_sms_stop env s) []"
| "sms_step api s (env, Api_set_sim i) = Continue (qosa_sms_set_sim_id api i s) []"
| "sms_step api s (env, Api_set_format f) = lift_state (qosa_sms_set_format f s)"
| "sms_step api s (env, Api_set_memory a b c) =
     (case qosa_sms_set_memory_config api env a b c s of
        Inl u \<Rightarrow> Undefined u | Inr (s', calls) \<Rightarrow> Continue s' calls)"

text \<open>Start of the application: static zero state, then the configuration.\<close>

definition quec_sms_demo_init :: "sms_api \<Rightarrow> sms_state" where
  "quec_sms_demo_init api =
     qosa_sms_demo_init_config api
       \<lparr>format_cfg = replicate (slot_num api) FORMAT_PDU,
        mem_cfg = replicate (slot_num api) \<lparr>mem1 = 0, mem2 = 0, mem3 = 0\<rparr>,
        mem_ready = replicate (slot_num api) False, sms_simid = 0, msgq = [], reports = [],
        ctxs = Map.empty, next_ctx = 0, live = 0\<rparr>"

section \<open>The invariant of the application\<close>

text \<open>A request or report owns one block each; a listing's cursor stays inside its list; the text
  fields of queued requests are terminated.\<close>

fun has_data :: "sms_msg \<Rightarrow> bool" where
  "has_data (Msg_send d) = (d \<noteq> None)"
| "has_data (Msg_read d) = (d \<noteq> None)"
| "has_data (Msg_delete d) = (d \<noteq> None)"
| "has_data (Msg_list d) = (d \<noteq> None)"
| "has_data Msg_exit = False"

fun good_msg :: "sms_msg \<Rightarrow> bool" where
  "good_msg (Msg_send (Some d)) = (terminated (phone_buf d) \<and> terminated (message_buf d))"
| "good_msg _ = True"

definition good_ctx :: "sms_async_ctx \<Rightarrow> bool" where
  "good_ctx c \<longleftrightarrow> unat (list_len c) \<le> length (ctx_list c) \<and> cur_pos c \<le> list_len c"

definition cfg_inv :: "sms_api \<Rightarrow> sms_state \<Rightarrow> bool" where
  "cfg_inv api s \<longleftrightarrow>
     length (format_cfg s) = slot_num api \<and> length (mem_cfg s) = slot_num api \<and>
     length (mem_ready s) = slot_num api \<and> unat (sms_simid s) < slot_num api"

definition ctx_inv :: "sms_state \<Rightarrow> bool" where
  "ctx_inv s \<longleftrightarrow> (\<forall>a c. ctxs s a = Some c \<longrightarrow> good_ctx c \<and> a < next_ctx s)"

definition owned :: "sms_state \<Rightarrow> nat" where
  "owned s = length (reports s) + length (filter has_data (msgq s))"

definition sms_inv :: "sms_api \<Rightarrow> sms_state \<Rightarrow> bool" where
  "sms_inv api s \<longleftrightarrow> cfg_inv api s \<and> ctx_inv s \<and> live s = owned s \<and>
     (\<forall>m\<in>set (msgq s). good_msg m) \<and> (\<forall>r\<in>set (reports s). unat (ev_simid r) < slot_num api)"

definition sms_fin :: "sms_state \<Rightarrow> bool" where
  "sms_fin s \<longleftrightarrow> msgq s = [] \<and> ctx_inv s"

text \<open>What is asked of the platform: the record list of the modem fits the buffer it was given, its
  PDUs fit the print buffer, status events name an existing slot, responses come for live
  listings, a read succeeds; and of the callers: a number of at most 14 and a text of at most 799
  characters.\<close>

definition env_fits :: "sms_env \<Rightarrow> bool" where
  [env_defs]: "env_fits env \<longleftrightarrow>
     (\<forall>i st q n recs num. spec_record env i st q n = Some (recs, num) \<longrightarrow> unat num \<le> length recs)"

fun event_ok :: "sms_api \<Rightarrow> sms_state \<Rightarrow> sms_event \<Rightarrow> bool" where
  "event_ok api s (Modem_status ev) = (unat (ev_simid ev) < slot_num api)"
| "event_ok api s (Modem_list_rsp a err r) = (ctxs s a \<noteq> None \<and> length (data_to_hex_string api (rec_pdu r)) < 1024)"
| "event_ok api s (Modem_read_rsp err r) = (err = SMS_SUCCESS \<and> length (data_to_hex_string api (rec_pdu r)) < 1024)"
| "event_ok api s (Api_send (Some p) (Some m) n) = (length p < phone_number_size - 1 \<and> length m < message_size - 1)"
| "event_ok api s _ = True"

definition sms_ok :: "sms_api \<Rightarrow> sms_state \<Rightarrow> sms_env \<times> sms_event \<Rightarrow> bool" where
  "sms_ok api s e \<longleftrightarrow> env_fits (fst e) \<and> event_ok api s (snd e)"

section \<open>Lemmas on the operations\<close>

text \<open>Fetching moves the cursor inside the list; the contexts stay good.\<close>

lemma fetch_next_good:
  assumes "good_ctx c"
  shows "\<exists>i c'. qosa_sms_demo_list_sms_fetch_next_ex c = Inr (i, c') \<and> good_ctx c' \<and>
    ctx_storage c' = ctx_storage c \<and> ctx_list c' = ctx_list c \<and> list_len c' = list_len c \<and>
    (if cur_pos c < list_len c
     then i = uint (ctx_list c ! unat (cur_pos c)) \<and> unat (cur_pos c') = Suc (unat (cur_pos c))
     else i = -1 \<and> c' = c)"
proof (cases "cur_pos c < list_len c")
  case True
  then have lt: "unat (cur_pos c) < unat (list_len c)" by (simp add: word_less_nat_alt)
  have "unat (cur_pos c + 1) = Suc (unat (cur_pos c))"
    using True by (rule unat_plus_one_less)
  with True lt assms show ?thesis
    by (auto simp: qosa_sms_demo_list_sms_fetch_next_ex_def good_ctx_def word_le_nat_alt)
next
  case False
  with assms show ?thesis
    by (auto simp: qosa_sms_demo_list_sms_fetch_next_ex_def)
qed

text \<open>Everything but the contexts.\<close>

definition rest ::
  "sms_state \<Rightarrow> sms_format list \<times> mem_info list \<times> bool list \<times> u8 \<times> sms_msg list \<times> status_event list \<times> nat" where
  "rest s = (format_cfg s, mem_cfg s, mem_ready s, sms_simid s, msgq s, reports s, live s)"

lemma list_next_good:
  assumes "good_ctx c" and "ctx_inv s" and "a < next_ctx s"
  shows "\<exists>r s' calls. list_next env a c s = Inr (r, s', calls) \<and> rest s' = rest s \<and> ctx_inv s'"
proof -
  obtain i c' where f: "qosa_sms_demo_list_sms_fetch_next_ex c = Inr (i, c')" "good_ctx c'"
    using fetch_next_good [OF assms(1)] by blast
  with assms show ?thesis
    by (auto simp: list_next_def Let_def qosa_sms_demo_delete_sms_deinit_ex_def ctx_inv_def rest_def)
qed

lemma get_mem_good:
  assumes "cfg_inv api s"
  shows "\<exists>e m. qosa_sms_demo_get_mem (sms_simid s) s = Inr (e, m)"
  using assms by (auto simp: qosa_sms_demo_get_mem_def cfg_inv_def)

lemma checked_storage_good:
  assumes "cfg_inv api s"
  shows "\<exists>st. checked_storage api env i s = Inr st"
proof -
  obtain e m where "qosa_sms_demo_get_mem (sms_simid s) s = Inr (e, m)"
    using get_mem_good [OF assms] by blast
  then show ?thesis
    by (auto simp: checked_storage_def split: option.split)
qed

lemma record_lines_good:
  assumes "length (data_to_hex_string api (rec_pdu r)) < 1024"
  shows "\<exists>out. record_lines api line f r = Inr out"
  using assms by (cases f) (simp_all add: record_lines_def pdu_line_def)

text \<open>The listing adds one good context or none; nothing else of the state changes.\<close>

lemma list_sms_init_good:
  assumes "ctx_inv s" and "env_fits env"
    and "qosa_sms_demo_list_sms_init api env simid storage status s = (Some a, s1)"
  shows "rest s1 = rest s \<and> ctx_inv s1 \<and> a < next_ctx s1 \<and> (\<exists>c. ctxs s1 a = Some c \<and> good_ctx c)"
  using assms
  by (auto simp: qosa_sms_demo_list_sms_init_def env_fits_def ctx_inv_def good_ctx_def less_Suc_eq rest_def
      split: if_splits option.splits)

lemma list_sms_init_fail:
  "qosa_sms_demo_list_sms_init api env simid storage status s = (None, s1) \<Longrightarrow> s1 = s"
  by (auto simp: qosa_sms_demo_list_sms_init_def split: if_splits option.splits)

lemma list_sms_good:
  assumes cfg: "cfg_inv api s" and inv: "ctx_inv s" and env: "env_fits env"
  shows "\<exists>r s' calls. qosa_sms_demo_list_sms api env stat s = Inr (r, s', calls) \<and> rest s' = rest s \<and> ctx_inv s'"
proof -
  obtain e m where gm: "qosa_sms_demo_get_mem (sms_simid s) s = Inr (e, m)"
    using get_mem_good [OF cfg] by blast
  have fmt: "unat (sms_simid s) < length (format_cfg s)" using cfg by (simp add: cfg_inv_def)
  show ?thesis
  proof (cases "vs_find_by_istr api (qosa_sms_status_vs api) stat")
    case None
    with fmt inv show ?thesis by (simp add: qosa_sms_demo_list_sms_def)
  next
    case (Some p)
    obtain status str where p: "p = (status, str)" by force
    obtain oa s1 where init: "qosa_sms_demo_list_sms_init api env (sms_simid s) (mem1 m) status s = (oa, s1)"
      by force
    show ?thesis
    proof (cases oa)
      case None
      with list_sms_init_fail init have "s1 = s" by blast
      with Some p gm fmt init None inv show ?thesis by (simp add: qosa_sms_demo_list_sms_def)
    next
      case (Some a)
      let ?c = "(the (ctxs s1 a))\<lparr>ctx_format := format_cfg s ! unat (sms_simid s), ctx_storage := mem1 m\<rparr>"
      note i = list_sms_init_good [OF inv env init [unfolded Some]]
      then have "good_ctx ?c" by (auto simp: good_ctx_def)
      with i list_next_good [of ?c s1 a env] \<open>vs_find_by_istr _ _ _ = _\<close> Some p gm fmt init inv show ?thesis
        by (auto simp: qosa_sms_demo_list_sms_def)
    qed
  qed
qed

lemma send_sms_good:
  assumes "cfg_inv api s" and "terminated p" and "terminated m"
  shows "\<exists>r calls. qosa_sms_demo_send_sms api env p m n s = Inr (r, s, calls)"
  using assms by (auto simp: qosa_sms_demo_send_sms_def cfg_inv_def Let_def split: sum.split)

lemma status_handler_good:
  assumes "cfg_inv api s" and "unat (ev_simid ev) < slot_num api"
  shows "\<exists>s'. qosa_sms_demo_sms_status_handler env ev s = Inr s' \<and> cfg_inv api s' \<and> sms_simid s' = ev_simid ev \<and>
    ctxs s' = ctxs s \<and> next_ctx s' = next_ctx s \<and> msgq s' = msgq s \<and> reports s' = reports s \<and> live s' = live s"
  using assms by (auto simp: qosa_sms_demo_sms_status_handler_def Let_def cfg_inv_def)

lemma rest_eq:
  "rest s' = rest s \<Longrightarrow> cfg_inv api s' = cfg_inv api s \<and> msgq s' = msgq s \<and> reports s' = reports s \<and> live s' = live s"
  by (auto simp: rest_def cfg_inv_def)

text \<open>Handling a message frees its data, if it has any, and keeps the rest.\<close>

lemma dispatch_good:
  assumes cfg: "cfg_inv api s" and inv: "ctx_inv s" and env: "env_fits env" and good: "good_msg m"
  shows "\<exists>r s' calls. sms_dispatch api env m s = Inr (r, s', calls) \<and> cfg_inv api s' \<and> ctx_inv s' \<and>
    msgq s' = msgq s \<and> reports s' = reports s \<and> live s' = live s - of_bool (has_data m)"
proof (cases m)
  case (Msg_send d)
  show ?thesis
  proof (cases d)
    case None
    with Msg_send cfg inv show ?thesis by (simp add: qosa_sms_demo_handle_send_sms_def)
  next
    case (Some q)
    have t: "terminated (phone_buf q)" "terminated (message_buf q)" using good Msg_send Some by simp_all
    obtain r calls where r: "qosa_sms_demo_send_sms api env (phone_buf q) (message_buf q) (pdu_length q) s =
        Inr (r, s, calls)"
      using send_sms_good [OF cfg t] by blast
    have "cfg_inv api (s\<lparr>live := live s - 1\<rparr>)" "ctx_inv (s\<lparr>live := live s - 1\<rparr>)"
      using cfg inv by (simp_all add: cfg_inv_def ctx_inv_def)
    with Msg_send Some r show ?thesis
      by (simp add: qosa_sms_demo_handle_send_sms_def free_data_def)
  qed
next
  case (Msg_read d)
  show ?thesis
  proof (cases d)
    case None
    with Msg_read cfg inv show ?thesis by (simp add: qosa_sms_demo_handle_read_sms_def)
  next
    case (Some i)
    obtain st where "checked_storage api env i s = Inr st" using checked_storage_good [OF cfg] by blast
    with Msg_read Some cfg inv show ?thesis
      by (cases st) (simp_all add: qosa_sms_demo_handle_read_sms_def qosa_sms_demo_read_sms_def free_data_def
          cfg_inv_def ctx_inv_def)
  qed
next
  case (Msg_delete d)
  show ?thesis
  proof (cases d)
    case None
    with Msg_delete cfg inv show ?thesis by (simp add: qosa_sms_demo_handle_delete_sms_def)
  next
    case (Some q)
    obtain st where "checked_storage api env (del_index q) s = Inr st" using checked_storage_good [OF cfg] by blast
    with Msg_delete Some cfg inv show ?thesis
      by (cases st) (simp_all add: qosa_sms_demo_handle_delete_sms_def qosa_sms_demo_delete_sms_def free_data_def
          cfg_inv_def ctx_inv_def)
  qed
next
  case (Msg_list stat)
  obtain r s' calls where l: "qosa_sms_demo_list_sms api env stat s = Inr (r, s', calls)"
      "rest s' = rest s" "ctx_inv s'"
    using list_sms_good [OF cfg inv env] by blast
  have "cfg_inv api (s'\<lparr>live := n\<rparr>)" "ctx_inv (s'\<lparr>live := n\<rparr>)" for n
    using rest_eq [OF l(2)] cfg l(3) by (simp_all add: cfg_inv_def ctx_inv_def)
  with Msg_list l rest_eq [OF l(2), of api] cfg show ?thesis
    by (simp add: qosa_sms_demo_handle_list_sms_def free_data_def Let_def)
next
  case Msg_exit
  with cfg inv show ?thesis by simp
qed

lemma task_iter_good:
  assumes inv: "sms_inv api s" and env: "env_fits env"
  shows "outcome_inv (sms_inv api) sms_fin (sms_task_iter api env s)"
proof (cases "msgq s")
  case Nil
  with inv show ?thesis by simp
next
  case (Cons m q)
  show ?thesis
  proof (cases "m = Msg_exit")
    case True
    with Cons inv show ?thesis by (simp add: sms_fin_def sms_inv_def ctx_inv_def)
  next
    case False
    let ?s = "s\<lparr>msgq := q\<rparr>"
    have pre: "cfg_inv api ?s" "ctx_inv ?s" "good_msg m"
      using inv Cons by (simp_all add: sms_inv_def cfg_inv_def ctx_inv_def)
    obtain r s' calls where d: "sms_dispatch api env m ?s = Inr (r, s', calls)" "cfg_inv api s'" "ctx_inv s'"
        "msgq s' = q" "reports s' = reports s" "live s' = live s - of_bool (has_data m)"
      using dispatch_good [OF pre(1,2) env pre(3)] by auto
    have "sms_inv api s'"
      using inv Cons d(2-6) by (simp add: sms_inv_def owned_def)
    with Cons False d(1) show ?thesis by (cases m) simp_all
  qed
qed

lemma strncpy_good:
  "length p < n \<Longrightarrow> terminated (strncpy_buf dst p n)"
  using strncpy_short [of p n dst] length_c_str [of p] by simp

text \<open>Posting a request allocated just before keeps the count, whether the queue takes it or not.\<close>

lemma post_good:
  assumes "sms_inv api s" and "good_msg m" and "has_data m"
  shows "sms_inv api (snd (post env m (s\<lparr>live := Suc (live s)\<rparr>)))"
  using assms by (auto simp: post_def sms_inv_def owned_def cfg_inv_def ctx_inv_def)

lemma enqueue_plain:
  assumes "sms_inv api s" and "good_msg m" and "\<not> has_data m"
  shows "sms_inv api (s\<lparr>msgq := msgq s @ [m]\<rparr>)"
  using assms by (auto simp: sms_inv_def owned_def cfg_inv_def ctx_inv_def)

lemma set_sim_good: "sms_inv api s \<Longrightarrow> sms_inv api (qosa_sms_set_sim_id api u s)"
  by (simp add: qosa_sms_set_sim_id_def sms_inv_def owned_def cfg_inv_def ctx_inv_def)

lemma api_good:
  assumes inv: "sms_inv api s"
  shows "length p < phone_number_size - 1 \<Longrightarrow> length m < message_size - 1 \<Longrightarrow>
      sms_inv api (snd (qosa_sms_send_message env (Some p) (Some m) n s))"
    and "sms_inv api (snd (qosa_sms_read_message env i s))"
    and "sms_inv api (snd (qosa_sms_delete_message api env i f s))"
    and "sms_inv api (snd (qosa_sms_list_messages env t s))"
    and "sms_inv api (qosa_sms_stop env s)"
    and "sms_inv api (qosa_sms_set_sim_id api u s)"
  using inv post_good [OF inv] enqueue_plain [OF inv] set_sim_good [OF inv]
  by (simp_all add: qosa_sms_send_message_def strncpy_good qosa_sms_read_message_def
      qosa_sms_delete_message_def qosa_sms_list_messages_def qosa_sms_stop_def split: option.split)

lemma set_format_good:
  assumes "sms_inv api s"
  shows "\<exists>s'. qosa_sms_set_format f s = Inr s' \<and> sms_inv api s'"
  using assms by (simp add: qosa_sms_set_format_def sms_inv_def cfg_inv_def ctx_inv_def owned_def)

lemma set_memory_good:
  assumes "sms_inv api s"
  shows "\<exists>s' calls. qosa_sms_set_memory_config api env a b c s = Inr (s', calls) \<and> sms_inv api s'"
  using assms
  by (simp add: qosa_sms_set_memory_config_def sms_inv_def cfg_inv_def ctx_inv_def owned_def Let_def)

lemma list_rsp_good:
  assumes inv: "sms_inv api s" and ctx: "ctxs s a \<noteq> None"
    and hex: "length (data_to_hex_string api (rec_pdu r)) < 1024"
  shows "\<exists>c s' calls. qosa_sms_demo_list_msg_rsp api env a err r s = Inr (c, s', calls) \<and> sms_inv api s'"
proof -
  have pre: "cfg_inv api s" "ctx_inv s" using inv by (simp_all add: sms_inv_def)
  obtain c where c: "ctxs s a = Some c" "good_ctx c" "a < next_ctx s"
    using ctx pre(2) by (auto simp: ctx_inv_def)
  have fmt: "unat (sms_simid s) < length (format_cfg s)" using pre(1) by (simp add: cfg_inv_def)
  show ?thesis
  proof (cases "err = SMS_SUCCESS")
    case False
    with c fmt inv show ?thesis
      by (simp add: qosa_sms_demo_list_msg_rsp_def qosa_sms_demo_delete_sms_deinit_ex_def sms_inv_def
          cfg_inv_def ctx_inv_def owned_def)
  next
    case True
    obtain out where out: "record_lines api list_line (format_cfg s ! unat (sms_simid s)) r = Inr out"
      using record_lines_good [OF hex] by blast
    obtain k s' calls where n: "list_next env a c s = Inr (k, s', calls)" "rest s' = rest s" "ctx_inv s'"
      using list_next_good [OF c(2) pre(2) c(3)] by blast
    have "sms_inv api s'"
      using inv n(3) rest_eq [OF n(2), of api] by (simp add: sms_inv_def owned_def)
    with True c fmt out n(1) show ?thesis
      by (simp add: qosa_sms_demo_list_msg_rsp_def)
  qed
qed

lemma read_rsp_good:
  assumes inv: "sms_inv api s" and hex: "length (data_to_hex_string api (rec_pdu r)) < 1024"
  shows "\<exists>c s' calls. qosa_sms_demo_read_msg_rsp api env SMS_SUCCESS r s = Inr (c, s', calls) \<and> sms_inv api s'"
proof -
  obtain out where out: "record_lines api read_line (format_cfg s ! unat (sms_simid s)) r = Inr out"
    using record_lines_good [OF hex] by blast
  have "unat (sms_simid s) < length (format_cfg s)" using inv by (simp add: sms_inv_def cfg_inv_def)
  with inv out show ?thesis
    by (simp add: qosa_sms_demo_read_msg_rsp_def Let_def)
qed

lemma centre_good:
  assumes inv: "sms_inv api s"
  shows "outcome_inv (sms_inv api) sms_fin (sms_step api s (env, Run_centre))"
proof (cases "reports s")
  case Nil
  with inv show ?thesis by simp
next
  case (Cons r rs)
  let ?s = "s\<lparr>reports := rs\<rparr>"
  have pre: "cfg_inv api ?s" "unat (ev_simid r) < slot_num api"
    using inv Cons by (simp_all add: sms_inv_def cfg_inv_def)
  obtain s' where h: "qosa_sms_demo_sms_status_handler env r ?s = Inr s'" "cfg_inv api s'"
      "ctxs s' = ctxs s" "next_ctx s' = next_ctx s" "msgq s' = msgq s" "reports s' = rs" "live s' = live s"
    using status_handler_good [OF pre] by auto
  have "sms_inv api (s'\<lparr>live := live s' - 1\<rparr>)"
    using inv Cons h(2-7) by (simp add: sms_inv_def owned_def cfg_inv_def ctx_inv_def)
  with Cons h(1) show ?thesis by (simp add: qosa_sms_demo_sms_indicate_hdlr_def)
qed

interpretation sms_task: event_loop "sms_step api" "sms_inv api" sms_fin "sms_ok api" for api
proof
  fix s and e :: "sms_env \<times> sms_event"
  assume inv: "sms_inv api s" and acc: "sms_ok api s e"
  obtain env ev where e: "e = (env, ev)" by force
  with acc have env: "env_fits env" and ok: "event_ok api s ev" by (simp_all add: sms_ok_def)
  have "outcome_inv (sms_inv api) sms_fin (sms_step api s (env, ev))"
  proof (cases ev)
    case Run_task
    with task_iter_good [OF inv env] show ?thesis by simp
  next
    case Run_centre
    with centre_good [OF inv] show ?thesis by simp
  next
    case (Modem_status x)
    with inv ok show ?thesis
      by (simp add: quecos_modem_sms_status_event_cb_def sms_inv_def cfg_inv_def ctx_inv_def owned_def)
  next
    case (Modem_list_rsp a err r)
    with ok list_rsp_good [OF inv, of a r env err] show ?thesis by auto
  next
    case (Modem_read_rsp err r)
    with ok read_rsp_good [OF inv, of r env] show ?thesis by auto
  next
    case (Api_send p m n)
    then show ?thesis
      using ok inv api_good(1) [OF inv]
      by (cases p; cases m) (simp_all add: qosa_sms_send_message_def)
  next
    case (Api_set_format f)
    with set_format_good [OF inv, of f] show ?thesis by auto
  next
    case (Api_set_memory a b c)
    with set_memory_good [OF inv, of env a b c] show ?thesis by auto
  qed (use api_good [OF inv] in simp_all)
  with e show "outcome_inv (sms_inv api) sms_fin (sms_step api s e)" by simp
qed

section \<open>Properties of the application\<close>

lemma init_inv: "0 < slot_num api \<Longrightarrow> sms_inv api (quec_sms_demo_init api)"
  by (simp add: quec_sms_demo_init_def qosa_sms_demo_init_config_def sms_inv_def cfg_inv_def ctx_inv_def owned_def)


text \<open>Listing. What is left of a listing after the record in hand, and the reads among the calls.\<close>

definition remaining :: "sms_async_ctx \<Rightarrow> u16 list" where
  "remaining c = drop (unat (cur_pos c)) (take (unat (list_len c)) (ctx_list c))"

definition is_read :: "sms_call \<Rightarrow> bool" where
  "is_read call = (case call of Call_read_pdu _ _ _ _ \<Rightarrow> True | _ \<Rightarrow> False)"

lemma is_read_simps [simp]: "is_read (Call_read_pdu a b c d)" "\<not> is_read (Print t)"
  by (simp_all add: is_read_def)

lemma fetch_remaining:
  assumes "good_ctx c"
  shows "case remaining c of
      [] \<Rightarrow> qosa_sms_demo_list_sms_fetch_next_ex c = Inr (-1, c)
    | i # js \<Rightarrow> \<exists>c'. qosa_sms_demo_list_sms_fetch_next_ex c = Inr (uint i, c') \<and> good_ctx c' \<and>
        remaining c' = js \<and> ctx_storage c' = ctx_storage c"
proof (cases "cur_pos c < list_len c")
  case True
  then have lt: "unat (cur_pos c) < length (take (unat (list_len c)) (ctx_list c))"
    using assms by (simp add: good_ctx_def word_less_nat_alt)
  from fetch_next_good [OF assms] True
  obtain c' where c': "qosa_sms_demo_list_sms_fetch_next_ex c = Inr (uint (ctx_list c ! unat (cur_pos c)), c')"
      "good_ctx c'" "ctx_storage c' = ctx_storage c" "ctx_list c' = ctx_list c" "list_len c' = list_len c"
      "unat (cur_pos c') = Suc (unat (cur_pos c))"
    by auto
  have "remaining c = ctx_list c ! unat (cur_pos c) # remaining c'"
    using Cons_nth_drop_Suc [OF lt] c'(4-6) True by (simp add: remaining_def word_less_nat_alt)
  with c' show ?thesis by simp
next
  case False
  then have "remaining c = []" by (simp add: remaining_def word_less_nat_alt not_less)
  with False show ?thesis by (simp add: qosa_sms_demo_list_sms_fetch_next_ex_def not_less)
qed

lemma record_lines_print:
  assumes "record_lines api line f r = Inr out"
  shows "filter is_read out = []"
  using assms
  by (cases f) (auto simp: record_lines_def pdu_line_def Let_def c_bind_eq_Inr split: option.splits if_splits)

lemma listing_runs:
  assumes "ctxs s a = Some c" and "good_ctx c" and "cfg_inv api s" and "read_ret env = SMS_SUCCESS"
    and "length rs = Suc (length (remaining c))"
    and "\<forall>r \<in> set rs. length (data_to_hex_string api (rec_pdu r)) < 1024"
  shows "\<exists>s' out. run_loop (sms_step api) s (map (\<lambda>r. (env, Modem_list_rsp a SMS_SUCCESS r)) rs) = Continue s' out \<and>
    filter is_read out = map (\<lambda>i. Call_read_pdu (sms_simid s) (ctx_storage c) (uint i) (Some a)) (remaining c) \<and>
    ctxs s' = (ctxs s)(a := None) \<and> rest s' = rest s"
  using assms
proof (induction rs arbitrary: s c)
  case Nil
  then show ?case by simp
next
  case (Cons r rs)
  from Cons.prems have fmt: "unat (sms_simid s) < length (format_cfg s)" by (simp add: cfg_inv_def)
  obtain out where out: "record_lines api list_line (format_cfg s ! unat (sms_simid s)) r = Inr out"
    using record_lines_good Cons.prems(6) by (metis list.set_intros(1))
  note no_read = record_lines_print [OF out]
  show ?case
  proof (cases "remaining c")
    case Nil
    with Cons.prems fetch_remaining [of c]
    have "qosa_sms_demo_list_sms_fetch_next_ex c = Inr (-1, c)" "rs = []" by simp_all
    with Nil Cons.prems fmt out no_read show ?thesis
      by (simp add: qosa_sms_demo_list_msg_rsp_def list_next_def qosa_sms_demo_delete_sms_deinit_ex_def rest_def fun_eq_iff)
  next
    case (Cons i js)
    with Cons.prems fetch_remaining [of c]
    obtain c' where c': "qosa_sms_demo_list_sms_fetch_next_ex c = Inr (uint i, c')" "good_ctx c'"
        "remaining c' = js" "ctx_storage c' = ctx_storage c"
      by auto
    let ?s1 = "s\<lparr>ctxs := (ctxs s)(a \<mapsto> c')\<rparr>"
    have step: "sms_step api s (env, Modem_list_rsp a SMS_SUCCESS r) =
        Continue ?s1 (out @ [Call_read_pdu (sms_simid s) (ctx_storage c) (uint i) (Some a)])"
      using Cons.prems fmt out c' by (simp add: qosa_sms_demo_list_msg_rsp_def list_next_def Let_def)
    have "cfg_inv api ?s1" "rest ?s1 = rest s" using Cons.prems(3) by (simp_all add: cfg_inv_def rest_def)
    with Cons.IH [of ?s1 c'] Cons.prems Cons c' step no_read show ?thesis
      by (auto simp: fun_eq_iff)
  qed
qed

lemma fresh_ctx: "ctx_inv s \<Longrightarrow> ctxs s (next_ctx s) = None"
  by (cases "ctxs s (next_ctx s)") (auto simp: ctx_inv_def)


text \<open>A text message of bounded length posted to the idle task: the request is copied, handled and
  freed.\<close>

lemma strncpy_bounded:
  assumes "NUL \<notin> set p" and "length p < n"
  shows "terminated (strncpy_buf dst p n)" and "c_str (strncpy_buf dst p n) = p"
  using strncpy_short [of p n dst] assms by simp_all

lemma u16_nonzero: "m \<noteq> [] \<Longrightarrow> length m < 65536 \<Longrightarrow> (of_nat (length m) :: u16) \<noteq> 0"
  by (simp add: word_of_nat_eq_0_iff) (metis length_0_conv nat_dvd_not_less gr0I)


text \<open>A number of 15 or more characters is copied without its terminator: unless the allocator
  happened to leave a zero in the last byte of the field, handling the request in text format
  reads past the field.\<close>

theorem long_number_reads_past_field:
  assumes "cfg_inv api s" and "format_cfg s ! unat (sms_simid s) = FORMAT_TEXT" and "msgq s = []"
    and "NUL \<notin> set p" and "15 \<le> length p" and "NUL \<notin> set m" and "m \<noteq> []" and "length m < 800"
    and "alloc_ok env" and "queue_ok env" and "attached env'"
    and "16 \<le> length (fresh env)" and "fresh env ! 15 \<noteq> NUL"
  shows "run_loop (sms_step api) s [(env, Api_send (Some p) (Some m) 0), (env', Run_task)] = Undefined Out_of_bounds"
proof -
  let ?q = "\<lparr>phone_buf = strncpy_buf (take 16 (fresh env)) p 15,
      message_buf = strncpy_buf (take 801 (drop 16 (fresh env))) m 800, pdu_length = 0\<rparr>"
  have post: "qosa_sms_send_message env (Some p) (Some m) 0 s =
      (0, s\<lparr>live := Suc (live s), msgq := [Msg_send (Some ?q)]\<rparr>)"
    using assms(3,8-10)
    by (simp add: qosa_sms_send_message_def post_def QOSA_SMS_DEMO_SMS_MAX_LENGTH_def
        phone_number_size_def message_size_def)
  have "drop 15 (take 16 (fresh env)) = [fresh env ! 15]"
    using assms(12) by (simp add: drop_take Cons_nth_drop_Suc [symmetric] take_Suc_conv_app_nth)
  then have "\<not> terminated (phone_buf ?q)"
    using strncpy_long [of 15 p "take 16 (fresh env)"] assms(4,5,13) by (simp add: terminated_def)
  then have "qosa_sms_demo_send_sms api env' (phone_buf ?q) (message_buf ?q) 0 (s\<lparr>live := Suc (live s), msgq := []\<rparr>) =
      Inl Out_of_bounds"
    using assms(1,2,6-8,11) strncpy_bounded [OF assms(6,8)] u16_nonzero [OF assms(7)]
    by (simp add: qosa_sms_demo_send_sms_def cfg_inv_def Let_def)
  then show ?thesis
    using post assms(3) by (simp add: qosa_sms_demo_handle_send_sms_def free_data_def)
qed

text \<open>A PDU given in hexadecimal is sent exactly when the announced length and the length of its
  service centre part add up to its bytes; \<^verbatim>\<open>pdu_with_sca_len\<close> is eight bits wide, so what is sent is
  the first \<open>n mod 256\<close> of its \<open>n\<close> bytes.\<close>

theorem hex_pdu_sent_modulo_256:
  assumes "alloc_ok env" and "data_string_to_hex api msg = Some d" and "length msg = 2 * length d"
    and "length msg \<le> 800" and "unat (sca_part_len api d) + unat pdulen = length d"
  shows "pdu_of_hex api env msg pdulen = Inr (take (length d mod 256) d)"
proof -
  let ?l = "of_nat (length msg) :: u16"
  have "unat ?l = length msg" using assms(4) by (simp add: unat_of_nat)
  then have l: "unat ?l = 2 * length d" using assms(3) by metis
  have "length d \<le> 400" using assms(3,4) by simp
  then have half: "unat ((ucast ?l :: u32) div 2) = length d"
    using l by (simp add: unat_div unsigned_ucast_eq take_bit_eq_mod)
  have "unat (ucast (sca_part_len api d) + pdulen :: u32) = length d"
    using assms(5) \<open>length d \<le> 400\<close> by (simp add: unat_word_ariths unsigned_ucast_eq take_bit_eq_mod)
  then have "ucast (sca_part_len api d) + pdulen = (ucast ?l :: u32) div 2"
    using half by (metis word_unat_eq_iff)
  moreover have "unat (ucast (?l div 2) :: u8) = length d mod 256"
    using l by (simp add: unat_div unsigned_ucast_eq take_bit_eq_mod)
  ultimately show ?thesis
    using assms(1,2) by (simp add: pdu_of_hex_def Let_def)
qed

text \<open>On a ready SIM a read request goes to the modem exactly for indices below the number of
  slots of the storage, none at all when the storage is empty.\<close>

theorem read_index_checked:
  assumes "cfg_inv api s" and "mem_ready s ! unat (sms_simid s)"
  shows "\<exists>r. qosa_sms_demo_read_sms api env index s = Inr (r, s,
    (case stor_info env (sms_simid s) of
       None \<Rightarrow> []
     | Some info \<Rightarrow>
         if unat index < unat (total_slot api (mem1 (mem_cfg s ! unat (sms_simid s))) info)
         then [Call_read_pdu (sms_simid s) (mem1 (mem_cfg s ! unat (sms_simid s))) (uint index) None]
         else []))"
proof -
  have "qosa_sms_demo_get_mem (sms_simid s) s = Inr (SMS_SUCCESS, mem_cfg s ! unat (sms_simid s))"
    using assms by (simp add: qosa_sms_demo_get_mem_def cfg_inv_def)
  moreover have "(uint t - 1 < uint index) = (\<not> unat index < unat t)" for t :: u16
  proof -
    have "(uint t - 1 < uint index) = (t \<le> index)" unfolding word_le_def by linarith
    then show ?thesis by (simp add: word_le_nat_alt not_less)
  qed
  ultimately show ?thesis
    by (auto simp: qosa_sms_demo_read_sms_def checked_storage_def split: option.split)
qed

text \<open>Every failed read response leaks the kilobyte buffer the handler allocated.\<close>

theorem failed_read_leaks_buffer:
  assumes "cfg_inv api s" and "alloc_ok env" and "err \<noteq> SMS_SUCCESS"
  shows "sms_step api s (env, Modem_read_rsp err r) = Continue (s\<lparr>live := Suc (live s)\<rparr>) []"
  using assms by (simp add: qosa_sms_demo_read_msg_rsp_def cfg_inv_def Let_def)

text \<open>A running listing does not remember its SIM: when another SIM reports its status in the
  middle, the next record of the listing is read from that SIM, with the index of the first.\<close>

theorem listing_switches_sim:
  assumes "cfg_inv api s" and "reports s = []" and "ctxs s a = Some c" and "good_ctx c"
    and "remaining c = i # js" and "unat (ev_simid ev) < slot_num api" and "alloc_ok env"
    and "read_ret env = SMS_SUCCESS" and "length (data_to_hex_string api (rec_pdu r)) < 1024"
  shows "\<exists>s' out. run_loop (sms_step api) s
      [(env, Modem_status ev), (env, Run_centre), (env, Modem_list_rsp a SMS_SUCCESS r)] = Continue s' out \<and>
    filter is_read out = [Call_read_pdu (ev_simid ev) (ctx_storage c) (uint i) (Some a)]"
proof -
  let ?s = "s\<lparr>live := Suc (live s), reports := []\<rparr>"
  have cfg: "cfg_inv api ?s" using assms(1) by (simp add: cfg_inv_def)
  obtain s1 where s1: "qosa_sms_demo_sms_status_handler env ev ?s = Inr s1" "cfg_inv api s1"
      "sms_simid s1 = ev_simid ev" "ctxs s1 = ctxs s" "live s1 = Suc (live s)"
    using status_handler_good [OF cfg assms(6)] by auto
  let ?s2 = "s1\<lparr>live := live s\<rparr>"
  have steps: "sms_step api s (env, Modem_status ev) = Continue (s\<lparr>live := Suc (live s), reports := [ev]\<rparr>) []"
      "sms_step api (s\<lparr>live := Suc (live s), reports := [ev]\<rparr>) (env, Run_centre) = Continue ?s2 []"
    using assms(2,7) s1 by (simp_all add: quecos_modem_sms_status_event_cb_def qosa_sms_demo_sms_indicate_hdlr_def)
  obtain c' where c': "qosa_sms_demo_list_sms_fetch_next_ex c = Inr (uint i, c')" "ctx_storage c' = ctx_storage c"
    using fetch_remaining [OF assms(4)] assms(5) by auto
  have fmt: "unat (sms_simid s1) < length (format_cfg s1)" using s1(2) by (simp add: cfg_inv_def)
  obtain out where out: "record_lines api list_line (format_cfg s1 ! unat (sms_simid s1)) r = Inr out"
    using record_lines_good [OF assms(9)] by blast
  have "sms_step api ?s2 (env, Modem_list_rsp a SMS_SUCCESS r) =
      Continue (?s2\<lparr>ctxs := (ctxs s)(a \<mapsto> c')\<rparr>)
        (out @ [Call_read_pdu (ev_simid ev) (ctx_storage c) (uint i) (Some a)])"
    using fmt out c' s1 assms(3,8) by (simp add: qosa_sms_demo_list_msg_rsp_def list_next_def Let_def)
  with steps record_lines_print [OF out] show ?thesis by simp
qed

section \<open>The properties at concrete inputs\<close>

definition ex_api :: sms_api where
  "ex_api = \<lparr>slot_num = 2, STOR_ME = 0, STOR_SM = 1, DEL_INDEX = 0, DEL_ALL = 4,
     st_UNREAD = 0, st_READ = 1, st_UNSENT = 2, st_SENT = 3, st_ALL = 4,
     vs_find_by_value = (\<lambda>t v. find (\<lambda>p. fst p = v) t),
     vs_find_by_istr = (\<lambda>t x. case x of None \<Rightarrow> None | Some x \<Rightarrow> find (\<lambda>p. snd p = x) t),
     pdu_to_text = (\<lambda>_. Other_text),
     text_to_pdu = (\<lambda>m. Inr (replicate (length (da m) + length (sub_data m)) 7)),
     alphabet_16bit = (\<lambda>_. False),
     data_to_hex_string = (\<lambda>d. replicate (2 * length d) (CHR ''0'')),
     data_string_to_hex = (\<lambda>t. Some (replicate (length t div 2) 0)), sca_part_len = (\<lambda>_. 1)\<rparr>"

definition ex_env :: sms_env where
  "ex_env = \<lparr>alloc_ok = True, alloc2_ok = True, fresh = replicate 820 (CHR ''x''), queue_made = True, queue_ok = True, attached = True,
     conf = (\<lambda>_. \<lparr>conf_mem = \<lparr>mem1 = 0, mem2 = 0, mem3 = 0\<rparr>, text_fo = 17, text_pid = 0, text_dcs = 0, text_vp = 167\<rparr>),
     stor_info = (\<lambda>_. Some (2, 2)), spec_record = (\<lambda>_ _ _ _. Some ([5, 9], 2)),
     send_ret = SMS_SUCCESS, read_ret = SMS_SUCCESS, delete_ret = SMS_SUCCESS\<rparr>"

definition ex_rec :: sms_record where
  "ex_rec = \<lparr>rec_status = 1, rec_pdu = [1, 2]\<rparr>"

text \<open>SIM 0 is ready.\<close>

definition ex_state :: sms_state where
  "ex_state = (quec_sms_demo_init ex_api)\<lparr>mem_ready := [True, False]\<rparr>"

definition ex_ctx :: sms_async_ctx where
  "ex_ctx = \<lparr>ctx_format = FORMAT_TEXT, ctx_storage = 0, ctx_list = [5, 9], list_len = 2, cur_pos = 1\<rparr>"

lemma replicate_two: "replicate 2 x = [x, x]"
  by (simp add: numeral_2_eq_2)

lemmas sms_eval = ex_state_def ex_api_def ex_env_def ex_rec_def ex_ctx_def quec_sms_demo_init_def
  qosa_sms_demo_init_config_def replicate_two cfg_inv_def ctx_inv_def good_ctx_def

lemma ex_env_fits: "env_fits ex_env"
  by (simp add: env_fits_def ex_env_def)




theorem long_number_reads_past_field_witness:
  "run_loop (sms_step ex_api) ex_state
     [(ex_env, Api_send (Some ''+86138001380001'') (Some ''Hi'') 0), (ex_env, Run_task)] = Undefined Out_of_bounds"
  by (rule long_number_reads_past_field) (simp_all add: sms_eval)

text \<open>300 bytes in hexadecimal: 44 of them are sent.\<close>

theorem hex_pdu_sent_modulo_256_witness:
  "pdu_of_hex ex_api ex_env (replicate 600 (CHR ''0'')) 299 = Inr (replicate 44 0)"
proof -
  have "data_string_to_hex ex_api (replicate 600 (CHR ''0'')) = Some (replicate 300 0)"
    by (simp add: ex_api_def)
  from hex_pdu_sent_modulo_256 [OF _ this, of ex_env 299] show ?thesis
    by (simp add: ex_env_def ex_api_def)
qed

theorem read_index_checked_witness:
  "\<exists>r. qosa_sms_demo_read_sms ex_api ex_env 1 ex_state = Inr (r, ex_state, [Call_read_pdu 0 0 1 None])"
proof -
  have pre: "cfg_inv ex_api ex_state" "mem_ready ex_state ! unat (sms_simid ex_state)"
    by (simp_all add: sms_eval)
  have "sms_simid ex_state = 0" "mem1 (mem_cfg ex_state ! 0) = 0" "stor_info ex_env 0 = Some (2, 2)"
      "total_slot ex_api 0 (2, 2) = 2"
    by (simp_all add: sms_eval total_slot_def)
  with read_index_checked [OF pre, of ex_env 1] show ?thesis by simp
qed

theorem failed_read_leaks_buffer_witness:
  "sms_step ex_api ex_state (ex_env, Modem_read_rsp NO_MSG_ERR ex_rec) = Continue (ex_state\<lparr>live := 1\<rparr>) []"
proof -
  have "sms_step ex_api ex_state (ex_env, Modem_read_rsp NO_MSG_ERR ex_rec) =
      Continue (ex_state\<lparr>live := Suc (live ex_state)\<rparr>) []"
    by (rule failed_read_leaks_buffer) (simp_all add: sms_eval)
  then show ?thesis by (simp add: sms_eval)
qed

theorem listing_switches_sim_witness:
  "\<exists>s' out. run_loop (sms_step ex_api) (ex_state\<lparr>ctxs := [0 \<mapsto> ex_ctx]\<rparr>)
      [(ex_env, Modem_status \<lparr>ev_simid = 1, ev_ready = True\<rparr>), (ex_env, Run_centre),
       (ex_env, Modem_list_rsp 0 SMS_SUCCESS ex_rec)] = Continue s' out \<and>
    filter is_read out = [Call_read_pdu 1 0 9 (Some 0)]"
proof -
  let ?s = "ex_state\<lparr>ctxs := [0 \<mapsto> ex_ctx]\<rparr>" and ?ev = "\<lparr>ev_simid = 1, ev_ready = True\<rparr> :: status_event"
  have pre: "cfg_inv ex_api ?s" "reports ?s = []" "ctxs ?s 0 = Some ex_ctx" "good_ctx ex_ctx"
      "remaining ex_ctx = [9]" "unat (ev_simid ?ev) < slot_num ex_api" "alloc_ok ex_env"
      "read_ret ex_env = SMS_SUCCESS" "length (data_to_hex_string ex_api (rec_pdu ex_rec)) < 1024"
    by (simp_all add: sms_eval remaining_def)
  have "ctx_storage ex_ctx = 0" by (simp add: ex_ctx_def)
  with listing_switches_sim [OF pre] show ?thesis by simp
qed

end
