(* ===== verification/Sms_Test.thy ===== *)
theory Sms_Test
  imports Sms_Demo
begin

text \<open>
  The script that exercises the SMS application (\<^verbatim>\<open>qosa_sms_demo_test_example\<close>, a task of its own that the
  macro \<^verbatim>\<open>QOSA_SMS_DEMO_TEST_TASK_ENABLE\<close> switches on) and the two responses that only report. The script is
  the list of its calls with the pauses before them; it runs beside the application's task, the
  centre task and the modem, so the theorem is about every interleaving.
\<close>

section \<open>Responses that report\<close>

datatype rsp_line =
    Result u8 sms_err
  | Send_failed sms_err
  | Send_success nat
  | Delete_success
  | Delete_failed

definition qosa_sms_demo_send_msg_rsp :: "sms_err \<Rightarrow> nat \<Rightarrow> sms_state \<Rightarrow> rsp_line list" where
  "qosa_sms_demo_send_msg_rsp err_code mr s =
     [Result (sms_simid s) err_code, if err_code \<noteq> SMS_SUCCESS then Send_failed err_code else Send_success mr]"

text \<open>Deleting when there is no message counts as success.\<close>

definition qosa_sms_demo_delete_msg_rsp :: "sms_err \<Rightarrow> sms_state \<Rightarrow> rsp_line list" where
  "qosa_sms_demo_delete_msg_rsp err_code s =
     Result (sms_simid s) err_code #
     (if err_code \<noteq> SMS_SUCCESS then
        if err_code = NO_MSG_ERR then [Delete_success] else [Delete_failed]
      else [Delete_success])"

text \<open>The response reports success for the codes for which the request returned 0.\<close>

lemma delete_reported: "Delete_success \<in> set (qosa_sms_demo_delete_msg_rsp e s) \<longleftrightarrow> code_of e = 0"
  by (simp add: qosa_sms_demo_delete_msg_rsp_def code_of_def)

section \<open>The script\<close>

definition test_pdu :: string where
  "test_pdu = ''0891683108701705F0110005910180F60000FF05E8329BFD06''"

text \<open>Seconds to sleep, then the call.\<close>

definition qosa_sms_demo_test_example :: "sms_api \<Rightarrow> (nat \<times> sms_event) list" where
  "qosa_sms_demo_test_example api =
     [(20 + 30, Api_send (Some ''10086'') (Some ''QuecOS SMS test!'') 0),
      (20, Api_list (Some ''REC UNREAD'')),
      (60, Api_list (Some ''ALL'')),
      (30, Api_read 0),
      (30, Api_delete 0 (DEL_INDEX api)),
      (30, Api_send (Some ''10086'') (Some test_pdu) 16),
      (30, Api_list (Some ''ALL'')),
      (30, Api_stop)]"

text \<open>The task deletes itself after the script.\<close>

datatype test_end = Test_task_deleted

definition qosa_sms_demo_test_task :: "sms_api \<Rightarrow> bool \<Rightarrow> (nat \<times> sms_event) list \<times> test_end list" where
  "qosa_sms_demo_test_task api task_ptr = (qosa_sms_demo_test_example api, if task_ptr then [Test_task_deleted] else [])"

fun is_call :: "sms_event \<Rightarrow> bool" where
  "is_call Run_task = False"
| "is_call Run_centre = False"
| "is_call (Modem_status ev) = False"
| "is_call (Modem_list_rsp a err r) = False"
| "is_call (Modem_read_rsp err r) = False"
| "is_call _ = True"

text \<open>The calls of a run are those of the script, as far as it has come.\<close>

definition calls_of_script :: "sms_api \<Rightarrow> (sms_env \<times> sms_event) list \<Rightarrow> bool" where
  "calls_of_script api es \<longleftrightarrow>
     (\<exists>n. filter is_call (map snd es) = map snd (take n (qosa_sms_demo_test_example api)))"

text \<open>What is asked of the platform alone.\<close>

definition platform_ok :: "sms_api \<Rightarrow> sms_state \<Rightarrow> sms_env \<times> sms_event \<Rightarrow> bool" where
  [env_defs]: "platform_ok api s e \<longleftrightarrow> env_fits (fst e) \<and> (is_call (snd e) \<or> event_ok api s (snd e))"

text \<open>Every call of the script keeps the callers' side of the contract, in every state.\<close>

lemma script_call_ok: "(n, e) \<in> set (qosa_sms_demo_test_example api) \<Longrightarrow> event_ok api s e"
  by (auto simp: qosa_sms_demo_test_example_def test_pdu_def phone_number_size_def message_size_def
      QOSA_SMS_DEMO_SMS_MAX_LENGTH_def)

lemma all_ok_weaken:
  "(\<And>s e. e \<in> set es \<Longrightarrow> P s e \<Longrightarrow> Q s e) \<Longrightarrow> all_ok step P s es \<Longrightarrow> all_ok step Q s es"
  by (induction es arbitrary: s) (auto split: outcome.splits)

lemma script_runs_ok:
  assumes "calls_of_script api es" "all_ok (sms_step api) (platform_ok api) s es"
  shows "all_ok (sms_step api) (sms_ok api) s es"
proof (rule all_ok_weaken [OF _ assms(2)])
  fix t e
  assume e: "e \<in> set es" and ok: "platform_ok api t e"
  have "event_ok api t (snd e)" if "is_call (snd e)"
  proof -
    have "snd e \<in> set (filter is_call (map snd es))" using e that by auto
    then obtain n where "(n, snd e) \<in> set (qosa_sms_demo_test_example api)"
      using assms(1) unfolding calls_of_script_def by (metis in_set_takeD imageE set_map prod.collapse)
    then show ?thesis by (rule script_call_ok)
  qed
  with ok show "sms_ok api t e" by (auto simp: sms_ok_def platform_ok_def)
qed

text \<open>The test script is safe in every interleaving. However its calls mix with the
  application's task, the centre task and the modem, as long as the platform keeps its side, the
  application never reads an unterminated request, indexes a table out of range or touches a finished
  listing, its live blocks are the queued requests and the reports on their way, and when the script's
  last call has been served the queue is gone.\<close>

theorem test_script_is_safe:
  assumes "0 < slot_num api" "calls_of_script api es"
    and "all_ok (sms_step api) (platform_ok api) (quec_sms_demo_init api) es"
  shows "(\<exists>s out. run_loop (sms_step api) (quec_sms_demo_init api) es = Continue s out \<and>
      unat (sms_simid s) < slot_num api \<and>
      live s = length (reports s) + length (filter has_data (msgq s))) \<or>
    (\<exists>s out. run_loop (sms_step api) (quec_sms_demo_init api) es = Exit s out \<and> msgq s = [])"
  using sms_task.run_sound [OF init_inv [OF assms(1)] script_runs_ok [OF assms(2,3)]]
  by (cases rule: outcome_inv_cases) (auto simp: sms_inv_def cfg_inv_def owned_def sms_fin_def)

text \<open>The PDU of the script has the length the script gives: 25 bytes, of which the first, 8, counts
  the bytes of the service centre behind it.\<close>

lemma test_pdu_accepted:
  assumes "data_string_to_hex api test_pdu = Some d" "sca_part_len api d = 9" "alloc_ok env"
  shows "pdu_of_hex api env test_pdu 16 = Inr (take 25 d)"
proof -
  have "length test_pdu = 50" by (simp add: test_pdu_def)
  then show ?thesis using assms by (simp add: pdu_of_hex_def)
qed

text \<open>The whole script with the task served after every call, on SIM 0.\<close>

definition served :: "(nat \<times> sms_event) list \<Rightarrow> (sms_env \<times> sms_event) list" where
  "served script = concat (map (\<lambda>(n, e). [(ex_env, e), (ex_env, Run_task)]) script)"

theorem test_script_is_safe_witness:
  "(\<exists>s out. run_loop (sms_step ex_api) (quec_sms_demo_init ex_api) (served (qosa_sms_demo_test_example ex_api)) = Continue s out \<and>
      unat (sms_simid s) < 2 \<and> live s = length (reports s) + length (filter has_data (msgq s))) \<or>
   (\<exists>s out. run_loop (sms_step ex_api) (quec_sms_demo_init ex_api) (served (qosa_sms_demo_test_example ex_api)) = Exit s out \<and>
      msgq s = [])"
proof -
  let ?es = "served (qosa_sms_demo_test_example ex_api)"
  have script: "calls_of_script ex_api ?es"
    unfolding calls_of_script_def
    by (rule exI [of _ 8]) (simp add: served_def qosa_sms_demo_test_example_def)
  have "all_ok (sms_step ex_api) (\<lambda>s. \<lambda>e. env_fits (fst e) \<and> (is_call (snd e) \<or> snd e = Run_task)) (quec_sms_demo_init ex_api) ?es"
    by (rule all_ok_list_all) (simp add: served_def qosa_sms_demo_test_example_def ex_env_fits)
  then have ok: "all_ok (sms_step ex_api) (platform_ok ex_api) (quec_sms_demo_init ex_api) ?es"
    by (rule all_ok_weaken [rotated]) (auto simp: platform_ok_def)
  have pos: "0 < slot_num ex_api" by (simp add: ex_api_def)
  have "slot_num ex_api = 2" by (simp add: ex_api_def)
  then show ?thesis using test_script_is_safe [OF pos script ok] by metis
qed

end
