(* ===== verification/Socket_Api.thy ===== *)
theory Socket_Api
  imports UniRTOS_Prelude
begin

text \<open>
  The vocabulary of the platform interfaces the socket components call: \<^verbatim>\<open>qcm_socket_*\<close>,
  \<^verbatim>\<open>qosa_datacall_*\<close> and the event masks. The platform is not part of the repository, so nothing
  here computes: calls are recorded as data, and what a call answers is an argument of the
  definitions that make it.
\<close>

section \<open>Sockets\<close>

text \<open>\<^verbatim>\<open>qosa_ip_addr_t\<close> as the sources read it: \<^verbatim>\<open>ip_vsn\<close> selects the member of the union.\<close>

datatype qosa_ip_addr = Ipv4_addr "32 word" | Ipv6_addr "128 word"

text \<open>The single-bit event masks \<^verbatim>\<open>QCM_SOCK_*_EVENT\<close>; any other mask is \<open>SOCK_OTHER\<close>.\<close>

datatype sock_event =
  SOCK_ACCEPT | SOCK_CONNECT | SOCK_READ | SOCK_WRITE | SOCK_CLOSE | SOCK_OTHER

text \<open>\<^verbatim>\<open>void *\<close> arguments of callbacks: the sources pass a slot number or a context, cast.\<close>

datatype sock_call =
    Sock_create int int bool int bool    \<comment> \<open>simid, pdpid, IPv6?, local port, blocking?\<close>
  | Sock_register int "sock_event list" nat
  | Sock_listen int int
  | Sock_accept int
  | Sock_connect int qosa_ip_addr int
  | Sock_set_linger int int int
  | Sock_read int int
  | Sock_send int string int             \<comment> \<open>handle, the bytes at the pointer, the length argument\<close>
  | Sock_close int

section \<open>Data calls\<close>

datatype pdp_type = PDP_TYPE_IP | PDP_TYPE_IPV6

datatype datacall_call =
    Set_pdp_context int int string pdp_type
  | Conn_new int int
  | Get_ip_info
  | Datacall_start int
  | Sleep_sec int

datatype ip_type = IP_V4 | IP_V6 | IP_V4V6

text \<open>The answers of \<^verbatim>\<open>qosa_datacall_*\<close>: whether the first \<^verbatim>\<open>get_ip_info\<close> says
  \<^verbatim>\<open>QOSA_DATACALL_ERR_NO_ACTIVE\<close>, whether \<^verbatim>\<open>qosa_datacall_start\<close> says \<^verbatim>\<open>QOSA_DATACALL_OK\<close>, and the
  address family of the activated context.\<close>

record datacall_env =
  dc_no_active :: bool
  dc_start_ok :: bool
  dc_ip_type :: ip_type

end
