(* ===== verification/Tcp_Server.thy ===== *)
theory Tcp_Server
  imports Socket_Api
begin

text \<open>
  The non-blocking TCP echo server, \<^verbatim>\<open>network/network_protocol/socket/server/tcp_server.c\<close>.

  State: the client table \<open>g_server_ctx\<close> (\<open>socket_server_context\<close>), the task's message queue
  and the event indications allocated for it (\<open>server_sys\<close>). Operations: the slot search, the
  accept handler, the client handler with its read, write and close branches, the platform
  callback, start-up, one iteration of the task loop, and the clean-up. The answers of the
  platform for one handler call are a \<open>server_env\<close>; the calls made are returned in order.
\<close>

section \<open>Configuration and data\<close>

definition SOCKET_SERVER_LISTEN_PORT :: int where "SOCKET_SERVER_LISTEN_PORT = 12345"
definition SOCKET_SERVER_BACKLOG :: int where "SOCKET_SERVER_BACKLOG = 5"
definition SOCKET_SERVER_MAX_CLIENTS :: nat where "SOCKET_SERVER_MAX_CLIENTS = 10"
definition SOCKET_SERVER_BUFF_MAX_LEN :: int where "SOCKET_SERVER_BUFF_MAX_LEN = 1024"

record socket_client_info =
  socket_fd :: int
  remote_ip :: qosa_ip_addr
  remote_port :: int
  local_ip :: qosa_ip_addr
  local_port :: int
  active :: bool
  recv_count :: u32
  send_count :: u32
  send_buffer :: "string option"   \<comment> \<open>\<open>None\<close> is \<^verbatim>\<open>NULL\<close>; \<open>Some s\<close> an allocated buffer holding \<open>s\<close>\<close>
  send_buffer_len :: int
  send_offset :: int

record socket_server_context =
  listen_socket :: int
  clients :: "socket_client_info list"
  client_count :: int
  server_running :: bool

text \<open>Answers of the platform during one handler call.\<close>

record server_env =
  qosa_ok :: int
  wodblock :: int                    \<comment> \<open>\<^verbatim>\<open>QCM_SOCK_WODBLOCK\<close>\<close>
  broken :: int                      \<comment> \<open>\<^verbatim>\<open>QCM_SOCK_BROKEN\<close>\<close>
  sock_accept :: "int \<Rightarrow> int \<times> qosa_ip_addr \<times> int \<times> qosa_ip_addr \<times> int"
  sock_read :: "int \<Rightarrow> int \<Rightarrow> int \<times> string"
  sock_send :: "int \<Rightarrow> string \<Rightarrow> int \<Rightarrow> int"
  mem_alloc :: "int \<Rightarrow> bool"         \<comment> \<open>whether \<^verbatim>\<open>qosa_malloc\<close> of that size returns memory\<close>

text \<open>What the code relies on: the two codes are negative and different, a read returns at most
  what was asked for, a send consumes at most what was offered.\<close>

definition server_env_ok :: "server_env \<Rightarrow> bool" where
  [env_defs]: "server_env_ok env \<longleftrightarrow>
     wodblock env < 0 \<and> broken env < 0 \<and> wodblock env \<noteq> broken env \<and>
     (\<forall>fd n. 0 \<le> n \<longrightarrow> fst (sock_read env fd n) \<le> n) \<and>
     (\<forall>fd d n. 0 \<le> n \<longrightarrow> sock_send env fd d n \<le> n)"

section \<open>The client table\<close>

text \<open>\<^verbatim>\<open>qcm_socket_server_find_available_slot\<close>: the index of the first inactive slot, or -1.\<close>

fun find_slot_from :: "nat \<Rightarrow> socket_client_info list \<Rightarrow> int" where
  "find_slot_from i [] = -1"
| "find_slot_from i (c # cs) = (if \<not> active c then int i else find_slot_from (Suc i) cs)"

definition qcm_socket_server_find_available_slot :: "socket_server_context \<Rightarrow> int" where
  "qcm_socket_server_find_available_slot ctx = find_slot_from 0 (clients ctx)"

definition qcm_socket_server_on_accept ::
  "server_env \<Rightarrow> int \<Rightarrow> socket_server_context \<Rightarrow> socket_server_context \<times> sock_call list" where
  "qcm_socket_server_on_accept env code ctx =
     (if code \<noteq> qosa_ok env then (ctx, [])
      else
        let client_idx = qcm_socket_server_find_available_slot ctx in
        if client_idx < 0 then (ctx, [])
        else
          let (new_client_socket, raddr, rport, laddr, lport) =
                sock_accept env (listen_socket ctx) in
          if new_client_socket < 0 then (ctx, [Sock_accept (listen_socket ctx)])
          else
            (ctx\<lparr>clients := (clients ctx)[nat client_idx :=
                   \<lparr>socket_fd = new_client_socket, remote_ip = raddr, remote_port = rport,
                    local_ip = laddr, local_port = lport, active = True,
                    recv_count = 0, send_count = 0,
                    send_buffer = None, send_buffer_len = 0, send_offset = 0\<rparr>],
                 client_count := client_count ctx + 1\<rparr>,
             [Sock_accept (listen_socket ctx),
              Sock_register new_client_socket [SOCK_READ, SOCK_WRITE, SOCK_CLOSE]
                (nat client_idx)]))"

text \<open>Drop a client: the sequence repeated on a broken connection, a read or write error and a
  close event (\<^verbatim>\<open>active = FALSE\<close>, free the buffer, close the socket, decrement the count).\<close>

definition client_drop ::
  "socket_server_context \<Rightarrow> nat \<Rightarrow> int \<Rightarrow> socket_server_context \<times> sock_call list" where
  "client_drop ctx idx sock =
     (ctx\<lparr>clients := (clients ctx)[idx := (clients ctx ! idx)\<lparr>active := False, send_buffer := None\<rparr>],
          client_count := client_count ctx - 1\<rparr>,
      [Sock_close sock])"

text \<open>The reply text; \<^verbatim>\<open>%s\<close> stops at the first NUL of the receive buffer.\<close>

definition echo_text :: "string \<Rightarrow> string" where
  "echo_text buf = ''[Server Echo] Your message: '' @ c_str buf"

text \<open>The reply is formatted into its buffer and offered to the socket once; what the socket took
  is recorded in the length and the offset.\<close>

definition client_first_send ::
  "server_env \<Rightarrow> int \<Rightarrow> string \<Rightarrow> socket_client_info \<Rightarrow> socket_client_info \<times> sock_call list" where
  "client_first_send env sock text c =
     (let size = int (length text) + 1;
          buf = snprintf_buf (nat size) text;
          len = size - 1;
          c1 = c\<lparr>send_buffer := Some buf, send_buffer_len := len, send_offset := 0\<rparr>;
          send_len = sock_send env sock buf len
      in (if send_len = wodblock env then c1
          else if send_len > 0 then
            (if send_len = len then c1\<lparr>send_buffer_len := len - send_len, send_offset := 0\<rparr>
             else c1\<lparr>send_buffer_len := len - send_len, send_offset := 0 + send_len\<rparr>)
          else c1,
          [Sock_send sock buf len]))"

definition client_read_event ::
  "server_env \<Rightarrow> int \<Rightarrow> nat \<Rightarrow> socket_server_context \<Rightarrow> socket_server_context \<times> sock_call list" where
  "client_read_event env sock idx ctx =
     (let (ret, data) = sock_read env sock (SOCKET_SERVER_BUFF_MAX_LEN - 1);
          rd = Sock_read sock (SOCKET_SERVER_BUFF_MAX_LEN - 1);
          c = clients ctx ! idx
      in if ret > 0 then
           let text = echo_text (take (nat ret) data);
               c0 = c\<lparr>recv_count := recv_count c + 1,
                      send_buffer_len := int (length text) + 1\<rparr>
           in if \<not> mem_alloc env (int (length text) + 1) then
                (ctx\<lparr>clients := (clients ctx)[idx := c0\<lparr>send_buffer := None, active := False\<rparr>]\<rparr>,
                 [rd, Sock_close sock])
              else
                (let (c1, calls) = client_first_send env sock text c0
                 in (ctx\<lparr>clients := (clients ctx)[idx := c1]\<rparr>, rd # calls))
         else if ret = broken env then (let (ctx', calls) = client_drop ctx idx sock in (ctx', rd # calls))
         else if ret = wodblock env then (ctx, [rd])
         else (let (ctx', calls) = client_drop ctx idx sock in (ctx', rd # calls)))"

definition client_write_event ::
  "server_env \<Rightarrow> int \<Rightarrow> nat \<Rightarrow> socket_server_context \<Rightarrow> socket_server_context \<times> sock_call list" where
  "client_write_event env sock idx ctx =
     (let c = clients ctx ! idx in
      case send_buffer c of
        None \<Rightarrow> (ctx, [])
      | Some buf \<Rightarrow>
          if send_buffer_len c > 0 then
            let len = send_buffer_len c - send_offset c;
                data = take (nat len) (drop (nat (send_offset c)) buf);
                ret = sock_send env sock data len;
                call = Sock_send sock data len
            in if ret > 0 then
                 let c1 = c\<lparr>send_offset := send_offset c + ret, send_count := send_count c + 1\<rparr>;
                     c2 = (if send_offset c1 \<ge> send_buffer_len c1
                           then c1\<lparr>send_buffer := None, send_buffer_len := 0, send_offset := 0\<rparr>
                           else c1)
                 in (ctx\<lparr>clients := (clients ctx)[idx := c2]\<rparr>, [call])
               else if ret = wodblock env then (ctx, [call])
               else (let (ctx', calls) = client_drop ctx idx sock in (ctx', call # calls))
          else (ctx, []))"

text \<open>\<^verbatim>\<open>qcm_socket_server_on_client_event\<close>: \<^verbatim>\<open>&g_server_ctx.clients[client_idx]\<close> is an access of
  the table, so an index outside it has no meaning.\<close>

definition qcm_socket_server_on_client_event ::
  "server_env \<Rightarrow> int \<Rightarrow> sock_event \<Rightarrow> int \<Rightarrow> nat \<Rightarrow> socket_server_context \<Rightarrow>
   (socket_server_context \<times> sock_call list) c_result" where
  "qcm_socket_server_on_client_event env sock_hndl event code client_idx ctx =
     (if client_idx \<ge> length (clients ctx) then Inl Out_of_bounds
      else case event of
        SOCK_READ \<Rightarrow> Inr (client_read_event env sock_hndl client_idx ctx)
      | SOCK_WRITE \<Rightarrow> Inr (client_write_event env sock_hndl client_idx ctx)
      | SOCK_CLOSE \<Rightarrow> Inr (client_drop ctx client_idx sock_hndl)
      | _ \<Rightarrow> Inr (ctx, []))"

section \<open>Messages, start-up, loop and clean-up\<close>

record socket_app_event_ind =
  ind_sockfd :: int
  ind_event_mask :: sock_event
  ind_result_code :: int
  ind_argv :: nat

datatype server_msg =
    Noblock_event_ind socket_app_event_ind   \<comment> \<open>\<^verbatim>\<open>SOCKET_APP_NOBLOCK_MSG_EVENT_IND\<close>\<close>
  | Client_event_ind socket_app_event_ind    \<comment> \<open>\<^verbatim>\<open>SOCKET_APP_CLIENT_MSG_EVENT_IND\<close>\<close>

text \<open>The event indication a message carries.\<close>

primrec msg_ind :: "server_msg \<Rightarrow> socket_app_event_ind" where
  "msg_ind (Noblock_event_ind i) = i"
| "msg_ind (Client_event_ind i) = i"

text \<open>The task together with its queue: messages released and not yet taken, the number of
  indications allocated and not yet freed, and the callbacks registered (handle and argument).\<close>

record server_sys =
  srv :: socket_server_context
  msgq :: "server_msg list"
  ind_live :: nat
  regs :: "(int \<times> nat) list"

text \<open>\<^verbatim>\<open>socket_app_event_report\<close>: a failed \<^verbatim>\<open>qosa_msgq_release\<close> is logged only.\<close>

definition socket_app_event_report :: "bool \<Rightarrow> server_msg \<Rightarrow> server_sys \<Rightarrow> server_sys" where
  "socket_app_event_report release_ok m s = (if release_ok then s\<lparr>msgq := msgq s @ [m]\<rparr> else s)"

definition socket_app_register_event_cb ::
  "bool \<Rightarrow> bool \<Rightarrow> int \<Rightarrow> sock_event \<Rightarrow> int \<Rightarrow> nat \<Rightarrow> server_sys \<Rightarrow> server_sys" where
  "socket_app_register_event_cb alloc_ok release_ok socket_hd event_mask result argv s =
     (if \<not> alloc_ok then s
      else
        let ind = \<lparr>ind_sockfd = socket_hd, ind_event_mask = event_mask,
                   ind_result_code = result, ind_argv = argv\<rparr>;
            s1 = s\<lparr>ind_live := Suc (ind_live s)\<rparr>
        in if socket_hd = listen_socket (srv s)
           then socket_app_event_report release_ok (Noblock_event_ind ind) s1
           else socket_app_event_report release_ok (Client_event_ind ind) s1)"

definition qcm_socket_app_event_process ::
  "server_env \<Rightarrow> socket_app_event_ind \<Rightarrow> socket_server_context \<Rightarrow>
   socket_server_context \<times> sock_call list" where
  "qcm_socket_app_event_process env ind ctx =
     (case ind_event_mask ind of
        SOCK_ACCEPT \<Rightarrow> qcm_socket_server_on_accept env (ind_result_code ind) ctx
      | _ \<Rightarrow> (ctx, []))"

text \<open>The \<^verbatim>\<open>switch\<close> of the task loop.\<close>

definition server_dispatch ::
  "server_env \<Rightarrow> server_msg \<Rightarrow> socket_server_context \<Rightarrow>
   (socket_server_context \<times> sock_call list) c_result" where
  "server_dispatch env m ctx =
     (case m of
        Noblock_event_ind ind \<Rightarrow> Inr (qcm_socket_app_event_process env ind ctx)
      | Client_event_ind ind \<Rightarrow>
          qcm_socket_server_on_client_event env (ind_sockfd ind) (ind_event_mask ind)
            (ind_result_code ind) (ind_argv ind) ctx)"

text \<open>\<^verbatim>\<open>qcm_socket_register_event\<close> stores the argument for the handle's callbacks.\<close>

fun note_regs :: "sock_call list \<Rightarrow> (int \<times> nat) list \<Rightarrow> (int \<times> nat) list" where
  "note_regs [] rs = rs"
| "note_regs (Sock_register fd evs a # cs) rs = note_regs cs ((fd, a) # rs)"
| "note_regs (_ # cs) rs = note_regs cs rs"

text \<open>One iteration of the loop with a message waiting: dispatch it, then free its indication.\<close>

definition server_loop_iter ::
  "server_env \<Rightarrow> server_msg \<Rightarrow> server_sys \<Rightarrow> (server_sys \<times> sock_call list) c_result" where
  "server_loop_iter env m s =
     (case server_dispatch env m (srv s) of
        Inl u \<Rightarrow> Inl u
      | Inr (ctx', calls) \<Rightarrow>
          Inr (s\<lparr>srv := ctx', ind_live := ind_live s - 1, regs := note_regs calls (regs s)\<rparr>, calls))"

text \<open>The data call: set the context, and start it if it is not active.\<close>

definition qcm_socket_server_datacall_active :: "datacall_env \<Rightarrow> int \<times> datacall_call list" where
  "qcm_socket_server_datacall_active env =
     (let pre = [Set_pdp_context 0 1 ''CTNET'' PDP_TYPE_IPV6, Conn_new 0 1, Get_ip_info] in
      if dc_no_active env then
        (if \<not> dc_start_ok env then (-1, pre @ [Datacall_start 30])
         else (0, pre @ [Datacall_start 30, Get_ip_info]))
      else (0, pre))"

text \<open>\<^verbatim>\<open>qcm_socket_server_main\<close> up to its loop: \<open>None\<close> when the function returns early. The result of
  \<^verbatim>\<open>qcm_socket_register_event\<close> is overwritten by that of \<^verbatim>\<open>qcm_socket_listen\<close> before it is tested.\<close>

definition qcm_socket_server_start ::
  "datacall_env \<Rightarrow> int \<Rightarrow> int \<Rightarrow> socket_server_context \<Rightarrow>
   socket_server_context option \<times> sock_call list" where
  "qcm_socket_server_start dc create_ret listen_ret ctx =
     (if fst (qcm_socket_server_datacall_active dc) \<noteq> 0 then (None, [])
      else
        let create = Sock_create 0 1 True SOCKET_SERVER_LISTEN_PORT False;
            ctx1 = ctx\<lparr>listen_socket := create_ret\<rparr>
        in if create_ret < 0 then (None, [create])
           else if listen_ret < 0 then
             (None, [create, Sock_register create_ret [SOCK_ACCEPT] 0,
                     Sock_listen create_ret SOCKET_SERVER_BACKLOG, Sock_close create_ret])
           else
             (Some (ctx1\<lparr>clients := map (\<lambda>c. c\<lparr>active := False, socket_fd := -1, send_buffer := None\<rparr>)
                                      (clients ctx1),
                        server_running := True\<rparr>),
              [create, Sock_register create_ret [SOCK_ACCEPT] 0,
               Sock_listen create_ret SOCKET_SERVER_BACKLOG]))"

text \<open>After the loop: close every active client, then the listening socket.\<close>

fun close_clients :: "socket_client_info list \<Rightarrow> socket_client_info list \<times> sock_call list" where
  "close_clients [] = ([], [])"
| "close_clients (c # cs) =
     (let (cs', calls) = close_clients cs in
      if active c then (c\<lparr>send_buffer := None, active := False\<rparr> # cs', Sock_close (socket_fd c) # calls)
      else (c # cs', calls))"

definition qcm_socket_server_cleanup ::
  "socket_server_context \<Rightarrow> socket_server_context \<times> sock_call list" where
  "qcm_socket_server_cleanup ctx =
     (let (cs', calls) = close_clients (clients ctx) in
      (ctx\<lparr>clients := cs', listen_socket := -1\<rparr>, calls @ [Sock_close (listen_socket ctx)]))"

text \<open>The static initialiser of \<^verbatim>\<open>g_server_ctx\<close>; everything not named is zero.\<close>

definition zero_client :: socket_client_info where
  "zero_client = \<lparr>socket_fd = 0, remote_ip = Ipv4_addr 0, remote_port = 0, local_ip = Ipv4_addr 0,
     local_port = 0, active = False, recv_count = 0, send_count = 0, send_buffer = None,
     send_buffer_len = 0, send_offset = 0\<rparr>"

definition g_server_ctx :: socket_server_context where
  "g_server_ctx = \<lparr>listen_socket = -1, clients = replicate SOCKET_SERVER_MAX_CLIENTS zero_client,
     client_count = 0, server_running = False\<rparr>"

section \<open>Invariant, runs and reachable states\<close>

definition active_count :: "socket_server_context \<Rightarrow> nat" where
  "active_count ctx = length (filter active (clients ctx))"

text \<open>The count is the number of active slots, and an inactive slot owns no buffer.\<close>

definition server_inv :: "socket_server_context \<Rightarrow> bool" where
  "server_inv ctx \<longleftrightarrow>
     length (clients ctx) = SOCKET_SERVER_MAX_CLIENTS \<and>
     client_count ctx = int (active_count ctx) \<and>
     (\<forall>c \<in> set (clients ctx). \<not> active c \<longrightarrow> send_buffer c = None)"

fun server_step ::
  "socket_server_context \<Rightarrow> server_env \<times> server_msg \<Rightarrow> (socket_server_context, sock_call) outcome" where
  "server_step ctx (env, m) =
     (case server_dispatch env m ctx of
        Inl u \<Rightarrow> Undefined u
      | Inr (ctx', calls) \<Rightarrow> Continue ctx' calls)"

text \<open>A client event is timely when its slot is still in use, and the reply can be allocated.\<close>

fun server_ok :: "socket_server_context \<Rightarrow> server_env \<times> server_msg \<Rightarrow> bool" where
  "server_ok ctx (env, Noblock_event_ind ind) = True"
| "server_ok ctx (env, Client_event_ind ind) =
     (ind_argv ind < SOCKET_SERVER_MAX_CLIENTS \<and> active (clients ctx ! ind_argv ind) \<and>
      mem_alloc env = (\<lambda>n. True))"

text \<open>The whole task: the platform may call back for any registered handle at any time; the loop
  takes the oldest message.\<close>

inductive server_reach :: "server_sys \<Rightarrow> bool" where
  boot: "qcm_socket_server_start dc fd lr g_server_ctx = (Some ctx, calls) \<Longrightarrow>
     server_reach \<lparr>srv = ctx, msgq = [], ind_live = 0, regs = note_regs calls []\<rparr>"
| callback: "server_reach s \<Longrightarrow> (fd, a) \<in> set (regs s) \<Longrightarrow>
     server_reach (socket_app_register_event_cb alloc_ok release_ok fd ev code a s)"
| iter: "server_reach s \<Longrightarrow> msgq s = m # q \<Longrightarrow>
     server_loop_iter env m (s\<lparr>msgq := q\<rparr>) = Inr (s', calls) \<Longrightarrow> server_reach s'"

definition server_sys_inv :: "server_sys \<Rightarrow> bool" where
  "server_sys_inv s \<longleftrightarrow>
     length (clients (srv s)) = SOCKET_SERVER_MAX_CLIENTS \<and>
     (\<forall>r \<in> set (regs s). snd r < SOCKET_SERVER_MAX_CLIENTS) \<and>
     (\<forall>m \<in> set (msgq s). ind_argv (msg_ind m) < SOCKET_SERVER_MAX_CLIENTS) \<and>
     (\<forall>c \<in> set (clients (srv s)). active c \<longrightarrow> 0 \<le> socket_fd c) \<and>
     length (msgq s) \<le> ind_live s"

text \<open>The bytes a send call moved to the peer, and a sequence of write events on one slot.\<close>

fun delivered_by :: "server_env \<Rightarrow> sock_call \<Rightarrow> string" where
  "delivered_by env (Sock_send fd d n) = take (nat (sock_send env fd d n)) d"
| "delivered_by env _ = []"

fun run_writes ::
  "server_env list \<Rightarrow> int \<Rightarrow> nat \<Rightarrow> socket_server_context \<Rightarrow> socket_server_context \<times> string" where
  "run_writes [] sock idx ctx = (ctx, [])"
| "run_writes (env # envs) sock idx ctx =
     (let (ctx1, calls) = client_write_event env sock idx ctx;
          (ctx2, out) = run_writes envs sock idx ctx1
      in (ctx2, concat (map (delivered_by env) calls) @ out))"

text \<open>The socket accepts something or asks to wait, for every send: no send error.\<close>

definition send_flows :: "server_env \<Rightarrow> bool" where
  [env_defs]: "send_flows env \<longleftrightarrow>
     server_env_ok env \<and>
     (\<forall>fd d n. 0 < n \<longrightarrow> sock_send env fd d n > 0 \<or> sock_send env fd d n = wodblock env)"

text \<open>Every send of at least one byte moves at least one byte.\<close>

definition send_moves :: "server_env \<Rightarrow> bool" where
  [env_defs]: "send_moves env \<longleftrightarrow> (\<forall>fd d n. 0 < n \<longrightarrow> sock_send env fd d n > 0)"

lemmas server_handler_defs =
  client_drop_def client_first_send_def client_read_event_def client_write_event_def

section \<open>The slot search\<close>

lemma find_slot_from_none: "find_slot_from i cs < 0 \<longleftrightarrow> (\<forall>c \<in> set cs. active c)"
  by (induction i cs rule: find_slot_from.induct) auto

lemma find_slot_from_some:
  "0 \<le> find_slot_from i cs \<Longrightarrow>
   \<exists>k < length cs. find_slot_from i cs = int (i + k) \<and> \<not> active (cs ! k) \<and> (\<forall>j < k. active (cs ! j))"
proof (induction i cs rule: find_slot_from.induct)
  case (1 i)
  then show ?case by simp
next
  case (2 i c cs)
  show ?case
  proof (cases "active c")
    case False
    then show ?thesis by (intro exI [of _ 0]) simp
  next
    case True
    with "2" obtain k where "k < length cs" "find_slot_from (Suc i) cs = int (Suc i + k)"
      "\<not> active (cs ! k)" "\<forall>j < k. active (cs ! j)" by auto
    with True show ?thesis
      by (intro exI [of _ "Suc k"]) (auto simp: less_Suc_eq_0_disj)
  qed
qed

lemma find_slotE:
  assumes "0 \<le> qcm_socket_server_find_available_slot ctx"
  obtains k where "qcm_socket_server_find_available_slot ctx = int k" "k < length (clients ctx)"
    "\<not> active (clients ctx ! k)" "\<forall>j < k. active (clients ctx ! j)"
  using assms find_slot_from_some [of 0 "clients ctx"]
  unfolding qcm_socket_server_find_available_slot_def by auto

section \<open>Every handler keeps the invariant\<close>

lemma server_inv_update:
  assumes "server_inv ctx" and "i < length (clients ctx)"
    and "\<not> active c \<Longrightarrow> send_buffer c = None"
    and "n = client_count ctx - of_bool (active (clients ctx ! i)) + of_bool (active c)"
  shows "server_inv (ctx\<lparr>clients := (clients ctx)[i := c], client_count := n\<rparr>)"
proof -
  have "client_count ctx = int (length (filter active (clients ctx)))"
    using assms(1) by (simp add: server_inv_def active_count_def)
  then have "n = int (length (filter active ((clients ctx)[i := c])))"
    using count_list_update [OF assms(2), of active c] assms(4) by simp
  moreover have "\<forall>c' \<in> set ((clients ctx)[i := c]). \<not> active c' \<longrightarrow> send_buffer c' = None"
    using assms(1,3) by (intro list_all_update) (auto simp: server_inv_def)
  ultimately show ?thesis
    using assms(1) by (simp add: server_inv_def active_count_def)
qed

lemma server_inv_update_same:
  assumes "server_inv ctx" and "i < length (clients ctx)"
    and "active (clients ctx ! i)" and "active c"
  shows "server_inv (ctx\<lparr>clients := (clients ctx)[i := c]\<rparr>)"
  using server_inv_update [OF assms(1,2), of c "client_count ctx"] assms(3,4) by simp

lemma on_accept_inv:
  assumes "server_inv ctx"
  shows "server_inv (fst (qcm_socket_server_on_accept env code ctx))"
proof (cases "qcm_socket_server_find_available_slot ctx < 0")
  case True
  with assms show ?thesis by (simp add: qcm_socket_server_on_accept_def)
next
  case False
  then obtain k where "qcm_socket_server_find_available_slot ctx = int k"
    "k < length (clients ctx)" "\<not> active (clients ctx ! k)"
    using find_slotE [of ctx] by (metis linorder_not_less)
  with assms show ?thesis
    by (auto simp: qcm_socket_server_on_accept_def Let_def split: prod.split intro!: server_inv_update)
qed

lemma client_drop_inv:
  assumes "server_inv ctx" and "i < length (clients ctx)" and "active (clients ctx ! i)"
  shows "server_inv (fst (client_drop ctx i sock))"
  using assms by (auto simp: client_drop_def intro!: server_inv_update)

lemma client_first_send_active [simp]:
  "active (fst (client_first_send env sock text c)) = active c"
  by (simp add: client_first_send_def Let_def)

lemma client_read_event_inv:
  assumes "server_inv ctx" and "i < length (clients ctx)" and "active (clients ctx ! i)"
    and "mem_alloc env = (\<lambda>n. True)"
  shows "server_inv (fst (client_read_event env sock i ctx))"
proof (cases "fst (sock_read env sock (SOCKET_SERVER_BUFF_MAX_LEN - 1)) > 0")
  case True
  with assms show ?thesis
    by (auto simp: client_read_event_def Let_def case_prod_beta intro!: server_inv_update_same)
next
  case False
  with assms client_drop_inv [OF assms(1-3), of sock] show ?thesis
    by (auto simp: client_read_event_def Let_def case_prod_beta)
qed

lemma client_write_event_inv:
  assumes "server_inv ctx" and "i < length (clients ctx)" and "active (clients ctx ! i)"
  shows "server_inv (fst (client_write_event env sock i ctx))"
  using assms client_drop_inv [OF assms(1-3), of sock]
  by (auto simp: client_write_event_def Let_def split: prod.split option.split
      intro!: server_inv_update_same)

interpretation server_task: event_loop server_step server_inv server_inv server_ok
proof
  fix ctx :: socket_server_context and e :: "server_env \<times> server_msg"
  assume inv: "server_inv ctx" and ok: "server_ok ctx e"
  then have len: "length (clients ctx) = SOCKET_SERVER_MAX_CLIENTS"
    by (simp add: server_inv_def)
  obtain env m where e: "e = (env, m)" by force
  show "outcome_inv server_inv server_inv (server_step ctx e)"
  proof (cases m)
    case (Noblock_event_ind ind)
    with inv on_accept_inv [OF inv, of env "ind_result_code ind"] show ?thesis
      by (auto simp: e server_dispatch_def qcm_socket_app_event_process_def
          split: prod.split sock_event.split)
  next
    case (Client_event_ind ind)
    with inv ok len show ?thesis
      using client_read_event_inv [OF inv, of "ind_argv ind" env "ind_sockfd ind"]
        client_write_event_inv [OF inv, of "ind_argv ind" env "ind_sockfd ind"]
        client_drop_inv [OF inv, of "ind_argv ind" "ind_sockfd ind"]
      by (auto simp: e server_dispatch_def qcm_socket_server_on_client_event_def
          split: prod.split sock_event.split)
  qed
qed

section \<open>Reachable states\<close>

lemma note_regs_bound:
  "\<forall>fd evs a. Sock_register fd evs a \<in> set calls \<longrightarrow> a < n \<Longrightarrow> \<forall>r \<in> set rs. snd r < n \<Longrightarrow>
   \<forall>r \<in> set (note_regs calls rs). snd r < n"
  by (induction calls rs rule: note_regs.induct) auto

text \<open>The part of the system invariant that concerns the table alone.\<close>

definition table_inv :: "socket_server_context \<Rightarrow> bool" where
  "table_inv ctx \<longleftrightarrow> length (clients ctx) = SOCKET_SERVER_MAX_CLIENTS \<and>
     (\<forall>c \<in> set (clients ctx). active c \<longrightarrow> 0 \<le> socket_fd c)"

lemma table_inv_update:
  assumes "table_inv ctx" and "active c \<Longrightarrow> 0 \<le> socket_fd c"
  shows "table_inv (ctx\<lparr>clients := (clients ctx)[i := c]\<rparr>)"
proof -
  have "\<forall>c' \<in> set ((clients ctx)[i := c]). active c' \<longrightarrow> 0 \<le> socket_fd c'"
    using assms by (intro list_all_update) (simp_all add: table_inv_def)
  with assms(1) show ?thesis by (simp add: table_inv_def)
qed

lemma table_inv_count [simp]: "table_inv (ctx\<lparr>client_count := n\<rparr>) = table_inv ctx"
  by (simp add: table_inv_def)

lemma table_inv_nth: "table_inv ctx \<Longrightarrow> i < length (clients ctx) \<Longrightarrow> active (clients ctx ! i) \<Longrightarrow>
    0 \<le> socket_fd (clients ctx ! i)"
  by (simp add: table_inv_def)

lemma client_first_send_fd [simp]:
  "socket_fd (fst (client_first_send env sock text c)) = socket_fd c"
  by (simp add: client_first_send_def Let_def)

lemma client_drop_table: "table_inv ctx \<Longrightarrow> table_inv (fst (client_drop ctx i sock))"
  using table_inv_update [of ctx "(clients ctx ! i)\<lparr>active := False, send_buffer := None\<rparr>" i]
  by (simp add: client_drop_def)

lemma client_read_table:
  assumes "table_inv ctx" and "i < length (clients ctx)"
  shows "table_inv (fst (client_read_event env sock i ctx))"
proof -
  have "active (clients ctx ! i) \<Longrightarrow> 0 \<le> socket_fd (clients ctx ! i)"
    using assms by (rule table_inv_nth)
  with assms client_drop_table [OF assms(1), of i sock] show ?thesis
    by (auto simp: client_read_event_def Let_def case_prod_beta intro!: table_inv_update)
qed

lemma client_write_table:
  assumes "table_inv ctx" and "i < length (clients ctx)"
  shows "table_inv (fst (client_write_event env sock i ctx))"
proof -
  have "active (clients ctx ! i) \<Longrightarrow> 0 \<le> socket_fd (clients ctx ! i)"
    using assms by (rule table_inv_nth)
  with assms client_drop_table [OF assms(1), of i sock] show ?thesis
    by (auto simp: client_write_event_def Let_def case_prod_beta split: option.split
        intro!: table_inv_update)
qed

lemma on_accept_table:
  assumes "table_inv ctx"
  shows "table_inv (fst (qcm_socket_server_on_accept env code ctx))"
  using assms
  by (auto simp: qcm_socket_server_on_accept_def Let_def split: prod.split
      intro!: table_inv_update)

text \<open>Only the accept handler registers callbacks, always for a slot of the table.\<close>

lemma read_write_no_register:
  "Sock_register fd evs a \<notin> set (snd (client_read_event env sock i ctx))"
  "Sock_register fd evs a \<notin> set (snd (client_write_event env sock i ctx))"
  "Sock_register fd evs a \<notin> set (snd (client_drop ctx i sock))"
  by (auto simp: server_handler_defs Let_def case_prod_beta split: option.split)

lemma on_accept_register:
  assumes "Sock_register fd evs a \<in> set (snd (qcm_socket_server_on_accept env code ctx))"
  shows "a < length (clients ctx)"
proof -
  have "0 \<le> qcm_socket_server_find_available_slot ctx" 
    and a: "a = nat (qcm_socket_server_find_available_slot ctx)"
    using assms by (auto simp: qcm_socket_server_on_accept_def Let_def split: prod.splits if_splits)
  then show ?thesis by (metis find_slotE nat_int)
qed

lemma server_dispatch_cases:
  assumes "server_dispatch env m ctx = Inr (ctx', calls)"
  obtains "(ctx', calls) = qcm_socket_server_on_accept env (ind_result_code (msg_ind m)) ctx"
  | i sock where "i < length (clients ctx)" "(ctx', calls) = client_read_event env sock i ctx"
  | i sock where "i < length (clients ctx)" "(ctx', calls) = client_write_event env sock i ctx"
  | i sock where "i < length (clients ctx)" "(ctx', calls) = client_drop ctx i sock"
  | "ctx' = ctx" "calls = []"
proof (cases m)
  case (Noblock_event_ind ind)
  with assms that(1,5) show ?thesis
    by (cases "ind_event_mask ind") (simp_all add: server_dispatch_def qcm_socket_app_event_process_def)
next
  case (Client_event_ind ind)
  with assms have "ind_argv ind < length (clients ctx)"
    by (simp add: server_dispatch_def qcm_socket_server_on_client_event_def split: if_splits)
  with Client_event_ind assms that(2-5) show ?thesis
    by (cases "ind_event_mask ind")
      (simp_all add: server_dispatch_def qcm_socket_server_on_client_event_def, metis+)
qed

lemma server_dispatch_table:
  assumes "server_dispatch env m ctx = Inr (ctx', calls)" and "table_inv ctx"
  shows "table_inv ctx' \<and> (\<forall>fd evs a. Sock_register fd evs a \<in> set calls \<longrightarrow> a < SOCKET_SERVER_MAX_CLIENTS)"
  using assms(1)
proof (cases rule: server_dispatch_cases)
  case 1
  then have "ctx' = fst (qcm_socket_server_on_accept env (ind_result_code (msg_ind m)) ctx)"
    "calls = snd (qcm_socket_server_on_accept env (ind_result_code (msg_ind m)) ctx)"
    by (metis fst_conv, metis snd_conv)
  with assms(2) show ?thesis
    by (metis on_accept_table on_accept_register table_inv_def)
next
  case (2 i sock)
  then show ?thesis
    by (metis assms(2) client_read_table read_write_no_register(1) fst_conv snd_conv)
next
  case (3 i sock)
  then show ?thesis
    by (metis assms(2) client_write_table read_write_no_register(2) fst_conv snd_conv)
next
  case (4 i sock)
  then show ?thesis
    by (metis assms(2) client_drop_table read_write_no_register(3) fst_conv snd_conv)
qed (simp add: assms(2))

lemma server_sys_inv_iff:
  "server_sys_inv s \<longleftrightarrow> table_inv (srv s) \<and>
     (\<forall>r \<in> set (regs s). snd r < SOCKET_SERVER_MAX_CLIENTS) \<and>
     (\<forall>m \<in> set (msgq s). ind_argv (msg_ind m) < SOCKET_SERVER_MAX_CLIENTS) \<and>
     length (msgq s) \<le> ind_live s"
  by (auto simp: server_sys_inv_def table_inv_def)

lemma server_start_inv:
  assumes "qcm_socket_server_start dc fd lr g_server_ctx = (Some ctx, calls)"
  shows "server_sys_inv \<lparr>srv = ctx, msgq = [], ind_live = 0, regs = note_regs calls []\<rparr>"
  using assms
  by (auto simp: qcm_socket_server_start_def Let_def server_sys_inv_def g_server_ctx_def
      SOCKET_SERVER_MAX_CLIENTS_def split: if_splits)

lemma callback_inv:
  assumes "server_sys_inv s" and "(fd, a) \<in> set (regs s)"
  shows "server_sys_inv (socket_app_register_event_cb al rel fd ev code a s)"
  using assms
  by (auto simp: socket_app_register_event_cb_def socket_app_event_report_def Let_def
      server_sys_inv_def)

lemma iter_inv:
  assumes "server_sys_inv s" and "msgq s = m # q"
    and "server_loop_iter env m (s\<lparr>msgq := q\<rparr>) = Inr (s', calls)"
  shows "server_sys_inv s'"
proof -
  obtain ctx' where d: "server_dispatch env m (srv s) = Inr (ctx', calls)"
    and s': "s' = s\<lparr>msgq := q, srv := ctx', ind_live := ind_live s - 1, regs := note_regs calls (regs s)\<rparr>"
    using assms(3) by (auto simp: server_loop_iter_def split: sum.splits prod.splits)
  have "table_inv (srv s)" and regs: "\<forall>r \<in> set (regs s). snd r < SOCKET_SERVER_MAX_CLIENTS"
    using assms(1) by (simp_all add: server_sys_inv_iff)
  then have t: "table_inv ctx'"
    and r: "\<forall>fd evs a. Sock_register fd evs a \<in> set calls \<longrightarrow> a < SOCKET_SERVER_MAX_CLIENTS"
    using server_dispatch_table [OF d] by simp_all
  with assms(1,2) note_regs_bound [OF r regs] show ?thesis
    by (auto simp: server_sys_inv_iff s')
qed

lemma server_reach_inv: "server_reach s \<Longrightarrow> server_sys_inv s"
  by (induction rule: server_reach.induct) (blast intro: server_start_inv callback_inv iter_inv)+

section \<open>Retried sends\<close>

text \<open>A reply \<open>r\<close> is pending on a slot with its first \<open>k\<close> bytes delivered.\<close>

definition pending :: "nat \<Rightarrow> string \<Rightarrow> nat \<Rightarrow> socket_server_context \<Rightarrow> bool" where
  "pending idx r k ctx \<longleftrightarrow>
     idx < length (clients ctx) \<and> k < length r \<and>
     send_buffer (clients ctx ! idx) = Some r \<and>
     send_buffer_len (clients ctx ! idx) = int (length r) \<and>
     send_offset (clients ctx ! idx) = int k"

definition idle :: "nat \<Rightarrow> socket_server_context \<Rightarrow> bool" where
  "idle idx ctx \<longleftrightarrow> idx < length (clients ctx) \<and> send_buffer (clients ctx ! idx) = None"

lemma write_idle: "idle idx ctx \<Longrightarrow> client_write_event env sock idx ctx = (ctx, [])"
  by (simp add: client_write_event_def idle_def)

lemma run_writes_idle: "idle idx ctx \<Longrightarrow> run_writes envs sock idx ctx = (ctx, [])"
  by (induction envs) (simp_all add: write_idle)

lemma write_pending:
  fixes sock :: int
  assumes p: "pending idx r k ctx" and f: "send_flows env"
  defines "res \<equiv> client_write_event env sock idx ctx"
  obtains k' where "k \<le> k'" "k' \<le> length r"
    and "send_moves env \<longrightarrow> k < k'"
    and "concat (map (delivered_by env) (snd res)) = take (k' - k) (drop k r)"
    and "if k' = length r then idle idx (fst res) else pending idx r k' (fst res)"
proof -
  let ?d = "drop k r" and ?len = "int (length r) - int k"
  let ?n = "sock_send env sock ?d ?len"
  have n: "?n \<le> ?len" "?n > 0 \<or> ?n = wodblock env" "wodblock env < 0"
    using f p by (auto simp: send_flows_def server_env_ok_def pending_def)
  have call: "snd res = [Sock_send sock ?d ?len]"
    using p n unfolding res_def by (auto simp: pending_def client_write_event_def Let_def)
  show thesis
  proof (cases "?n > 0")
    case True
    then obtain j where j: "?n = int j" "0 < j" by (metis zero_less_imp_eq_int)
    show thesis
    proof (rule that [of "k + j"])
      show "concat (map (delivered_by env) (snd res)) = take (k + j - k) (drop k r)"
        using j by (simp add: call)
      show "if k + j = length r then idle idx (fst res) else pending idx r (k + j) (fst res)"
        using p n j unfolding res_def
        by (auto simp: pending_def idle_def client_write_event_def Let_def)
    qed (use n j p in \<open>auto simp: pending_def\<close>)
  next
    case False
    show thesis
    proof (rule that [of k])
      show "if k = length r then idle idx (fst res) else pending idx r k (fst res)"
        using p n False unfolding res_def
        by (auto simp: pending_def client_write_event_def Let_def)
      show "send_moves env \<longrightarrow> k < k"
        using False p by (force simp: send_moves_def pending_def)
    qed (use False n p in \<open>auto simp: pending_def call\<close>)
  qed
qed

lemma run_writes_pending:
  assumes "pending idx r k ctx" and "\<forall>env \<in> set envs. send_flows env"
  shows "\<exists>k' \<le> length r. k \<le> k' \<and> snd (run_writes envs sock idx ctx) = take (k' - k) (drop k r) \<and>
    (if k' = length r then idle idx (fst (run_writes envs sock idx ctx))
     else pending idx r k' (fst (run_writes envs sock idx ctx))) \<and>
    ((\<forall>env \<in> set envs. send_moves env) \<longrightarrow> min (length r) (k + length envs) \<le> k')"
  using assms
proof (induction envs arbitrary: k ctx)
  case Nil
  then show ?case by (intro exI [of _ k]) (auto simp: pending_def)
next
  case (Cons env envs)
  obtain ctx1 calls where step: "client_write_event env sock idx ctx = (ctx1, calls)" by force
  have flows: "send_flows env" using Cons.prems(2) by simp
  obtain k1 where k1: "k \<le> k1" "k1 \<le> length r"
    "send_moves env \<longrightarrow> k < k1"
    "concat (map (delivered_by env) calls) = take (k1 - k) (drop k r)"
    "if k1 = length r then idle idx ctx1 else pending idx r k1 ctx1"
    by (rule write_pending [OF Cons.prems(1) flows, of sock, unfolded step fst_conv snd_conv])
  show ?case
  proof (cases "k1 = length r")
    case True
    then show ?thesis
      using k1 step run_writes_idle [of idx ctx1 envs sock] by (intro exI [of _ k1]) auto
  next
    case False
    with k1(5) have pend: "pending idx r k1 ctx1" by simp
    have "\<forall>env \<in> set envs. send_flows env" using Cons.prems(2) by simp
    from Cons.IH [OF pend this] obtain k2 where k2: "k2 \<le> length r" "k1 \<le> k2"
      "snd (run_writes envs sock idx ctx1) = take (k2 - k1) (drop k1 r)"
      "if k2 = length r then idle idx (fst (run_writes envs sock idx ctx1))
       else pending idx r k2 (fst (run_writes envs sock idx ctx1))"
      "(\<forall>env \<in> set envs. send_moves env) \<longrightarrow> min (length r) (k1 + length envs) \<le> k2"
      by blast
    have "take (k1 - k) (drop k r) @ take (k2 - k1) (drop k1 r) = take (k2 - k) (drop k r)"
      using k1(1) k2(2) take_add [of "k1 - k" "k2 - k1" "drop k r"] by simp
    with k1 k2 step show ?thesis
      by (intro exI [of _ k2]) (auto simp: case_prod_beta)
  qed
qed

section \<open>Properties of the server\<close>

text \<open>A platform used by the examples below: every call succeeds, reads see a broken connection.\<close>

definition example_env :: server_env where
  "example_env = \<lparr>qosa_ok = 0, wodblock = -2, broken = -1,
     sock_accept = (\<lambda>_. (5, Ipv4_addr 1, 40000, Ipv4_addr 2, 12345)),
     sock_read = (\<lambda>_ _. (-1, [])), sock_send = (\<lambda>_ _ n. n), mem_alloc = (\<lambda>_. True)\<rparr>"

definition example_dc :: datacall_env where
  "example_dc = \<lparr>dc_no_active = True, dc_start_ok = True, dc_ip_type = IP_V6\<rparr>"

lemmas server_eval =
  example_env_def example_dc_def g_server_ctx_def zero_client_def SOCKET_SERVER_MAX_CLIENTS_def
  qcm_socket_server_start_def qcm_socket_server_datacall_active_def server_dispatch_def
  qcm_socket_app_event_process_def qcm_socket_server_on_accept_def
  qcm_socket_server_find_available_slot_def qcm_socket_server_on_client_event_def
  server_handler_defs server_loop_iter_def

text \<open>Concrete schedules: a callback of the platform, or one iteration of the loop.\<close>

datatype server_action = Cb int sock_event nat | Take

fun server_exec :: "server_env \<Rightarrow> server_action list \<Rightarrow> server_sys \<Rightarrow> server_sys option" where
  "server_exec env [] s = Some s"
| "server_exec env (Cb fd ev a # as) s =
     (if (fd, a) \<in> set (regs s)
      then server_exec env as (socket_app_register_event_cb True True fd ev (qosa_ok env) a s) else None)"
| "server_exec env (Take # as) s =
     (case msgq s of
        [] \<Rightarrow> None
      | m # q \<Rightarrow> (case server_loop_iter env m (s\<lparr>msgq := q\<rparr>) of
                   Inl u \<Rightarrow> None
                 | Inr (s', calls) \<Rightarrow> server_exec env as s'))"

definition example_boot :: server_sys where
  "example_boot = (case qcm_socket_server_start example_dc 3 0 g_server_ctx of
     (ctx, calls) \<Rightarrow> \<lparr>srv = the ctx, msgq = [], ind_live = 0, regs = note_regs calls []\<rparr>)"

lemma replicate_10: "replicate 10 x = [x, x, x, x, x, x, x, x, x, x]"
  by (simp add: numeral_eq_Suc)

lemmas server_exec_eval =
  replicate_10 example_boot_def server_eval socket_app_register_event_cb_def socket_app_event_report_def Let_def

lemma server_exec_reach: "server_exec env as s = Some s' \<Longrightarrow> server_reach s \<Longrightarrow> server_reach s'"
  by (induction env as s rule: server_exec.induct)
    (auto split: if_splits list.splits sum.splits intro: server_reach.callback,
     blast intro: server_reach.iter)

lemma example_boot_reach: "server_reach example_boot"
proof -
  obtain ctx calls where "qcm_socket_server_start example_dc 3 0 g_server_ctx = (Some ctx, calls)"
    by (simp add: server_eval)
  then show ?thesis
    using server_reach.boot by (simp add: example_boot_def)
qed

lemma server_start_establishes:
  assumes "qcm_socket_server_start dc fd lr g_server_ctx = (Some ctx, calls)"
  shows "server_inv ctx"
  using assms
  by (auto simp: qcm_socket_server_start_def Let_def g_server_ctx_def zero_client_def server_inv_def
      active_count_def SOCKET_SERVER_MAX_CLIENTS_def split: if_splits)

lemma server_run_continues:
  "outcome_inv P P (run_loop server_step ctx es) \<Longrightarrow> \<exists>ctx' out. run_loop server_step ctx es = Continue ctx' out \<and> P ctx'"
proof (induction es arbitrary: ctx)
  case (Cons e es)
  obtain env m where e: "e = (env, m)" by force
  with Cons show ?case
    by (fastforce split: sum.splits prod.splits)
qed simp


text \<open>In every reachable state of the task, whatever the platform answers and in whatever order
  its callbacks arrive, the handler of the oldest message has a defined result: the slot index
  a callback brings is always inside the client table.\<close>

theorem server_loop_defined:
  assumes "server_reach s" and "msgq s = m # q"
  shows "\<exists>s' calls. server_loop_iter env m (s\<lparr>msgq := q\<rparr>) = Inr (s', calls)"
proof -
  have "server_sys_inv s" using assms(1) by (rule server_reach_inv)
  with assms(2) have "ind_argv (msg_ind m) < length (clients (srv s))"
    by (simp add: server_sys_inv_def)
  then show ?thesis
    by (auto simp: server_loop_iter_def server_dispatch_def qcm_socket_server_on_client_event_def
        split: server_msg.splits sum.splits prod.splits sock_event.splits)
qed

text \<open>An accepted connection takes the first free slot: that slot becomes active with the new
  handle and empty buffers, its callback argument is the slot number, the count grows by one
  and every other slot is untouched.\<close>

theorem accept_takes_first_free_slot:
  assumes "\<exists>c \<in> set (clients ctx). \<not> active c"
    and "sock_accept env (listen_socket ctx) = (fd, raddr, rport, laddr, lport)" and "0 \<le> fd"
    and "qcm_socket_server_on_accept env (qosa_ok env) ctx = (ctx', calls)"
  shows "\<exists>k < length (clients ctx). \<not> active (clients ctx ! k) \<and> (\<forall>j < k. active (clients ctx ! j)) \<and>
    active (clients ctx' ! k) \<and> socket_fd (clients ctx' ! k) = fd \<and> send_buffer (clients ctx' ! k) = None \<and>
    (\<forall>j. j \<noteq> k \<longrightarrow> clients ctx' ! j = clients ctx ! j) \<and>
    client_count ctx' = client_count ctx + 1 \<and>
    Sock_register fd [SOCK_READ, SOCK_WRITE, SOCK_CLOSE] k \<in> set calls"
proof -
  have "0 \<le> qcm_socket_server_find_available_slot ctx"
    using assms(1) find_slot_from_none [of 0 "clients ctx"]
    by (auto simp: qcm_socket_server_find_available_slot_def)
  then obtain k where k: "qcm_socket_server_find_available_slot ctx = int k" "k < length (clients ctx)"
    "\<not> active (clients ctx ! k)" "\<forall>j < k. active (clients ctx ! j)"
    by (rule find_slotE)
  with assms show ?thesis
    by (intro exI [of _ k]) (auto simp: qcm_socket_server_on_accept_def Let_def)
qed

text \<open>With every slot in use an accept event changes nothing, and the pending connection is not
  accepted.\<close>

lemma accept_refuses_when_full:
  assumes "\<forall>c \<in> set (clients ctx). active c"
  shows "qcm_socket_server_on_accept env code ctx = (ctx, [])"
  using assms find_slot_from_none [of 0 "clients ctx"]
  by (simp add: qcm_socket_server_on_accept_def qcm_socket_server_find_available_slot_def Let_def)

text \<open>C28: a reply whose first send would block is delivered by the write events that follow: as long
  as no send fails, the bytes that reached the peer are a prefix of the reply in order, the
  buffer is freed exactly when all of it is delivered, and if every send moves something, as many
  write events as the reply has bytes deliver it whole.\<close>

theorem write_events_deliver_reply:
  assumes "pending idx r 0 ctx" and "\<forall>env \<in> set envs. send_flows env"
    and "run_writes envs sock idx ctx = (ctx', out)"
  shows "out = take (length out) r \<and> (idle idx ctx' \<longleftrightarrow> out = r) \<and>
    ((\<forall>env \<in> set envs. send_moves env) \<and> length r \<le> length envs \<longrightarrow> out = r)"
proof -
  obtain k where k: "k \<le> length r" "out = take k r"
    "if k = length r then idle idx ctx' else pending idx r k ctx'"
    "(\<forall>env \<in> set envs. send_moves env) \<longrightarrow> min (length r) (length envs) \<le> k"
    using run_writes_pending [OF assms(1,2), of sock, unfolded assms(3) fst_conv snd_conv
        drop_0 diff_zero add_0] by blast
  then have "k < length r \<Longrightarrow> \<not> idle idx ctx'"
    by (auto simp: pending_def idle_def)
  moreover have "length out = k" using k by simp
  ultimately show ?thesis using k by (cases "k = length r") auto
qed

text \<open>C40: when the socket takes only the first \<open>n\<close> bytes of a reply at once, the handler shortens
  the length and advances the offset by \<open>n\<close>; the next write event therefore offers \<open>n\<close> bytes too
  few (a negative length when more than half was taken), and the last \<open>n\<close> bytes are never sent.\<close>

theorem partial_first_send_loses_tail:
  assumes "idx < length (clients ctx)" and "0 < n" and "n < int (length text)"
    and "sock_send env sock text (int (length text)) = n" and "n \<noteq> wodblock env"
    and "clients ctx ! idx = fst (client_first_send env sock text c)"
  shows "\<exists>more. snd (client_write_event env' sock idx ctx) =
    Sock_send sock (take (nat (int (length text) - 2 * n)) (drop (nat n) text))
      (int (length text) - 2 * n) # more"
proof -
  let ?c = "clients ctx ! idx"
  have "send_buffer ?c = Some text" "send_buffer_len ?c = int (length text) - n" "send_offset ?c = n"
    using assms(2-6) by (auto simp: client_first_send_def Let_def)
  moreover have double: "int (length text) - n - n = int (length text) - 2 * n" by simp
  ultimately show ?thesis
    using assms by (auto simp: client_write_event_def client_drop_def Let_def)
qed

text \<open>\<^verbatim>\<open>client_count\<close> can become negative: a close event already queued when a read finds the
  connection broken drops the same client a second time.\<close>

theorem client_count_can_go_negative: "\<exists>s. server_reach s \<and> client_count (srv s) = -1"
proof -
  have "\<exists>s. server_exec example_env [Cb 3 SOCK_ACCEPT 0, Take, Cb 5 SOCK_READ 0, Cb 5 SOCK_CLOSE 0, Take, Take]
      example_boot = Some s \<and> client_count (srv s) = -1"
    by (simp add: server_exec_eval)
  then show ?thesis using server_exec_reach example_boot_reach by blast
qed

text \<open>A message read is answered in the same event.\<close>

lemma read_event_replies:
  assumes "idx < length (clients ctx)"
    and "sock_read env sock 1023 = (int (length m), m)" and "m \<noteq> []"
    and "mem_alloc env (int (length (echo_text m)) + 1)"
  shows "\<exists>ctx'. qcm_socket_server_on_client_event env sock SOCK_READ code idx ctx =
    Inr (ctx', [Sock_read sock 1023, Sock_send sock (echo_text m) (int (length (echo_text m)))])"
  using assms
  by (simp add: qcm_socket_server_on_client_event_def client_read_event_def client_first_send_def
      SOCKET_SERVER_BUFF_MAX_LEN_def Let_def nat_add_distrib)

text \<open>A message read from a client (cut at its first NUL) is answered with the echo text when the
  socket takes the reply at once: the reply is sent once and whole, the receive counter grows
  by one (modulo \<open>2 ^ 32\<close>), nothing stays pending and no other slot changes.\<close>

theorem read_event_echoes:
  assumes "idx < length (clients ctx)"
    and "sock_read env sock 1023 = (ret, data)" and "0 < ret"
    and "reply = ''[Server Echo] Your message: '' @ c_str (take (nat ret) data)"
    and "mem_alloc env (int (length reply) + 1)"
    and "sock_send env sock reply (int (length reply)) = int (length reply)" and "wodblock env < 0"
    and "qcm_socket_server_on_client_event env sock SOCK_READ code idx ctx = Inr (ctx', calls)"
  shows "calls = [Sock_read sock 1023, Sock_send sock reply (int (length reply))] \<and>
    recv_count (clients ctx' ! idx) = recv_count (clients ctx ! idx) + 1 \<and>
    send_buffer_len (clients ctx' ! idx) = 0 \<and>
    client_write_event env' sock idx ctx' = (ctx', []) \<and>
    (\<forall>j. j \<noteq> idx \<longrightarrow> clients ctx' ! j = clients ctx ! j)"
proof -
  have "snprintf_buf (Suc (length reply)) reply = reply" by simp
  moreover have "echo_text (take (nat ret) data) = reply"
    by (simp add: echo_text_def assms(4))
  moreover have "0 < int (length reply)" by (simp add: assms(4))
  ultimately show ?thesis
    using assms(1-3,5-8)
    by (auto simp: qcm_socket_server_on_client_event_def client_read_event_def client_first_send_def
        client_write_event_def SOCKET_SERVER_BUFF_MAX_LEN_def Let_def nat_add_distrib)
qed

lemma close_clients_spec:
  "close_clients cs = (cs', calls) \<Longrightarrow>
   length cs' = length cs \<and> (\<forall>c \<in> set cs'. \<not> active c) \<and>
   calls = map (\<lambda>c. Sock_close (socket_fd c)) (filter active cs)"
  by (induction cs arbitrary: cs' calls) (auto split: prod.splits if_splits)

text \<open>The clean-up after the loop closes every active client's socket once, in slot order, and
  then the listening socket; afterwards no slot is active.\<close>

theorem cleanup_closes_all_sockets:
  "snd (qcm_socket_server_cleanup ctx) =
     map (\<lambda>c. Sock_close (socket_fd c)) (filter active (clients ctx)) @ [Sock_close (listen_socket ctx)] \<and>
   active_count (fst (qcm_socket_server_cleanup ctx)) = 0 \<and>
   listen_socket (fst (qcm_socket_server_cleanup ctx)) = -1"
proof -
  obtain cs' calls where c: "close_clients (clients ctx) = (cs', calls)" by force
  from close_clients_spec [OF c] c show ?thesis
    by (simp add: qcm_socket_server_cleanup_def active_count_def)
qed

text \<open>A failed release leaves the indication allocated and out of every queue.\<close>

lemma callback_leaks_on_full_queue:
  "ind_live (socket_app_register_event_cb True False fd ev code a s) = Suc (ind_live s) \<and>
   msgq (socket_app_register_event_cb True False fd ev code a s) = msgq s"
  by (simp add: socket_app_register_event_cb_def socket_app_event_report_def Let_def)

section \<open>The properties at concrete inputs\<close>

abbreviation accept_msg :: server_msg where
  "accept_msg \<equiv> Noblock_event_ind \<lparr>ind_sockfd = 3, ind_event_mask = SOCK_ACCEPT, ind_result_code = 0, ind_argv = 0\<rparr>"

abbreviation close_msg :: server_msg where
  "close_msg \<equiv> Client_event_ind \<lparr>ind_sockfd = 5, ind_event_mask = SOCK_CLOSE, ind_result_code = 0, ind_argv = 0\<rparr>"

lemma example_start:
  "qcm_socket_server_start example_dc 3 0 g_server_ctx =
     (Some (srv example_boot), snd (qcm_socket_server_start example_dc 3 0 g_server_ctx))"
  by (simp add: example_boot_def server_eval Let_def)


theorem server_loop_defined_witness:
  "\<exists>s m q. server_reach s \<and> msgq s = m # q \<and>
     (\<exists>s' calls. server_loop_iter example_env m (s\<lparr>msgq := q\<rparr>) = Inr (s', calls))"
proof -
  obtain s where s: "server_exec example_env [Cb 3 SOCK_ACCEPT 0, Take, Cb 5 SOCK_READ 0] example_boot = Some s"
    "msgq s = [Client_event_ind \<lparr>ind_sockfd = 5, ind_event_mask = SOCK_READ, ind_result_code = 0, ind_argv = 0\<rparr>]"
    by (simp add: server_exec_eval)
  have "server_reach s" using s(1) example_boot_reach by (rule server_exec_reach)
  from server_loop_defined [OF this s(2), of example_env] this s(2) show ?thesis by blast
qed

theorem accept_takes_first_free_slot_witness:
  "\<exists>k < 10. Sock_register 5 [SOCK_READ, SOCK_WRITE, SOCK_CLOSE] k
     \<in> set (snd (qcm_socket_server_on_accept example_env (qosa_ok example_env) (srv example_boot)))"
proof -
  let ?ctx = "srv example_boot"
  have a: "\<exists>c \<in> set (clients ?ctx). \<not> active c" and l: "length (clients ?ctx) = 10"
    by (simp_all add: server_exec_eval)
  have b: "sock_accept example_env (listen_socket ?ctx) = (5, Ipv4_addr 1, 40000, Ipv4_addr 2, 12345)"
    by (simp add: example_env_def)
  from accept_takes_first_free_slot [OF a b, of "fst (qcm_socket_server_on_accept example_env (qosa_ok example_env) ?ctx)"
      "snd (qcm_socket_server_on_accept example_env (qosa_ok example_env) ?ctx)"] l
  show ?thesis by auto
qed

definition full_ctx :: socket_server_context where
  "full_ctx = \<lparr>listen_socket = 3, clients = replicate 10 (zero_client\<lparr>active := True\<rparr>), client_count = 10,
     server_running = True\<rparr>"

text \<open>A slot with a two-byte reply of which nothing is delivered yet.\<close>

definition pending_ctx :: socket_server_context where
  "pending_ctx = full_ctx\<lparr>clients := [zero_client\<lparr>active := True, send_buffer := Some ''ok'', send_buffer_len := 2\<rparr>]\<rparr>"

definition slow_env :: server_env where
  "slow_env = example_env\<lparr>sock_send := (\<lambda>_ _ n. min 1 n)\<rparr>"

theorem write_events_deliver_reply_witness:
  "snd (run_writes [slow_env, slow_env] 5 0 pending_ctx) = ''ok''"
proof -
  have p: "pending 0 ''ok'' 0 pending_ctx"
    by (simp add: pending_def pending_ctx_def zero_client_def)
  have f: "\<forall>env \<in> set [slow_env, slow_env]. send_flows env"
    by (simp add: send_flows_def server_env_ok_def slow_env_def example_env_def)
  have m: "\<forall>env \<in> set [slow_env, slow_env]. send_moves env"
    by (simp add: send_moves_def slow_env_def)
  from write_events_deliver_reply [OF p f, of 5] m show ?thesis by (metis length_Cons list.size(3) order_refl prod.collapse)
qed

text \<open>Three of four bytes taken at once: the retry is asked to send -2 bytes.\<close>

theorem partial_first_send_loses_tail_witness:
  "\<exists>more. snd (client_write_event example_env 5 0
       (full_ctx\<lparr>clients := [fst (client_first_send (example_env\<lparr>sock_send := (\<lambda>_ _ _. 3)\<rparr>) 5 ''pong'' zero_client)]\<rparr>)) =
     Sock_send 5 [] (-2) # more"
  using partial_first_send_loses_tail [of 0
      "full_ctx\<lparr>clients := [fst (client_first_send (example_env\<lparr>sock_send := (\<lambda>_ _ _. 3)\<rparr>) 5 ''pong'' zero_client)]\<rparr>"
      3 "''pong''" "example_env\<lparr>sock_send := (\<lambda>_ _ _. 3)\<rparr>" 5 zero_client]
  by (simp add: example_env_def)

theorem read_event_echoes_witness:
  "\<exists>ctx' calls. qcm_socket_server_on_client_event (example_env\<lparr>sock_read := (\<lambda>_ _. (2, ''hi''))\<rparr>) 5 SOCK_READ 0 0 full_ctx =
      Inr (ctx', calls) \<and> Sock_send 5 ''[Server Echo] Your message: hi'' 30 \<in> set calls"
proof -
  let ?env = "example_env\<lparr>sock_read := (\<lambda>_ _. (2, ''hi''))\<rparr>"
  obtain ctx' calls where r: "qcm_socket_server_on_client_event ?env 5 SOCK_READ 0 0 full_ctx = Inr (ctx', calls)"
    by (simp add: qcm_socket_server_on_client_event_def full_ctx_def) (metis surj_pair)
  have "calls = [Sock_read 5 1023, Sock_send 5 ''[Server Echo] Your message: hi'' 30]"
    using read_event_echoes [of 0 full_ctx ?env 5 2 "''hi''" "''[Server Echo] Your message: hi''" 0 ctx' calls ?env] r
    by (simp add: full_ctx_def example_env_def c_str_def)
  with r show ?thesis by simp
qed

end
