(* ===== verification/Tcp_Client.thy ===== *)
theory Tcp_Client
  imports Socket_Api
begin

text \<open>
  The non-blocking TCP client,
  \<^verbatim>\<open>network/network_protocol/socket/noblock_client/tcp_noblock_client.c\<close>.

  State: the context \<open>g_socket_context\<close> with its transfer session, the task's message queue and
  the indications allocated for it (\<open>client_sys\<close>). Operations: the watermark callbacks, watermark
  set-up and release, write, read and close, the event handlers, the socket creation loop over the
  resolved addresses, the start of the thread, its loop, and the entry points for other tasks.

  The watermark library (\<^verbatim>\<open>qosa_buffer_*\<close>) is not part of the repository: it is the argument
  \<open>api\<close>, and \<open>wm_ok\<close> states what the code relies on, over the bytes a block and a queue hold.
\<close>

section \<open>The watermark library as a parameter\<close>

text \<open>Callbacks an operation of the library fires, in order.\<close>

datatype wm_cb = Wm_low | Wm_high | Wm_nonempty

record ('w, 'b) wm_api =
  wm_init :: "int \<Rightarrow> 'w"                                \<comment> \<open>\<^verbatim>\<open>qosa_buffer_queue_init\<close>\<close>
  wm_is_empty :: "'w \<Rightarrow> bool"                           \<comment> \<open>\<^verbatim>\<open>qosa_buffer_is_wm_empty\<close>\<close>
  wm_empty_queue :: "'w \<Rightarrow> 'w"                          \<comment> \<open>\<^verbatim>\<open>qosa_buffer_empty_queue\<close>\<close>
  wm_cnt :: "'w \<Rightarrow> int"                                 \<comment> \<open>\<^verbatim>\<open>qosa_buffer_queue_cnt\<close>\<close>
  wm_dequeue :: "'w \<Rightarrow> 'b option \<times> 'w \<times> wm_cb list"
  wm_enqueue :: "'w \<Rightarrow> 'b \<Rightarrow> 'w \<times> wm_cb list"
  blk_length :: "'b option \<Rightarrow> int"                      \<comment> \<open>\<^verbatim>\<open>qosa_buffer_length_packet\<close>\<close>
  blk_pullup :: "'b \<Rightarrow> int \<Rightarrow> string \<times> 'b option"       \<comment> \<open>bytes copied out, what the pointer is left with\<close>
  blk_pushdown :: "'b option \<Rightarrow> string \<Rightarrow> 'b option"
  blk_pushdown_tail :: "'b option \<Rightarrow> string \<Rightarrow> 'b option"
  blk_new :: "'b option"                                 \<comment> \<open>\<^verbatim>\<open>qosa_buffer_new_block\<close>\<close>

definition blk_bytes :: "('b \<Rightarrow> string) \<Rightarrow> 'b option \<Rightarrow> string" where
  "blk_bytes absb p = (case p of None \<Rightarrow> [] | Some b \<Rightarrow> absb b)"

text \<open>What the code relies on: a queue is a sequence of blocks taken from its front, the counters
  count bytes, pulling up removes a prefix and gives back nothing of an exhausted block, pushing
  down prepends.\<close>

definition wm_ok :: "('w, 'b) wm_api \<Rightarrow> ('w \<Rightarrow> string list) \<Rightarrow> ('b \<Rightarrow> string) \<Rightarrow> bool" where
  [env_defs]: "wm_ok api absw absb \<longleftrightarrow>
     (\<forall>w. wm_cnt api w = int (length (concat (absw w)))) \<and>
     (\<forall>w w' cbs. wm_dequeue api w = (None, w', cbs) \<longrightarrow> absw w = [] \<and> absw w' = []) \<and>
     (\<forall>w w' b cbs. wm_dequeue api w = (Some b, w', cbs) \<longrightarrow> absw w = absb b # absw w') \<and>
     (\<forall>p. blk_length api p = int (length (blk_bytes absb p))) \<and>
     (\<forall>b n. 0 \<le> n \<longrightarrow> fst (blk_pullup api b n) = take (nat n) (absb b) \<and>
              blk_bytes absb (snd (blk_pullup api b n)) = drop (nat n) (absb b) \<and>
              (int (length (absb b)) \<le> n \<longrightarrow> snd (blk_pullup api b n) = None)) \<and>
     (\<forall>p d. blk_bytes absb (blk_pushdown api p d) = d @ blk_bytes absb p)"

section \<open>Configuration and data\<close>

definition SOCKET_NOBLOCK_CONNECT_SERVER_PORT :: int where "SOCKET_NOBLOCK_CONNECT_SERVER_PORT = 47008"
definition SOCKET_NOBLOCK_CONNECT_SERVER_NAME :: string where
  "SOCKET_NOBLOCK_CONNECT_SERVER_NAME = ''101.37.104.185''"
definition RECV_BUFF_MAX_LEN :: int where "RECV_BUFF_MAX_LEN = 1500"
definition SOCKET_APP_SINGLE_SEND_LEN :: int where "SOCKET_APP_SINGLE_SEND_LEN = 1500"
definition SOCKET_APP_WATERMARK_LIMIT :: int where "SOCKET_APP_WATERMARK_LIMIT = 10240"
definition SOCKET_APP_WATERMARK_LOW_LIMIT :: int where "SOCKET_APP_WATERMARK_LOW_LIMIT = 2048"
definition SOCKET_APP_WATERMARK_HIGH_LIMIT :: int where "SOCKET_APP_WATERMARK_HIGH_LIMIT = 8192"

text \<open>\<^verbatim>\<open>SOCKET_APP_CONNECT_STATE_CLOSED\<close> is the same value as \<^verbatim>\<open>..._IDLE\<close>.\<close>

datatype socket_app_conn_status =
    CONNECT_STATE_IDLE
  | CONNECT_STATE_INIT
  | CONNECT_STATE_CONNECTING
  | CONNECT_STATE_CONNECT
  | CONNECT_STATE_CLOSING

abbreviation CONNECT_STATE_CLOSED :: socket_app_conn_status where
  "CONNECT_STATE_CLOSED \<equiv> CONNECT_STATE_IDLE"

text \<open>The fields of \<^verbatim>\<open>qosa_buffer_watermark_t\<close> the source writes; \<open>q_ptr\<close> is the queue, if any.\<close>

record 'w watermark =
  q_ptr :: "'w option"
  low_watermark :: int
  high_watermark :: int

record ('w, 'b) socket_app_transfer_session =
  rx_tx_ready :: bool
  send_wm_high :: bool
  current_send_data_ptr :: "'b option"
  send_wm_ptr :: "'w watermark"
  recv_wm_high :: bool
  current_recv_data_ptr :: "'b option"
  recv_wm_ptr :: "'w watermark"

record ('w, 'b) socket_app_context =
  hostname :: string
  hostport :: int
  sockfd :: int
  connect_state :: socket_app_conn_status
  send_release_count :: int
  transfer_session :: "('w, 'b) socket_app_transfer_session"

record socket_app_event_ind =
  ind_sockfd :: int
  ind_event_mask :: sock_event
  ind_result_code :: int

text \<open>Messages; the argument of a close message is the context or \<^verbatim>\<open>NULL\<close>.\<close>

datatype client_msg =
    Msg_event_ind socket_app_event_ind
  | Msg_send_ind
  | Msg_close "unit option"

record ('w, 'b) client_sys =
  ctx :: "('w, 'b) socket_app_context"
  msgq :: "client_msg list"
  ind_live :: nat

text \<open>Answers of the platform during one handler call.\<close>

record client_env =
  sock_success :: int                  \<comment> \<open>\<^verbatim>\<open>QCM_SOCK_SUCCESS\<close>\<close>
  sock_send :: "int \<Rightarrow> string \<Rightarrow> int \<Rightarrow> int"
  sock_read :: "int \<Rightarrow> int \<Rightarrow> int \<times> string"
  mem_alloc :: "int \<Rightarrow> bool"
  release_ok :: bool                   \<comment> \<open>whether \<^verbatim>\<open>qosa_msgq_release\<close> accepts a message\<close>

definition client_env_ok :: "client_env \<Rightarrow> bool" where
  [env_defs]: "client_env_ok env \<longleftrightarrow> (\<forall>fd d n. 0 \<le> n \<longrightarrow> sock_send env fd d n \<le> n)"

section \<open>Reporting and watermark callbacks\<close>

definition socket_app_event_report ::
  "client_env \<Rightarrow> client_msg \<Rightarrow> ('w, 'b) client_sys \<Rightarrow> ('w, 'b) client_sys" where
  "socket_app_event_report env m s = (if release_ok env then s\<lparr>msgq := msgq s @ [m]\<rparr> else s)"

definition socket_app_register_event_cb ::
  "client_env \<Rightarrow> bool \<Rightarrow> int \<Rightarrow> sock_event \<Rightarrow> int \<Rightarrow> ('w, 'b) client_sys \<Rightarrow> ('w, 'b) client_sys" where
  "socket_app_register_event_cb env alloc_ok fd event_mask result s =
     (if \<not> alloc_ok then s
      else socket_app_event_report env
             (Msg_event_ind \<lparr>ind_sockfd = fd, ind_event_mask = event_mask, ind_result_code = result\<rparr>)
             (s\<lparr>ind_live := Suc (ind_live s)\<rparr>))"

definition upd_session ::
  "(('w, 'b) socket_app_transfer_session \<Rightarrow> ('w, 'b) socket_app_transfer_session) \<Rightarrow>
   ('w, 'b) client_sys \<Rightarrow> ('w, 'b) client_sys" where
  "upd_session f s = s\<lparr>ctx := (ctx s)\<lparr>transfer_session := f (transfer_session (ctx s))\<rparr>\<rparr>"

definition socket_app_tx_wm_low_level_cb :: "('w, 'b) client_sys \<Rightarrow> ('w, 'b) client_sys" where
  "socket_app_tx_wm_low_level_cb s = upd_session (send_wm_high_update (\<lambda>_. False)) s"

definition socket_app_tx_wm_high_level_cb :: "('w, 'b) client_sys \<Rightarrow> ('w, 'b) client_sys" where
  "socket_app_tx_wm_high_level_cb s = upd_session (send_wm_high_update (\<lambda>_. True)) s"

definition socket_app_tx_wm_non_empty_cb ::
  "client_env \<Rightarrow> ('w, 'b) client_sys \<Rightarrow> ('w, 'b) client_sys" where
  "socket_app_tx_wm_non_empty_cb env s =
     socket_app_event_report env Msg_send_ind
       (s\<lparr>ctx := (ctx s)\<lparr>send_release_count := send_release_count (ctx s) + 1\<rparr>\<rparr>)"

text \<open>The receive callbacks write the send flag, as the source does.\<close>

definition socket_app_rx_wm_low_level_cb :: "('w, 'b) client_sys \<Rightarrow> ('w, 'b) client_sys" where
  "socket_app_rx_wm_low_level_cb s = upd_session (send_wm_high_update (\<lambda>_. False)) s"

definition socket_app_rx_wm_high_level_cb :: "('w, 'b) client_sys \<Rightarrow> ('w, 'b) client_sys" where
  "socket_app_rx_wm_high_level_cb s = upd_session (send_wm_high_update (\<lambda>_. True)) s"

definition socket_app_rx_wm_non_empty_cb :: "('w, 'b) client_sys \<Rightarrow> ('w, 'b) client_sys" where
  "socket_app_rx_wm_non_empty_cb s = s"

text \<open>The callbacks as installed by \<open>socket_app_rx_tx_watermark_init\<close>.\<close>

fun tx_callback :: "client_env \<Rightarrow> wm_cb \<Rightarrow> ('w, 'b) client_sys \<Rightarrow> ('w, 'b) client_sys" where
  "tx_callback env Wm_low s = socket_app_tx_wm_low_level_cb s"
| "tx_callback env Wm_high s = socket_app_tx_wm_high_level_cb s"
| "tx_callback env Wm_nonempty s = socket_app_tx_wm_non_empty_cb env s"

fun rx_callback :: "wm_cb \<Rightarrow> ('w, 'b) client_sys \<Rightarrow> ('w, 'b) client_sys" where
  "rx_callback Wm_low s = socket_app_rx_wm_low_level_cb s"
| "rx_callback Wm_high s = socket_app_rx_wm_high_level_cb s"
| "rx_callback Wm_nonempty s = socket_app_rx_wm_non_empty_cb s"

section \<open>Watermark set-up and release\<close>

definition wm_prepared :: "('w, 'b) wm_api \<Rightarrow> 'w watermark" where
  "wm_prepared api =
     (let q = wm_init api SOCKET_APP_WATERMARK_LIMIT;
          q1 = (if \<not> wm_is_empty api q then wm_empty_queue api q else q)
      in \<lparr>q_ptr = Some q1, low_watermark = SOCKET_APP_WATERMARK_LOW_LIMIT,
          high_watermark = SOCKET_APP_WATERMARK_HIGH_LIMIT\<rparr>)"

definition socket_app_rx_tx_watermark_init ::
  "('w, 'b) wm_api \<Rightarrow> ('w, 'b) socket_app_context \<Rightarrow> ('w, 'b) socket_app_context" where
  "socket_app_rx_tx_watermark_init api c =
     c\<lparr>transfer_session :=
        \<lparr>rx_tx_ready = True, send_wm_high = False, current_send_data_ptr = None,
         send_wm_ptr = wm_prepared api, recv_wm_high = False, current_recv_data_ptr = None,
         recv_wm_ptr = wm_prepared api\<rparr>\<rparr>"

text \<open>Release: both queues are emptied and destroyed, the blocks in hand are freed.\<close>

definition socket_app_rx_tx_watermark_deinit ::
  "('w, 'b) socket_app_context \<Rightarrow> ('w, 'b) socket_app_context" where
  "socket_app_rx_tx_watermark_deinit c =
     (let t = transfer_session c in
      if \<not> rx_tx_ready t then c
      else c\<lparr>transfer_session :=
             t\<lparr>send_wm_ptr := (send_wm_ptr t)\<lparr>q_ptr := None\<rparr>, current_send_data_ptr := None,
               recv_wm_ptr := (recv_wm_ptr t)\<lparr>q_ptr := None\<rparr>, current_recv_data_ptr := None,
               rx_tx_ready := False\<rparr>\<rparr>)"

section \<open>Writing, reading, closing\<close>

text \<open>The \<^verbatim>\<open>while\<close> of \<^verbatim>\<open>qcm_socket_app_soc_write\<close>: take the block in hand, or the next of the queue,
  and pull bytes up until the buffer is full or nothing is left. Whether it ends depends on the
  library, so not ending is the value \<open>None\<close>.\<close>

definition next_block ::
  "('w, 'b) wm_api \<Rightarrow> 'b option \<Rightarrow> 'w \<Rightarrow> 'b option \<times> 'w \<times> wm_cb list" where
  "next_block api cur w = (case cur of Some b \<Rightarrow> (Some b, w, []) | None \<Rightarrow> wm_dequeue api w)"

partial_function (option) pull_loop ::
  "('w, 'b) wm_api \<Rightarrow> 'b option \<Rightarrow> 'w \<Rightarrow> int \<Rightarrow> string \<Rightarrow> wm_cb list \<Rightarrow>
   ('b option \<times> 'w \<times> string \<times> wm_cb list) option" where
  "pull_loop api cur w write_len buf cbs =
     (case next_block api cur w of
        (None, w', c) \<Rightarrow> Some (None, w', buf, cbs @ c)
      | (Some b, w', c) \<Rightarrow>
          (case blk_pullup api b write_len of
             (d, cur') \<Rightarrow>
               if write_len - int (length d) = 0 then Some (cur', w', buf @ d, cbs @ c)
               else pull_loop api cur' w' (write_len - int (length d)) (buf @ d) (cbs @ c)))"

text \<open>The result of the send decides what goes back to the block in hand and whether the task asks
  itself to go on sending.\<close>

definition after_send ::
  "('w, 'b) wm_api \<Rightarrow> 'b option \<Rightarrow> string \<Rightarrow> int \<Rightarrow> 'b option \<times> bool" where
  "after_send api cur buf send_ret =
     (if send_ret \<noteq> int (length buf) then
        (if send_ret < 0 then (blk_pushdown api cur buf, False)
         else (blk_pushdown api cur (drop (nat send_ret) buf), True))
      else (cur, True))"

definition soc_write_send ::
  "('w, 'b) wm_api \<Rightarrow> client_env \<Rightarrow> 'b option \<Rightarrow> string \<Rightarrow> ('w, 'b) client_sys \<Rightarrow>
   ('w, 'b) client_sys \<times> sock_call list" where
  "soc_write_send api env cur buf s =
     (let send_ret = sock_send env (sockfd (ctx s)) buf (int (length buf));
          (cur', send_continue) = after_send api cur buf send_ret;
          s1 = upd_session (current_send_data_ptr_update (\<lambda>_. cur')) s
      in (if send_continue \<and> send_release_count (ctx s1) < 3
          then socket_app_event_report env Msg_send_ind s1 else s1,
          [Sock_send (sockfd (ctx s)) buf (int (length buf))]))"

definition qcm_socket_app_soc_write ::
  "('w, 'b) wm_api \<Rightarrow> client_env \<Rightarrow> ('w, 'b) client_sys \<Rightarrow>
   (('w, 'b) client_sys \<times> sock_call list) option" where
  "qcm_socket_app_soc_write api env s =
     (let t = transfer_session (ctx s) in
      if \<not> rx_tx_ready t then Some (s, [])
      else if send_wm_high t then Some (s, [])
      else case q_ptr (send_wm_ptr t) of
        None \<Rightarrow> Some (s, [])
      | Some q \<Rightarrow>
          let write_len = min SOCKET_APP_SINGLE_SEND_LEN
                            (wm_cnt api q + blk_length api (current_send_data_ptr t)) in
          if write_len = 0 then Some (s, [])
          else if \<not> mem_alloc env write_len then Some (s, [])
          else case pull_loop api (current_send_data_ptr t) q write_len [] [] of
            None \<Rightarrow> None
          | Some (cur, q', buf, cbs) \<Rightarrow>
              let s1 = fold (tx_callback env) cbs
                         (upd_session (\<lambda>t. t\<lparr>current_send_data_ptr := cur,
                            send_wm_ptr := (send_wm_ptr t)\<lparr>q_ptr := Some q'\<rparr>\<rparr>) s) in
              if int (length buf) \<le> 0 then Some (s1, [])
              else Some (soc_write_send api env cur buf s1))"

definition qcm_socket_app_soc_close ::
  "client_env \<Rightarrow> ('w, 'b) client_sys \<Rightarrow> ('w, 'b) client_sys" where
  "qcm_socket_app_soc_close env s =
     socket_app_event_report env (Msg_close (Some ()))
       (s\<lparr>ctx := (ctx s)\<lparr>connect_state := CONNECT_STATE_CLOSING\<rparr>\<rparr>)"

definition qcm_socket_app_soc_read ::
  "('w, 'b) wm_api \<Rightarrow> client_env \<Rightarrow> ('w, 'b) client_sys \<Rightarrow> ('w, 'b) client_sys \<times> sock_call list" where
  "qcm_socket_app_soc_read api env s =
     (if connect_state (ctx s) \<noteq> CONNECT_STATE_CONNECT then (s, [])
      else if recv_wm_high (transfer_session (ctx s)) then (s, [])
      else
        let (ret, data) = sock_read env (sockfd (ctx s)) RECV_BUFF_MAX_LEN;
            call = Sock_read (sockfd (ctx s)) RECV_BUFF_MAX_LEN;
            item = (if ret > 0 then blk_pushdown_tail api None (take (nat ret) data) else None)
        in case (item, q_ptr (recv_wm_ptr (transfer_session (ctx s)))) of
             (Some b, Some q) \<Rightarrow>
               (let (q', cbs) = wm_enqueue api q b in
                (fold rx_callback cbs
                   (upd_session (\<lambda>t. t\<lparr>recv_wm_ptr := (recv_wm_ptr t)\<lparr>q_ptr := Some q'\<rparr>\<rparr>) s), [call]))
           | _ \<Rightarrow> (s, [call]))"

section \<open>Handlers, thread and entry points\<close>

definition qcm_socket_app_event_process ::
  "('w, 'b) wm_api \<Rightarrow> client_env \<Rightarrow> socket_app_event_ind \<Rightarrow> ('w, 'b) client_sys \<Rightarrow>
   (('w, 'b) client_sys \<times> sock_call list) option" where
  "qcm_socket_app_event_process api env ind s =
     map_option (\<lambda>(s', calls). (s'\<lparr>ind_live := ind_live s' - 1\<rparr>, calls))
       (case ind_event_mask ind of
          SOCK_CONNECT \<Rightarrow>
            Some (if ind_result_code ind = sock_success env
                  then s\<lparr>ctx := (ctx s)\<lparr>connect_state := CONNECT_STATE_CONNECT\<rparr>\<rparr> else s, [])
        | SOCK_READ \<Rightarrow> Some (qcm_socket_app_soc_read api env s)
        | SOCK_WRITE \<Rightarrow> qcm_socket_app_soc_write api env s
        | SOCK_CLOSE \<Rightarrow> Some (qcm_socket_app_soc_close env s, [])
        | _ \<Rightarrow> Some (s, []))"

definition qcm_socket_app_send_process ::
  "('w, 'b) wm_api \<Rightarrow> client_env \<Rightarrow> ('w, 'b) client_sys \<Rightarrow>
   (('w, 'b) client_sys \<times> sock_call list) option" where
  "qcm_socket_app_send_process api env s =
     qcm_socket_app_soc_write api env
       (s\<lparr>ctx := (ctx s)\<lparr>send_release_count := send_release_count (ctx s) - 1\<rparr>\<rparr>)"

text \<open>The context is read through the message's argument, so \<^verbatim>\<open>NULL\<close> has no meaning.\<close>

definition qcm_socket_app_close_process ::
  "unit option \<Rightarrow> ('w, 'b) client_sys \<Rightarrow> (('w, 'b) client_sys \<times> sock_call list) c_result" where
  "qcm_socket_app_close_process argv s =
     (case argv of
        None \<Rightarrow> Inl Null_dereference
      | Some _ \<Rightarrow>
          if connect_state (ctx s) = CONNECT_STATE_IDLE then Inr (s, [])
          else Inr (s\<lparr>ctx := (ctx s)\<lparr>sockfd := -1, connect_state := CONNECT_STATE_CLOSED\<rparr>\<rparr>,
                    [Sock_set_linger (sockfd (ctx s)) 1 0, Sock_close (sockfd (ctx s))]))"

text \<open>One iteration of \<^verbatim>\<open>qcm_socket_app_demo_thread\<close>; a close message leaves the loop, and the
  watermarks are released behind it.\<close>

fun client_step ::
  "('w, 'b) wm_api \<Rightarrow> ('w, 'b) client_sys \<Rightarrow> client_env \<times> client_msg \<Rightarrow>
   (('w, 'b) client_sys, sock_call) outcome" where
  "client_step api s (env, Msg_event_ind ind) =
     (case qcm_socket_app_event_process api env ind s of
        None \<Rightarrow> Diverged | Some (s', calls) \<Rightarrow> Continue s' calls)"
| "client_step api s (env, Msg_send_ind) =
     (case qcm_socket_app_send_process api env s of
        None \<Rightarrow> Diverged | Some (s', calls) \<Rightarrow> Continue s' calls)"
| "client_step api s (env, Msg_close argv) =
     (case qcm_socket_app_close_process argv s of
        Inl u \<Rightarrow> Undefined u
      | Inr (s', calls) \<Rightarrow>
          Exit (s'\<lparr>ctx := socket_app_rx_tx_watermark_deinit (ctx s')\<rparr>) calls)"

definition qcm_socket_app_datacall_active :: "datacall_env \<Rightarrow> int \<times> datacall_call list" where
  "qcm_socket_app_datacall_active env =
     (let pre = [Set_pdp_context 0 1 ''CTNET'' PDP_TYPE_IP, Conn_new 0 1, Get_ip_info] in
      if dc_no_active env then
        (if \<not> dc_start_ok env then (-1, pre @ [Datacall_start 30])
         else (0, pre @ [Datacall_start 30, Get_ip_info] @
                 (if dc_ip_type env = IP_V6 then [Sleep_sec 10] else [])))
      else (0, pre))"

text \<open>The loop over the resolved addresses: \<open>create\<close> and \<open>connect\<close> answer for the \<open>i\<close>-th address.\<close>

fun create_loop ::
  "(nat \<Rightarrow> int) \<Rightarrow> (nat \<Rightarrow> int) \<Rightarrow> int \<Rightarrow> int \<Rightarrow> nat \<Rightarrow> qosa_ip_addr list \<Rightarrow> int \<times> sock_call list" where
  "create_loop create connect wodblock port i [] = (-1, [])"
| "create_loop create connect wodblock port i (a # as) =
     (let fd = create i in
      if fd < 0 then (-1, [Sock_create 0 1 False 0 False])
      else
        let try = [Sock_create 0 1 False 0 False,
                   Sock_register fd [SOCK_WRITE, SOCK_READ, SOCK_CLOSE, SOCK_CONNECT] 0,
                   Sock_connect fd a port]
        in if connect i = 0 \<or> connect i = wodblock then (fd, try)
           else (let (r, calls) = create_loop create connect wodblock port (Suc i) as
                 in (r, try @ Sock_close fd # calls)))"

text \<open>\<^verbatim>\<open>qcm_socket_app_socket_create\<close>; \<open>dns\<close> is the list the resolver returns, \<open>None\<close> its failure.\<close>

definition qcm_socket_app_socket_create ::
  "datacall_env \<Rightarrow> qosa_ip_addr list option \<Rightarrow> (nat \<Rightarrow> int) \<Rightarrow> (nat \<Rightarrow> int) \<Rightarrow> int \<Rightarrow>
   ('w, 'b) socket_app_context \<Rightarrow> int \<times> sock_call list" where
  "qcm_socket_app_socket_create dc dns create connect wodblock c =
     (if fst (qcm_socket_app_datacall_active dc) \<noteq> 0 then (-1, [])
      else case dns of
        None \<Rightarrow> (-1, [])
      | Some addrs \<Rightarrow> create_loop create connect wodblock (hostport c) 0 addrs)"

text \<open>The zeroed context; the watermark structures hold no queue.\<close>

definition zero_context :: "('w, 'b) socket_app_context" where
  "zero_context =
     \<lparr>hostname = [], hostport = 0, sockfd = 0, connect_state = CONNECT_STATE_IDLE,
      send_release_count = 0,
      transfer_session = \<lparr>rx_tx_ready = False, send_wm_high = False, current_send_data_ptr = None,
        send_wm_ptr = \<lparr>q_ptr = None, low_watermark = 0, high_watermark = 0\<rparr>, recv_wm_high = False,
        current_recv_data_ptr = None, recv_wm_ptr = \<lparr>q_ptr = None, low_watermark = 0, high_watermark = 0\<rparr>\<rparr>\<rparr>"

text \<open>\<^verbatim>\<open>qcm_socket_app_demo_thread\<close> up to its loop; \<open>None\<close> when it returns early. The state set to INIT
  first is wiped by the \<^verbatim>\<open>memset\<close> of the context.\<close>

definition qcm_socket_app_demo_start ::
  "('w, 'b) wm_api \<Rightarrow> datacall_env \<Rightarrow> qosa_ip_addr list option \<Rightarrow> (nat \<Rightarrow> int) \<Rightarrow> (nat \<Rightarrow> int) \<Rightarrow> int \<Rightarrow>
   ('w, 'b) socket_app_context option \<times> sock_call list" where
  "qcm_socket_app_demo_start api dc dns create connect wodblock =
     (let c = zero_context\<lparr>hostname := SOCKET_NOBLOCK_CONNECT_SERVER_NAME,
                           hostport := SOCKET_NOBLOCK_CONNECT_SERVER_PORT\<rparr>;
          (fd, calls) = qcm_socket_app_socket_create dc dns create connect wodblock c
      in if fd < 0 then (None, calls)
         else (Some (socket_app_rx_tx_watermark_init api
                       (c\<lparr>connect_state := CONNECT_STATE_CONNECTING, sockfd := fd\<rparr>)), calls))"

text \<open>Entry points of other tasks: queue data for sending, and ask for the close.\<close>

definition qcm_socket_app_send_data ::
  "('w, 'b) wm_api \<Rightarrow> client_env \<Rightarrow> string \<Rightarrow> ('w, 'b) client_sys \<Rightarrow> ('w, 'b) client_sys" where
  "qcm_socket_app_send_data api env data s =
     (case blk_new api of
        None \<Rightarrow> s
      | Some b0 \<Rightarrow>
          (case (blk_pushdown_tail api (Some b0) data, q_ptr (send_wm_ptr (transfer_session (ctx s)))) of
             (Some b, Some q) \<Rightarrow>
               (let (q', cbs) = wm_enqueue api q b in
                fold (tx_callback env) cbs
                  (upd_session (\<lambda>t. t\<lparr>send_wm_ptr := (send_wm_ptr t)\<lparr>q_ptr := Some q'\<rparr>\<rparr>) s))
           | _ \<Rightarrow> s))"

definition qcm_socket_app_close :: "client_env \<Rightarrow> ('w, 'b) client_sys \<Rightarrow> ('w, 'b) client_sys" where
  "qcm_socket_app_close env s = socket_app_event_report env (Msg_close None) s"

section \<open>Invariant and abstraction\<close>

text \<open>The bytes queued for sending, oldest first: the block in hand, then the queue.\<close>

definition unsent :: "('w \<Rightarrow> string list) \<Rightarrow> ('b \<Rightarrow> string) \<Rightarrow> ('w, 'b) client_sys \<Rightarrow> string" where
  "unsent absw absb s =
     (let t = transfer_session (ctx s) in
      blk_bytes absb (current_send_data_ptr t) @
      (case q_ptr (send_wm_ptr t) of None \<Rightarrow> [] | Some q \<Rightarrow> concat (absw q)))"

text \<open>The bytes a call moved to the peer.\<close>

fun sent_by :: "client_env \<Rightarrow> sock_call \<Rightarrow> string" where
  "sent_by env (Sock_send fd d n) = take (nat (sock_send env fd d n)) d"
| "sent_by env _ = []"

text \<open>While the loop runs the client is not idle and owns a socket, its watermarks are ready, and the
  receive side never reports high water. Behind the loop everything is released.\<close>

definition client_inv :: "('w, 'b) client_sys \<Rightarrow> bool" where
  "client_inv s \<longleftrightarrow>
     connect_state (ctx s) \<noteq> CONNECT_STATE_IDLE \<and> 0 \<le> sockfd (ctx s) \<and>
     rx_tx_ready (transfer_session (ctx s)) \<and> \<not> recv_wm_high (transfer_session (ctx s))"

definition client_fin :: "('w, 'b) client_sys \<Rightarrow> bool" where
  "client_fin s \<longleftrightarrow>
     connect_state (ctx s) = CONNECT_STATE_CLOSED \<and> sockfd (ctx s) = -1 \<and>
     (let t = transfer_session (ctx s) in
      \<not> rx_tx_ready t \<and> q_ptr (send_wm_ptr t) = None \<and> q_ptr (recv_wm_ptr t) = None \<and>
      current_send_data_ptr t = None \<and> current_recv_data_ptr t = None)"

text \<open>Acceptable messages: close requests carry the context, and the library keeps its contract.\<close>

definition client_ok ::
  "('w, 'b) wm_api \<Rightarrow> ('w, 'b) client_sys \<Rightarrow> client_env \<times> client_msg \<Rightarrow> bool" where
  "client_ok api s e \<longleftrightarrow> snd e \<noteq> Msg_close None \<and> (\<exists>absw absb. wm_ok api absw absb)"

text \<open>The session can send: it is set up, below high water, and has its queue.\<close>

definition writable :: "('w, 'b) client_sys \<Rightarrow> bool" where
  "writable s \<longleftrightarrow> (let t = transfer_session (ctx s) in
     rx_tx_ready t \<and> \<not> send_wm_high t \<and> q_ptr (send_wm_ptr t) \<noteq> None)"

section \<open>The pull-up loop\<close>

lemma blk_bytes_simps [simp]: "blk_bytes absb None = []" "blk_bytes absb (Some b) = absb b"
  by (simp_all add: blk_bytes_def)

lemma next_block_None:
  assumes "wm_ok api absw absb" and "next_block api cur w = (None, w', c)"
  shows "cur = None \<and> absw w = [] \<and> absw w' = []"
  using assms by (auto simp: next_block_def wm_ok_def split: option.splits)

lemma next_block_Some:
  assumes "wm_ok api absw absb" and "next_block api cur w = (Some b, w', c)"
  shows "blk_bytes absb cur @ concat (absw w) = absb b @ concat (absw w')"
    and "length (absw w') < length (absw w) + of_bool (cur \<noteq> None)"
  using assms by (auto simp: next_block_def wm_ok_def split: option.splits)

lemma wm_ok_pullup:
  assumes "wm_ok api absw absb" and "0 \<le> n"
  shows "fst (blk_pullup api b n) = take (nat n) (absb b)"
    and "blk_bytes absb (snd (blk_pullup api b n)) = drop (nat n) (absb b)"
    and "int (length (absb b)) \<le> n \<longrightarrow> snd (blk_pullup api b n) = None"
  using assms by (simp_all add: wm_ok_def)

lemma pullup_spec:
  assumes "wm_ok api absw absb" and "0 \<le> n" and "blk_pullup api b n = (d, cur')"
  shows "d = take (nat n) (absb b)" and "d @ blk_bytes absb cur' = absb b"
    and "n - int (length d) \<noteq> 0 \<Longrightarrow> cur' = None"
proof -
  have *: "d = take (nat n) (absb b)" "blk_bytes absb cur' = drop (nat n) (absb b)"
    "int (length (absb b)) \<le> n \<longrightarrow> cur' = None"
    using wm_ok_pullup [OF assms(1,2), of b] assms(3) by simp_all
  then show "d = take (nat n) (absb b)" "d @ blk_bytes absb cur' = absb b" by simp_all
  show "cur' = None" if "n - int (length d) \<noteq> 0"
    using * that assms(2) by auto
qed

text \<open>The loop ends, splits the queued bytes into what it copied and what it left, and copies as much
  as the buffer takes.\<close>

lemma pull_loop_splits:
  assumes ok: "wm_ok api absw absb" and "0 < n"
  shows "\<exists>cur' w' d c. pull_loop api cur w n buf cbs = Some (cur', w', buf @ d, c) \<and>
    d @ blk_bytes absb cur' @ concat (absw w') = blk_bytes absb cur @ concat (absw w) \<and>
    length d = min (nat n) (length (blk_bytes absb cur @ concat (absw w)))"
  using assms(2)
proof (induction "length (absw w) + of_bool (cur \<noteq> None)" arbitrary: cur w n buf cbs rule: less_induct)
  case less
  obtain bo w1 c1 where nb: "next_block api cur w = (bo, w1, c1)" by (metis prod_cases3)
  show ?case
  proof (cases bo)
    case None
    with nb next_block_None [OF ok, of cur w w1 c1] show ?thesis
      by (subst pull_loop.simps) simp
  next
    case (Some b)
    note q = next_block_Some [OF ok nb [unfolded Some]]
    obtain d1 cur1 where pu: "blk_pullup api b n = (d1, cur1)" by force
    note p = pullup_spec [OF ok _ pu]
    show ?thesis
    proof (cases "n - int (length d1) = 0")
      case True
      have "d1 @ blk_bytes absb cur1 @ concat (absw w1) = blk_bytes absb cur @ concat (absw w)"
        using p(2) q(1) less.prems by (metis append.assoc less_imp_le)
      moreover from this have "length d1 = min (nat n) (length (blk_bytes absb cur @ concat (absw w)))"
        using True by (metis eq_iff_diff_eq_0 length_append min.absorb1 le_add1 nat_int)
      moreover have "pull_loop api cur w n buf cbs = Some (cur1, w1, buf @ d1, cbs @ c1)"
        using nb Some pu True by (subst pull_loop.simps) simp
      ultimately show ?thesis by blast
    next
      case False
      then have c1n: "cur1 = None" using p(3) less.prems by simp
      have d1: "d1 = absb b" using p(2) c1n less.prems by simp
      have pos: "0 < n - int (length d1)"
        using False p(1) less.prems by auto
      have "length (absw w1) + of_bool (cur1 \<noteq> None) < length (absw w) + of_bool (cur \<noteq> None)"
        using q(2) c1n by simp
      from less.hyps [OF this pos, of "buf @ d1" "cbs @ c1"] c1n
      obtain cur2 w2 d2 c2 where r:
        "pull_loop api cur1 w1 (n - int (length d1)) (buf @ d1) (cbs @ c1) = Some (cur2, w2, (buf @ d1) @ d2, c2)"
        "d2 @ blk_bytes absb cur2 @ concat (absw w2) = concat (absw w1)"
        "length d2 = min (nat (n - int (length d1))) (length (concat (absw w1)))"
        by auto
      have "pull_loop api cur w n buf cbs = Some (cur2, w2, buf @ (d1 @ d2), c2)"
        using nb Some pu False r(1) by (subst pull_loop.simps) simp
      moreover have "(d1 @ d2) @ blk_bytes absb cur2 @ concat (absw w2) = blk_bytes absb cur @ concat (absw w)"
        using r(2) q(1) d1 by simp
      moreover have "length (d1 @ d2) = min (nat n) (length (blk_bytes absb cur @ concat (absw w)))"
        using r(3) q(1) d1 pos by (simp add: nat_diff_distrib)
      ultimately show ?thesis by blast
    qed
  qed
qed

text \<open>Taking a block out of a queue does not report high water.\<close>

definition dequeue_calm :: "('w, 'b) wm_api \<Rightarrow> bool" where
  [env_defs]: "dequeue_calm api \<longleftrightarrow> (\<forall>w. Wm_high \<notin> set (snd (snd (wm_dequeue api w))))"

lemma next_block_calm: "dequeue_calm api \<Longrightarrow> next_block api cur w = (b, w', c) \<Longrightarrow> Wm_high \<notin> set c"
  by (auto simp: next_block_def dequeue_calm_def split: option.splits) (metis snd_conv)

lemma pull_loop_calm:
  assumes "dequeue_calm api" and "pull_loop api cur w n buf cbs = Some r" and "Wm_high \<notin> set cbs"
  shows "Wm_high \<notin> set (snd (snd (snd r)))"
proof -
  have "dequeue_calm api \<longrightarrow> Wm_high \<notin> set cbs \<longrightarrow> Wm_high \<notin> set (snd (snd (snd r)))"
  proof (rule pull_loop.raw_induct
      [where P = "\<lambda>api cur w n buf cbs r. dequeue_calm api \<longrightarrow> Wm_high \<notin> set cbs \<longrightarrow> Wm_high \<notin> set (snd (snd (snd r)))",
       OF _ assms(2)])
    fix loop :: "('a, 'b) wm_api \<Rightarrow> 'b option \<Rightarrow> 'a \<Rightarrow> int \<Rightarrow> string \<Rightarrow> wm_cb list \<Rightarrow>
        ('b option \<times> 'a \<times> string \<times> wm_cb list) option"
    fix api :: "('a, 'b) wm_api" and cur w n buf cbs r
    assume IH: "\<And>api cur w n buf cbs r. loop api cur w n buf cbs = Some r \<Longrightarrow>
        dequeue_calm api \<longrightarrow> Wm_high \<notin> set cbs \<longrightarrow> Wm_high \<notin> set (snd (snd (snd r)))"
      and body: "(case next_block api cur w of
            (None, w', c) \<Rightarrow> Some (None, w', buf, cbs @ c)
          | (Some b, w', c) \<Rightarrow>
              (case blk_pullup api b n of
                 (d, cur') \<Rightarrow>
                   if n - int (length d) = 0 then Some (cur', w', buf @ d, cbs @ c)
                   else loop api cur' w' (n - int (length d)) (buf @ d) (cbs @ c))) = Some r"
    obtain b w' c where nb: "next_block api cur w = (b, w', c)" by (metis prod_cases3)
    show "dequeue_calm api \<longrightarrow> Wm_high \<notin> set cbs \<longrightarrow> Wm_high \<notin> set (snd (snd (snd r)))"
      using body nb next_block_calm [OF _ nb] IH [of api _ w' _ _ "cbs @ c" r]
      by (auto split: option.splits prod.splits if_splits)
  qed
  with assms(1,3) show ?thesis by blast
qed

section \<open>What callbacks and reports leave alone\<close>

lemma report_frame [simp]:
  "ctx (socket_app_event_report env m s) = ctx s"
  "ind_live (socket_app_event_report env m s) = ind_live s"
  by (simp_all add: socket_app_event_report_def)

lemmas callback_defs =
  socket_app_tx_wm_low_level_cb_def socket_app_tx_wm_high_level_cb_def
  socket_app_tx_wm_non_empty_cb_def socket_app_rx_wm_low_level_cb_def
  socket_app_rx_wm_high_level_cb_def socket_app_rx_wm_non_empty_cb_def upd_session_def

lemma tx_callback_frame [simp]:
  "sockfd (ctx (tx_callback env c s)) = sockfd (ctx s)"
  "connect_state (ctx (tx_callback env c s)) = connect_state (ctx s)"
  "recv_wm_high (transfer_session (ctx (tx_callback env c s))) = recv_wm_high (transfer_session (ctx s))"
  "unsent absw absb (tx_callback env c s) = unsent absw absb s"
  "rx_tx_ready (transfer_session (ctx (tx_callback env c s))) = rx_tx_ready (transfer_session (ctx s))"
  by (cases c; simp add: callback_defs unsent_def Let_def)+

lemma rx_callback_frame [simp]:
  "sockfd (ctx (rx_callback c s)) = sockfd (ctx s)"
  "connect_state (ctx (rx_callback c s)) = connect_state (ctx s)"
  "recv_wm_high (transfer_session (ctx (rx_callback c s))) = recv_wm_high (transfer_session (ctx s))"
  "unsent absw absb (rx_callback c s) = unsent absw absb s"
  "rx_tx_ready (transfer_session (ctx (rx_callback c s))) = rx_tx_ready (transfer_session (ctx s))"
  by (cases c; simp add: callback_defs unsent_def Let_def)+

lemma fold_tx_callback_frame [simp]:
  "sockfd (ctx (fold (tx_callback env) cs s)) = sockfd (ctx s)"
  "connect_state (ctx (fold (tx_callback env) cs s)) = connect_state (ctx s)"
  "recv_wm_high (transfer_session (ctx (fold (tx_callback env) cs s))) = recv_wm_high (transfer_session (ctx s))"
  "unsent absw absb (fold (tx_callback env) cs s) = unsent absw absb s"
  "rx_tx_ready (transfer_session (ctx (fold (tx_callback env) cs s))) = rx_tx_ready (transfer_session (ctx s))"
  using fold_frame [where f = "\<lambda>s. sockfd (ctx s)" and g = "tx_callback env", OF tx_callback_frame(1)]
    fold_frame [where f = "\<lambda>s. connect_state (ctx s)" and g = "tx_callback env", OF tx_callback_frame(2)]
    fold_frame [where f = "\<lambda>s. recv_wm_high (transfer_session (ctx s))" and g = "tx_callback env", OF tx_callback_frame(3)]
    fold_frame [where f = "unsent absw absb" and g = "tx_callback env", OF tx_callback_frame(4)]
    fold_frame [where f = "\<lambda>s. rx_tx_ready (transfer_session (ctx s))" and g = "tx_callback env", OF tx_callback_frame(5)]
  by simp_all

lemma fold_rx_callback_frame [simp]:
  "sockfd (ctx (fold rx_callback cs s)) = sockfd (ctx s)"
  "connect_state (ctx (fold rx_callback cs s)) = connect_state (ctx s)"
  "recv_wm_high (transfer_session (ctx (fold rx_callback cs s))) = recv_wm_high (transfer_session (ctx s))"
  "unsent absw absb (fold rx_callback cs s) = unsent absw absb s"
  "rx_tx_ready (transfer_session (ctx (fold rx_callback cs s))) = rx_tx_ready (transfer_session (ctx s))"
  using fold_frame [where f = "\<lambda>s. sockfd (ctx s)" and g = "rx_callback", OF rx_callback_frame(1)]
    fold_frame [where f = "\<lambda>s. connect_state (ctx s)" and g = "rx_callback", OF rx_callback_frame(2)]
    fold_frame [where f = "\<lambda>s. recv_wm_high (transfer_session (ctx s))" and g = "rx_callback", OF rx_callback_frame(3)]
    fold_frame [where f = "unsent absw absb" and g = "rx_callback", OF rx_callback_frame(4)]
    fold_frame [where f = "\<lambda>s. rx_tx_ready (transfer_session (ctx s))" and g = "rx_callback", OF rx_callback_frame(5)]
  by simp_all

lemma fold_tx_callback_queue [simp]:
  "send_wm_ptr (transfer_session (ctx (fold (tx_callback env) cs s))) = send_wm_ptr (transfer_session (ctx s))"
proof (rule fold_frame [where f = "\<lambda>s. send_wm_ptr (transfer_session (ctx s))"])
  show "send_wm_ptr (transfer_session (ctx (tx_callback env c s))) = send_wm_ptr (transfer_session (ctx s))"
    for c and s :: "('a, 'b) client_sys"
    by (cases c) (simp_all add: callback_defs)
qed

text \<open>Replacing the block in hand replaces the head of the unsent bytes.\<close>

definition queue_bytes :: "('w \<Rightarrow> string list) \<Rightarrow> ('w, 'b) client_sys \<Rightarrow> string" where
  "queue_bytes absw s =
     (case q_ptr (send_wm_ptr (transfer_session (ctx s))) of None \<Rightarrow> [] | Some q \<Rightarrow> concat (absw q))"

lemma unsent_split: "unsent absw absb s = blk_bytes absb (current_send_data_ptr (transfer_session (ctx s))) @ queue_bytes absw s"
  by (simp add: unsent_def queue_bytes_def Let_def)

lemma set_block_in_hand [simp]:
  "current_send_data_ptr (transfer_session (ctx (upd_session (current_send_data_ptr_update (\<lambda>_. p)) s))) = p"
  "queue_bytes absw (upd_session (current_send_data_ptr_update (\<lambda>_. p)) s) = queue_bytes absw s"
  by (simp_all add: upd_session_def queue_bytes_def)

lemma unsent_report [simp]: "unsent absw absb (socket_app_event_report env m s) = unsent absw absb s"
  by (simp add: unsent_def)

lemma queue_bytes_report [simp]: "queue_bytes absw (socket_app_event_report env m s) = queue_bytes absw s"
  by (simp add: queue_bytes_def)

lemma after_send_bytes:
  assumes "wm_ok api absw absb" and "r \<le> int (length buf)"
  shows "take (nat r) buf @ blk_bytes absb (fst (after_send api cur buf r)) = buf @ blk_bytes absb cur"
proof -
  have "blk_bytes absb (blk_pushdown api cur d) = d @ blk_bytes absb cur" for d
    using assms(1) by (simp add: wm_ok_def)
  with assms(2) show ?thesis
    by (auto simp: after_send_def simp flip: append_assoc)
qed

lemma wm_ok_counts:
  assumes "wm_ok api absw absb"
  shows "wm_cnt api q + blk_length api p = int (length (blk_bytes absb p @ concat (absw q)))"
  using assms by (simp add: wm_ok_def)

section \<open>The client as an event loop\<close>

lemma upd_session_frame [simp]:
  "sockfd (ctx (upd_session f s)) = sockfd (ctx s)"
  "connect_state (ctx (upd_session f s)) = connect_state (ctx s)"
  "transfer_session (ctx (upd_session f s)) = f (transfer_session (ctx s))"
  by (simp_all add: upd_session_def)

lemma unsent_recv_update [simp]:
  "unsent absw absb (upd_session (\<lambda>t. t\<lparr>recv_wm_ptr := g t\<rparr>) s) = unsent absw absb s"
  by (simp add: unsent_def Let_def)

lemma soc_write_send_frame [simp]:
  "sockfd (ctx (fst (soc_write_send api env cur buf s))) = sockfd (ctx s)"
  "connect_state (ctx (fst (soc_write_send api env cur buf s))) = connect_state (ctx s)"
  "recv_wm_high (transfer_session (ctx (fst (soc_write_send api env cur buf s)))) =
   recv_wm_high (transfer_session (ctx s))"
  "rx_tx_ready (transfer_session (ctx (fst (soc_write_send api env cur buf s)))) =
   rx_tx_ready (transfer_session (ctx s))"
  by (simp_all add: soc_write_send_def Let_def case_prod_beta)

text \<open>The write function either does nothing, or pulls up a prefix of the unsent bytes and sends it.\<close>

lemma soc_write_cases:
  assumes ok: "wm_ok api absw absb"
  obtains (idle) "qcm_socket_app_soc_write api env s = Some (s, [])"
      "writable s \<and> (\<forall>n. mem_alloc env n) \<longrightarrow> unsent absw absb s = []"
  | (send) cur q q' buf cbs where
      "q_ptr (send_wm_ptr (transfer_session (ctx s))) = Some q"
      "buf @ blk_bytes absb cur @ concat (absw q') = unsent absw absb s"
      "0 < length buf" "int (length buf) = min SOCKET_APP_SINGLE_SEND_LEN (int (length (unsent absw absb s)))"
      "rx_tx_ready (transfer_session (ctx s))" "\<not> send_wm_high (transfer_session (ctx s))"
      "qcm_socket_app_soc_write api env s =
         Some (soc_write_send api env cur buf (fold (tx_callback env) cbs
                 (upd_session (\<lambda>t. t\<lparr>current_send_data_ptr := cur,
                    send_wm_ptr := (send_wm_ptr t)\<lparr>q_ptr := Some q'\<rparr>\<rparr>) s)))"
      "dequeue_calm api \<longrightarrow> Wm_high \<notin> set cbs"
proof (cases "q_ptr (send_wm_ptr (transfer_session (ctx s)))")
  case None
  then show thesis by (intro idle) (simp_all add: qcm_socket_app_soc_write_def writable_def Let_def)
next
  case (Some q)
  let ?t = "transfer_session (ctx s)"
  let ?p = "current_send_data_ptr ?t"
  let ?n = "min SOCKET_APP_SINGLE_SEND_LEN (wm_cnt api q + blk_length api ?p)"
  have total: "wm_cnt api q + blk_length api ?p = int (length (unsent absw absb s))"
    using wm_ok_counts [OF ok] Some by (simp add: unsent_def Let_def)
  show thesis
  proof (cases "rx_tx_ready ?t \<and> \<not> send_wm_high ?t \<and> ?n \<noteq> 0 \<and> mem_alloc env ?n")
    case False
    have "writable s \<and> (\<forall>n. mem_alloc env n) \<longrightarrow> unsent absw absb s = []"
      using False by (auto simp: writable_def Let_def total SOCKET_APP_SINGLE_SEND_LEN_def min_def split: if_splits)
    with False Some show thesis by (intro idle) (auto simp: qcm_socket_app_soc_write_def Let_def)
  next
    case True
    have "0 \<le> ?n" by (simp add: total SOCKET_APP_SINGLE_SEND_LEN_def)
    with True have pos: "0 < ?n" by (metis order_le_less)
    from pull_loop_splits [OF ok this, of ?p q "[]" "[]"]
    obtain cur q' buf cbs where pl: "pull_loop api ?p q ?n [] [] = Some (cur, q', buf, cbs)"
      and b: "buf @ blk_bytes absb cur @ concat (absw q') = unsent absw absb s"
      and l: "length buf = min (nat ?n) (length (unsent absw absb s))"
      using Some by (auto simp: unsent_def Let_def)
    have len: "int (length buf) = ?n" using l total pos by (simp add: min_def split: if_splits)
    have calm: "dequeue_calm api \<longrightarrow> Wm_high \<notin> set cbs" using pull_loop_calm [OF _ pl] by auto
    have nonempty: "0 < length buf" using len pos by linarith
    show thesis
      by (rule send [OF Some b nonempty len [unfolded total] _ _ _ calm])
        (use True Some pl nonempty in \<open>simp_all add: qcm_socket_app_soc_write_def Let_def\<close>)
  qed
qed

lemma soc_write_defined:
  assumes "wm_ok api absw absb"
  shows "\<exists>s' calls. qcm_socket_app_soc_write api env s = Some (s', calls) \<and>
     sockfd (ctx s') = sockfd (ctx s) \<and> connect_state (ctx s') = connect_state (ctx s) \<and>
     recv_wm_high (transfer_session (ctx s')) = recv_wm_high (transfer_session (ctx s)) \<and>
     rx_tx_ready (transfer_session (ctx s')) = rx_tx_ready (transfer_session (ctx s))"
  using assms
proof (cases rule: soc_write_cases [where env = env and s = s])
  case idle
  then show ?thesis by simp
next
  case (send cur q q' buf cbs)
  let ?s1 = "fold (tx_callback env) cbs (upd_session (\<lambda>t. t\<lparr>current_send_data_ptr := cur,
      send_wm_ptr := (send_wm_ptr t)\<lparr>q_ptr := Some q'\<rparr>\<rparr>) s)"
  show ?thesis
    using send(7)
    by (intro exI [of _ "fst (soc_write_send api env cur buf ?s1)"]
        exI [of _ "snd (soc_write_send api env cur buf ?s1)"]) simp
qed

lemma soc_read_frame:
  assumes "qcm_socket_app_soc_read api env s = (s', calls)"
  shows "sockfd (ctx s') = sockfd (ctx s) \<and> connect_state (ctx s') = connect_state (ctx s) \<and>
     recv_wm_high (transfer_session (ctx s')) = recv_wm_high (transfer_session (ctx s)) \<and>
     rx_tx_ready (transfer_session (ctx s')) = rx_tx_ready (transfer_session (ctx s)) \<and>
     unsent absw absb s' = unsent absw absb s"
  using assms
  by (auto simp: qcm_socket_app_soc_read_def Let_def
      split: if_splits prod.splits option.splits)

lemma event_process_inv:
  assumes ok: "wm_ok api absw absb" and inv: "client_inv s"
  shows "\<exists>s' calls. qcm_socket_app_event_process api env ind s = Some (s', calls) \<and> client_inv s'"
proof (cases "ind_event_mask ind")
  case SOCK_READ
  obtain s1 calls where r: "qcm_socket_app_soc_read api env s = (s1, calls)" by force
  with SOCK_READ inv soc_read_frame [OF r] show ?thesis
    by (simp add: qcm_socket_app_event_process_def client_inv_def)
next
  case SOCK_WRITE
  with inv soc_write_defined [OF ok, of env s] show ?thesis
    by (auto simp: qcm_socket_app_event_process_def client_inv_def)
qed (use inv in \<open>auto simp: qcm_socket_app_event_process_def client_inv_def qcm_socket_app_soc_close_def\<close>)

lemma send_process_inv:
  assumes ok: "wm_ok api absw absb" and inv: "client_inv s"
  shows "\<exists>s' calls. qcm_socket_app_send_process api env s = Some (s', calls) \<and> client_inv s'"
  using inv soc_write_defined [OF ok, of env
      "s\<lparr>ctx := (ctx s)\<lparr>send_release_count := send_release_count (ctx s) - 1\<rparr>\<rparr>"]
  by (auto simp: qcm_socket_app_send_process_def client_inv_def)

lemma close_process_fin:
  assumes "client_inv s"
  shows "client_step api s (env, Msg_close (Some ())) =
      Exit (s\<lparr>ctx := socket_app_rx_tx_watermark_deinit
              ((ctx s)\<lparr>sockfd := -1, connect_state := CONNECT_STATE_CLOSED\<rparr>)\<rparr>)
           [Sock_set_linger (sockfd (ctx s)) 1 0, Sock_close (sockfd (ctx s))]"
  using assms by (simp add: qcm_socket_app_close_process_def client_inv_def)

lemma deinit_fin:
  assumes "client_inv s"
  shows "client_fin (s\<lparr>ctx := socket_app_rx_tx_watermark_deinit
              ((ctx s)\<lparr>sockfd := -1, connect_state := CONNECT_STATE_CLOSED\<rparr>)\<rparr>)"
  using assms
  by (simp add: client_inv_def client_fin_def socket_app_rx_tx_watermark_deinit_def Let_def)

interpretation client_task: event_loop "client_step api" client_inv client_fin "client_ok api" for api
proof
  fix s and e :: "client_env \<times> client_msg"
  assume inv: "client_inv s" and acc: "client_ok api s e"
  then obtain absw absb where ok: "wm_ok api absw absb" by (auto simp: client_ok_def)
  obtain env m where e: "e = (env, m)" by force
  show "outcome_inv client_inv client_fin (client_step api s e)"
  proof (cases m)
    case (Msg_event_ind ind)
    with e event_process_inv [OF ok inv, of env ind] show ?thesis by auto
  next
    case Msg_send_ind
    with e send_process_inv [OF ok inv, of env] show ?thesis by auto
  next
    case (Msg_close argv)
    with e acc have "argv = Some ()" by (cases argv) (auto simp: client_ok_def)
    with e Msg_close close_process_fin [OF inv] deinit_fin [OF inv] show ?thesis by simp
  qed
qed

section \<open>Properties of the client\<close>

text \<open>A library of lists, used by the examples: it keeps the contract.\<close>

definition list_api :: "(string list, string) wm_api" where
  "list_api = \<lparr>wm_init = (\<lambda>_. []), wm_is_empty = (\<lambda>w. w = []), wm_empty_queue = (\<lambda>_. []),
     wm_cnt = (\<lambda>w. int (length (concat w))),
     wm_dequeue = (\<lambda>w. case w of [] \<Rightarrow> (None, [], []) | b # bs \<Rightarrow> (Some b, bs, [])),
     wm_enqueue = (\<lambda>w b. (w @ [b], if w = [] then [Wm_nonempty] else [])),
     blk_length = (\<lambda>p. int (length (case p of None \<Rightarrow> [] | Some b \<Rightarrow> b))),
     blk_pullup = (\<lambda>b n. (take (nat n) b, if int (length b) \<le> n then None else Some (drop (nat n) b))),
     blk_pushdown = (\<lambda>p d. Some (d @ (case p of None \<Rightarrow> [] | Some b \<Rightarrow> b))),
     blk_pushdown_tail = (\<lambda>p d. Some ((case p of None \<Rightarrow> [] | Some b \<Rightarrow> b) @ d)),
     blk_new = Some []\<rparr>"

lemma list_api_ok: "wm_ok list_api (\<lambda>w. w) (\<lambda>b. b)"
  by (auto simp: wm_ok_def list_api_def blk_bytes_def split: list.splits option.splits)

definition example_env :: client_env where
  "example_env = \<lparr>sock_success = 0, sock_send = (\<lambda>_ _ n. n), sock_read = (\<lambda>_ _. (2, ''ok'')),
     mem_alloc = (\<lambda>_. True), release_ok = True\<rparr>"

definition example_client :: "(string list, string) client_sys" where
  "example_client = \<lparr>ctx = the (fst (qcm_socket_app_demo_start list_api
       \<lparr>dc_no_active = False, dc_start_ok = True, dc_ip_type = IP_V4\<rparr> (Some [Ipv4_addr 1]) (\<lambda>_. 4) (\<lambda>_. 0) (-2))),
     msgq = [], ind_live = 0\<rparr>"

lemmas client_eval =
  example_client_def example_env_def list_api_def qcm_socket_app_demo_start_def
  qcm_socket_app_socket_create_def qcm_socket_app_datacall_active_def zero_context_def
  socket_app_rx_tx_watermark_init_def wm_prepared_def SOCKET_APP_SINGLE_SEND_LEN_def
  qcm_socket_app_send_data_def qcm_socket_app_send_process_def qcm_socket_app_soc_write_def
  soc_write_send_def after_send_def socket_app_event_report_def callback_defs

lemma soc_write_conserves:
  assumes "wm_ok api absw absb" and "client_env_ok env"
  shows "\<exists>s' calls. qcm_socket_app_soc_write api env s = Some (s', calls) \<and>
    concat (map (sent_by env) calls) @ unsent absw absb s' = unsent absw absb s \<and>
    (\<forall>fd d n. Sock_send fd d n \<in> set calls \<longrightarrow> fd = sockfd (ctx s) \<and> n = int (length d) \<and> n \<le> 1500)"
  using assms(1)
proof (cases rule: soc_write_cases [where env = env and s = s])
  case idle
  then show ?thesis by simp
next
  case (send cur q q' buf cbs)
  define s1 where "s1 = fold (tx_callback env) cbs (upd_session (\<lambda>t. t\<lparr>current_send_data_ptr := cur,
      send_wm_ptr := (send_wm_ptr t)\<lparr>q_ptr := Some q'\<rparr>\<rparr>) s)"
  let ?r = "sock_send env (sockfd (ctx s)) buf (int (length buf))"
  have s1: "unsent absw absb s1 = blk_bytes absb cur @ concat (absw q')" "sockfd (ctx s1) = sockfd (ctx s)"
    by (simp_all add: s1_def) (simp add: unsent_def Let_def)
  have q: "queue_bytes absw s1 = concat (absw q')"
    by (simp add: s1_def queue_bytes_def)
  have "?r \<le> int (length buf)" using assms(2) by (simp add: client_env_ok_def)
  note bytes = after_send_bytes [OF assms(1) this, of cur]
  have w: "qcm_socket_app_soc_write api env s =
      Some (fst (soc_write_send api env cur buf s1), [Sock_send (sockfd (ctx s)) buf (int (length buf))])"
    using send(7) by (simp add: s1_def [symmetric] soc_write_send_def s1 Let_def case_prod_beta)
  have "unsent absw absb (fst (soc_write_send api env cur buf s1)) =
      blk_bytes absb (fst (after_send api cur buf ?r)) @ concat (absw q')"
    by (simp add: soc_write_send_def s1 q Let_def case_prod_beta unsent_split)
  with bytes send(2,4) w show ?thesis
    by (auto simp: SOCKET_APP_SINGLE_SEND_LEN_def simp flip: append_assoc)
qed

text \<open>C2: the write function loses, repeats and reorders nothing: whatever the socket does with the
  buffer (takes all of it, a part, or fails), the bytes it took followed by the bytes still
  queued are the bytes that were queued before, at most 1500 are offered, and the function
  always returns.\<close>

theorem write_conserves_bytes:
  assumes "wm_ok api absw absb" and "client_env_ok env"
  shows "\<exists>s' calls. qcm_socket_app_soc_write api env s = Some (s', calls) \<and>
    concat (map (sent_by env) calls) @ unsent absw absb s' = unsent absw absb s \<and>
    (\<forall>fd d n. Sock_send fd d n \<in> set calls \<longrightarrow> fd = sockfd (ctx s) \<and> n = int (length d) \<and> n \<le> 1500)"
  by (rule soc_write_conserves [OF assms])

text \<open>Draining the queue: every write sends something while anything is queued, and leaves the session
  able to send.\<close>

lemma fold_tx_callback_calm:
  "Wm_high \<notin> set cbs \<Longrightarrow> \<not> send_wm_high (transfer_session (ctx s)) \<Longrightarrow>
   \<not> send_wm_high (transfer_session (ctx (fold (tx_callback env) cbs s)))"
proof (induction cbs arbitrary: s)
  case Nil
  then show ?case by simp
next
  case (Cons c cbs)
  then have "\<not> send_wm_high (transfer_session (ctx (tx_callback env c s)))"
    by (cases c) (simp_all add: callback_defs)
  with Cons show ?case by simp
qed

lemma soc_write_send_session [simp]:
  "send_wm_high (transfer_session (ctx (fst (soc_write_send api env cur buf s)))) = send_wm_high (transfer_session (ctx s))"
  "send_wm_ptr (transfer_session (ctx (fst (soc_write_send api env cur buf s)))) = send_wm_ptr (transfer_session (ctx s))"
  by (simp_all add: soc_write_send_def Let_def case_prod_beta)

lemma soc_write_keeps_writable:
  assumes "wm_ok api absw absb" and "dequeue_calm api" and "writable s"
    and "qcm_socket_app_soc_write api env s = Some (s', calls)"
  shows "writable s'"
  using assms(1)
proof (cases rule: soc_write_cases [where env = env and s = s])
  case idle
  with assms(3,4) show ?thesis by simp
next
  case (send cur q q' buf cbs)
  let ?s1 = "upd_session (\<lambda>t. t\<lparr>current_send_data_ptr := cur, send_wm_ptr := (send_wm_ptr t)\<lparr>q_ptr := Some q'\<rparr>\<rparr>) s"
  have s': "s' = fst (soc_write_send api env cur buf (fold (tx_callback env) cbs ?s1))"
    using send(7) assms(4) by (cases "soc_write_send api env cur buf (fold (tx_callback env) cbs ?s1)") simp
  have "\<not> send_wm_high (transfer_session (ctx ?s1))" using send(6) by simp
  with send(5,8) assms(2) show ?thesis
    unfolding s' by (simp add: writable_def Let_def fold_tx_callback_calm)
qed

text \<open>A socket that takes at least one byte of what it is offered.\<close>

definition sends_some :: "client_env \<Rightarrow> bool" where
  [env_defs]: "sends_some env \<longleftrightarrow> client_env_ok env \<and> (\<forall>n. mem_alloc env n) \<and>
     (\<forall>fd d n. 0 < n \<longrightarrow> 0 < sock_send env fd d n)"

lemma soc_write_progress:
  assumes "wm_ok api absw absb" and "writable s" and "sends_some env" and "unsent absw absb s \<noteq> []"
    and "qcm_socket_app_soc_write api env s = Some (s', calls)"
  shows "concat (map (sent_by env) calls) \<noteq> []"
  using assms(1)
proof (cases rule: soc_write_cases [where env = env and s = s])
  case idle
  with assms(2-4) show ?thesis by (simp add: sends_some_def)
next
  case (send cur q q' buf cbs)
  have "0 < sock_send env (sockfd (ctx s)) buf (int (length buf))"
    using assms(3) send(3) by (simp add: sends_some_def)
  with send(3,7) assms(5) show ?thesis
    by (auto simp: soc_write_send_def Let_def case_prod_beta)
qed

fun run_client_writes ::
  "('w, 'b) wm_api \<Rightarrow> client_env list \<Rightarrow> ('w, 'b) client_sys \<Rightarrow> (('w, 'b) client_sys \<times> string) option" where
  "run_client_writes api [] s = Some (s, [])"
| "run_client_writes api (e # es) s =
     (case qcm_socket_app_soc_write api e s of
        None \<Rightarrow> None
      | Some (s1, calls) \<Rightarrow>
          (case run_client_writes api es s1 of
             None \<Rightarrow> None
           | Some (s2, out) \<Rightarrow> Some (s2, concat (map (sent_by e) calls) @ out)))"


text \<open>A socket that takes every offer whole gets a short message in one call.\<close>

lemma soc_write_whole:
  assumes "wm_ok api absw absb" and "writable s" and "\<forall>n. mem_alloc env n" and "\<forall>fd d n. sock_send env fd d n = n"
    and "unsent absw absb s \<noteq> []" and "length (unsent absw absb s) \<le> 1500"
  shows "\<exists>s'. qcm_socket_app_soc_write api env s =
      Some (s', [Sock_send (sockfd (ctx s)) (unsent absw absb s) (int (length (unsent absw absb s)))]) \<and>
    unsent absw absb s' = []"
  using assms(1)
proof (cases rule: soc_write_cases [where env = env and s = s])
  case idle
  with assms(2,3,5) show ?thesis by simp
next
  case (send cur q q' buf cbs)
  have "length buf = length (unsent absw absb s)" using send(4) assms(6) by (simp add: SOCKET_APP_SINGLE_SEND_LEN_def)
  with send(2) have whole: "buf = unsent absw absb s" by (metis append_eq_conv_conj take_all order_refl)
  have "client_env_ok env" using assms(4) by (simp add: client_env_ok_def)
  with soc_write_conserves [OF assms(1), of env s] obtain s' calls where w:
      "qcm_socket_app_soc_write api env s = Some (s', calls)"
      "concat (map (sent_by env) calls) @ unsent absw absb s' = unsent absw absb s" by blast
  moreover have "calls = [Sock_send (sockfd (ctx s)) buf (int (length buf))]"
    using w(1) send(7) by (simp add: soc_write_send_def Let_def case_prod_beta)
  ultimately show ?thesis using whole assms(4) by simp
qed

lemma client_start_inv:
  assumes "fst (qcm_socket_app_demo_start api dc dns create connect wodblock) = Some c"
  shows "client_inv \<lparr>ctx = c, msgq = q, ind_live = n\<rparr>"
  using assms
  by (auto simp: qcm_socket_app_demo_start_def Let_def client_inv_def
      socket_app_rx_tx_watermark_init_def split: prod.splits if_splits)


text \<open>The close entry point for other tasks posts a message without a context, and handling that
  message dereferences \<^verbatim>\<open>NULL\<close> in every state of the client.\<close>

theorem app_close_dereferences_null:
  assumes "release_ok env"
  shows "\<exists>m. msgq (qcm_socket_app_close env s) = msgq s @ [m] \<and>
    (\<forall>s' env'. client_step api s' (env', m) = Undefined Null_dereference)"
  using assms
  by (simp add: qcm_socket_app_close_def socket_app_event_report_def qcm_socket_app_close_process_def)

text \<open>The handles opened and closed by a sequence of calls.\<close>

fun opened :: "sock_call list \<Rightarrow> int list" where
  "opened [] = []"
| "opened (Sock_register fd evs a # cs) = fd # opened cs"
| "opened (_ # cs) = opened cs"

fun closed :: "sock_call list \<Rightarrow> int list" where
  "closed [] = []"
| "closed (Sock_close fd # cs) = fd # closed cs"
| "closed (_ # cs) = closed cs"

lemma opened_append [simp]: "opened (xs @ ys) = opened xs @ opened ys"
  by (induction xs rule: opened.induct) simp_all

lemma closed_append [simp]: "closed (xs @ ys) = closed xs @ closed ys"
  by (induction xs rule: closed.induct) simp_all

lemma create_loop_balanced:
  "create_loop create connect wodblock port i addrs = (r, calls) \<Longrightarrow>
   opened calls = closed calls @ (if r < 0 then [] else [r])"
  by (induction create connect wodblock port i addrs arbitrary: r calls rule: create_loop.induct)
    (auto simp: Let_def split: if_splits prod.splits)

text \<open>Creating the connection leaks no socket: of the handles opened for the resolved addresses,
  in order, every one is closed again except the one returned, and none is kept when the
  function fails.\<close>

theorem socket_create_leaks_nothing:
  "opened (snd (qcm_socket_app_socket_create dc dns create connect wodblock c)) =
   closed (snd (qcm_socket_app_socket_create dc dns create connect wodblock c)) @
   (if fst (qcm_socket_app_socket_create dc dns create connect wodblock c) < 0 then []
    else [fst (qcm_socket_app_socket_create dc dns create connect wodblock c)])"
  using create_loop_balanced [of create connect wodblock "hostport c" 0 "the dns"
      "fst (create_loop create connect wodblock (hostport c) 0 (the dns))"
      "snd (create_loop create connect wodblock (hostport c) 0 (the dns))"]
  by (auto simp: qcm_socket_app_socket_create_def split: option.split)

text \<open>High water on the receive queue stops sending, not receiving: the receive callback sets the
  send flag, after which a write event does nothing, while the flag the read function tests
  keeps its value.\<close>

theorem rx_high_water_stops_sending:
  "qcm_socket_app_soc_write api env (socket_app_rx_wm_high_level_cb s) =
     Some (socket_app_rx_wm_high_level_cb s, []) \<and>
   recv_wm_high (transfer_session (ctx (socket_app_rx_wm_high_level_cb s))) =
     recv_wm_high (transfer_session (ctx s))"
  by (simp add: qcm_socket_app_soc_write_def socket_app_rx_wm_high_level_cb_def upd_session_def Let_def)

text \<open>\<^verbatim>\<open>send_release_count\<close> does not count queued send requests: the request the write function posts
  for itself is not counted but lowers the count when it is handled, so after one message sent
  and drained the counter is -1.\<close>

theorem release_count_goes_negative:
  "\<exists>s out. run_loop (client_step list_api) (qcm_socket_app_send_data list_api example_env ''hi'' example_client)
     [(example_env, Msg_send_ind), (example_env, Msg_send_ind)] = Continue s out \<and>
   send_release_count (ctx s) = -1 \<and> out = [Sock_send 4 ''hi'' 2]"
  by (simp add: client_eval Let_def pull_loop.simps next_block_def)

section \<open>The properties at concrete inputs\<close>

text \<open>The socket takes one byte of two; the other stays queued.\<close>

theorem write_conserves_bytes_witness:
  "\<exists>s' calls. qcm_socket_app_soc_write list_api (example_env\<lparr>sock_send := (\<lambda>_ _ n. min 1 n)\<rparr>)
      (qcm_socket_app_send_data list_api example_env ''hi'' example_client) = Some (s', calls) \<and>
    concat (map (sent_by (example_env\<lparr>sock_send := (\<lambda>_ _ n. min 1 n)\<rparr>)) calls) @
      unsent (\<lambda>w. w) (\<lambda>b. b) s' = ''hi''"
proof -
  have e: "client_env_ok (example_env\<lparr>sock_send := (\<lambda>_ _ n. min 1 n)\<rparr>)"
    by (simp add: client_env_ok_def)
  have "unsent (\<lambda>w. w) (\<lambda>b. b) (qcm_socket_app_send_data list_api example_env ''hi'' example_client) = ''hi''"
    by (simp add: client_eval unsent_def Let_def)
  with write_conserves_bytes [OF list_api_ok e, of "qcm_socket_app_send_data list_api example_env ''hi'' example_client"]
  show ?thesis by metis
qed


theorem app_close_dereferences_null_witness:
  "\<exists>m. msgq (qcm_socket_app_close example_env example_client) = msgq example_client @ [m] \<and>
    client_step list_api example_client (example_env, m) = Undefined Null_dereference"
  using app_close_dereferences_null [of example_env example_client list_api]
  by (auto simp: example_env_def)

lemma list_api_calm: "dequeue_calm list_api"
  by (simp add: dequeue_calm_def list_api_def split: list.split)


end
