(* ===== verification/Tcp_Block.thy ===== *)
theory Tcp_Block
  imports Socket_Api
begin

text \<open>
  The blocking TCP client, \<^verbatim>\<open>network/network_protocol/socket/block_client/tcp_block_client.c\<close>.

  A straight sequence: activate the data call, resolve the server, try its addresses one after the
  other, then send and receive up to twenty messages. The answers of the library are the record
  \<open>block_env\<close>; the value of the static counter \<^verbatim>\<open>i\<close> is an argument, since it survives the call.
\<close>

definition SOCKET_BLOCK_CONNECT_SERVER_PORT :: int where "SOCKET_BLOCK_CONNECT_SERVER_PORT = 80"
definition SOCKET_BLOCK_BUFF_MAX_LEN :: nat where "SOCKET_BLOCK_BUFF_MAX_LEN = 1024"

record block_env =
  call_env :: datacall_env
  resolved :: "qosa_ip_addr list option"
  blk_create :: "nat \<Rightarrow> int"             \<comment> \<open>by the position of the address\<close>
  blk_connect :: "nat \<Rightarrow> int"
  blk_send :: "nat \<Rightarrow> int"               \<comment> \<open>by the number of the message\<close>
  blk_read :: "nat \<Rightarrow> int"

definition block_datacall_active :: "datacall_env \<Rightarrow> int" where
  "block_datacall_active env = (if dc_no_active env \<and> \<not> dc_start_ok env then -1 else 0)"

text \<open>\<open>None\<close>: a socket could not be created, and the function returns.\<close>

fun connect_loop :: "block_env \<Rightarrow> nat \<Rightarrow> qosa_ip_addr list \<Rightarrow> int option \<times> sock_call list" where
  "connect_loop env k [] = (Some (-1), [])"
| "connect_loop env k (a # as) =
     (let sockfd = blk_create env k; new = Sock_create 0 1 False 0 True in
      if sockfd < 0 then (None, [new])
      else if blk_connect env k = 0 then (Some sockfd, [new, Sock_connect sockfd a SOCKET_BLOCK_CONNECT_SERVER_PORT])
      else
        let (r, calls) = connect_loop env (Suc k) as in
        (r, [new, Sock_connect sockfd a SOCKET_BLOCK_CONNECT_SERVER_PORT, Sock_close sockfd] @ calls))"

definition block_message :: "nat \<Rightarrow> string" where
  "block_message i = snprintf_buf SOCKET_BLOCK_BUFF_MAX_LEN (''abcdefg:'' @ '','' @ fmt_u i)"

function talk_loop :: "block_env \<Rightarrow> int \<Rightarrow> nat \<Rightarrow> nat \<times> sock_call list" where
  "talk_loop env sockfd i =
     (if Suc i > 20 then (Suc i, [])
      else
        let t = block_message (Suc i); snd_call = Sock_send sockfd t (int (length t)) in
        if blk_send env (Suc i) \<le> 0 then (Suc i, [snd_call])
        else
          let rd_call = Sock_read sockfd (int SOCKET_BLOCK_BUFF_MAX_LEN) in
          if blk_read env (Suc i) \<le> 0 then (Suc i, [snd_call, rd_call])
          else let (j, calls) = talk_loop env sockfd (Suc i) in (j, [snd_call, rd_call] @ calls))"
  by pat_completeness auto
termination
  by (relation "measure (\<lambda>(env, fd, i). 20 - i)") auto

declare talk_loop.simps [simp del]

definition qcm_socket_app_block_process :: "block_env \<Rightarrow> nat \<Rightarrow> nat \<times> sock_call list" where
  "qcm_socket_app_block_process env i =
     (if block_datacall_active (call_env env) \<noteq> 0 then (i, [])
      else case resolved env of
        None \<Rightarrow> (i, [])
      | Some addrs \<Rightarrow>
          (case connect_loop env 0 addrs of
             (None, calls) \<Rightarrow> (i, calls)
           | (Some sockfd, calls) \<Rightarrow>
               let (j, talk) = talk_loop env sockfd i in (j, calls @ talk @ [Sock_close sockfd])))"

section \<open>Properties\<close>

text \<open>What a complete conversation looks like.\<close>

definition exchange :: "int \<Rightarrow> nat \<Rightarrow> sock_call list" where
  "exchange sockfd i = [Sock_send sockfd (block_message i) (int (length (block_message i))), Sock_read sockfd 1024]"

lemma talk_complete:
  assumes "\<forall>i. 0 < blk_send env i \<and> 0 < blk_read env i"
  shows "i \<le> 20 \<Longrightarrow> talk_loop env sockfd i = (21, concat (map (exchange sockfd) [Suc i..<21]))"
proof (induction "20 - i" arbitrary: i)
  case 0
  then show ?case by (subst talk_loop.simps) simp
next
  case (Suc n)
  then have "talk_loop env sockfd (Suc i) = (21, concat (map (exchange sockfd) [Suc (Suc i)..<21]))" by simp
  moreover have "[Suc i..<21] = Suc i # [Suc (Suc i)..<21]" using Suc by (simp add: upt_conv_Cons)
  ultimately show ?case
    using Suc assms by (subst talk_loop.simps) (simp add: Let_def exchange_def SOCKET_BLOCK_BUFF_MAX_LEN_def not_le)
qed

text \<open>The calls for the addresses that do not connect, and a socket for the one that does.\<close>

definition failed_try :: "block_env \<Rightarrow> nat \<Rightarrow> qosa_ip_addr \<Rightarrow> sock_call list" where
  "failed_try env k a = [Sock_create 0 1 False 0 True, Sock_connect (blk_create env k) a 80, Sock_close (blk_create env k)]"

definition good_try :: "block_env \<Rightarrow> nat \<Rightarrow> qosa_ip_addr \<Rightarrow> sock_call list" where
  "good_try env k a = [Sock_create 0 1 False 0 True, Sock_connect (blk_create env k) a 80]"

lemma connect_loop_step:
  assumes "0 \<le> blk_create env k"
  shows "connect_loop env k (a # as) =
    (if blk_connect env k = 0 then (Some (blk_create env k), good_try env k a)
     else (fst (connect_loop env (Suc k) as), failed_try env k a @ snd (connect_loop env (Suc k) as)))"
  using assms by (simp add: Let_def good_try_def failed_try_def SOCKET_BLOCK_CONNECT_SERVER_PORT_def split: prod.split)

declare connect_loop.simps(2) [simp del]

lemma connect_loop_fails:
  assumes "\<forall>j<length as. 0 \<le> blk_create env (k + j) \<and> blk_connect env (k + j) \<noteq> 0"
  shows "connect_loop env k (as @ bs) =
    (fst (connect_loop env (k + length as) bs),
     concat (map (\<lambda>(j, a). failed_try env j a) (enumerate k as)) @ snd (connect_loop env (k + length as) bs))"
  using assms
proof (induction as arbitrary: k)
  case Nil
  then show ?case by simp
next
  case (Cons a as)
  have "\<forall>j<length as. 0 \<le> blk_create env (Suc k + j) \<and> blk_connect env (Suc k + j) \<noteq> 0"
    using Cons.prems by auto
  from Cons.IH [OF this] Cons.prems [rule_format, of 0] show ?case
    by (simp add: connect_loop_step)
qed

text \<open>When the data call is active, the resolver answers, and the first address that accepts a connection
  comes after the addresses \<open>as\<close>, the client closes one socket per refused address, and on the connection
  sends the messages 1 to 20 in order, reading one answer after each, and closes it; the counter is then 21.\<close>

theorem block_client_converses:
  assumes "\<not> dc_no_active (call_env env) \<or> dc_start_ok (call_env env)"
    and "resolved env = Some (as @ a # bs)"
    and "\<forall>j<length as. 0 \<le> blk_create env j \<and> blk_connect env j \<noteq> 0"
    and "sockfd = blk_create env (length as)" "0 \<le> sockfd" "blk_connect env (length as) = 0"
    and "\<forall>i. 0 < blk_send env i \<and> 0 < blk_read env i"
  shows "qcm_socket_app_block_process env 0 =
    (21, concat (map (\<lambda>(j, x). failed_try env j x) (enumerate 0 as)) @ good_try env (length as) a @
         concat (map (exchange sockfd) [1..<21]) @ [Sock_close sockfd])"
proof -
  have "connect_loop env 0 (as @ a # bs) = (Some sockfd,
      concat (map (\<lambda>(j, x). failed_try env j x) (enumerate 0 as)) @ good_try env (length as) a)"
    using connect_loop_fails [of as env 0 "a # bs"] assms(3-6) by (simp add: connect_loop_step)
  then show ?thesis
    using assms(1,2) talk_complete [OF assms(7), of 0 sockfd]
    by (auto simp: qcm_socket_app_block_process_def block_datacall_active_def)
qed

definition sample_env :: block_env where
  "sample_env = \<lparr>call_env = \<lparr>dc_no_active = True, dc_start_ok = True, dc_ip_type = IP_V4\<rparr>,
     resolved = Some [Ipv4_addr 1, Ipv4_addr 2], blk_create = (\<lambda>k. int k + 5),
     blk_connect = (\<lambda>k. if k = 0 then -1 else 0), blk_send = (\<lambda>_. 11), blk_read = (\<lambda>_. 3)\<rparr>"

theorem block_client_converses_witness:
  "qcm_socket_app_block_process sample_env 0 =
    (21, failed_try sample_env 0 (Ipv4_addr 1) @ good_try sample_env 1 (Ipv4_addr 2) @
         concat (map (exchange 6) [1..<21]) @ [Sock_close 6])"
  using block_client_converses [of sample_env "[Ipv4_addr 1]" "Ipv4_addr 2" "[]" 6]
  by (simp add: sample_env_def del: upt_Suc)

text \<open>When no address connects, the handle is \<open>-1\<close>, and the client sends on it and closes it.\<close>

lemma unconnected_client_sends:
  assumes "\<not> dc_no_active (call_env env)" "resolved env = Some as"
    and "\<forall>j<length as. 0 \<le> blk_create env j \<and> blk_connect env j \<noteq> 0" "blk_send env 1 \<le> 0"
  shows "qcm_socket_app_block_process env 0 =
    (1, concat (map (\<lambda>(j, x). failed_try env j x) (enumerate 0 as)) @
        [Sock_send (-1) (block_message 1) (int (length (block_message 1))), Sock_close (-1)])"
proof -
  have "talk_loop env (-1) 0 = (1, [Sock_send (-1) (block_message 1) (int (length (block_message 1)))])"
    using assms(4) by (subst talk_loop.simps) (simp add: Let_def)
  then show ?thesis
    using connect_loop_fails [of as env 0 "[]"] assms(1-3)
    by (simp add: qcm_socket_app_block_process_def block_datacall_active_def)
qed

text \<open>The counter is static: a second run of the task after a complete one sends nothing.\<close>

lemma second_run_sends_nothing:
  "talk_loop env sockfd 21 = (22, [])"
  by (subst talk_loop.simps) simp

end
