(* ===== verification/Cellular.thy ===== *)
theory Cellular
  imports Socket_Api "HOL-Library.Signed_Division"
begin

text \<open>
  Network registration, \<^verbatim>\<open>network/nic/cellular/demo/cellular_demo.c\<close>, and the data call kept up over
  deactivations by the network, \<^verbatim>\<open>network/nic/cellular/datacall/cellular_datacall.c\<close>.

  The network task has a \<^verbatim>\<open>goto\<close> from its second loop into the body of the first. Its control point is a
  field of the state (\<open>pc\<close>), and one step runs to the next control point; notifications of the modem come
  in between. The task sees the modem through \<open>nw_env\<close>; the macros \<^verbatim>\<open>QOSA_NW_ATTACHED\<close> and
  \<^verbatim>\<open>QOSA_RSSI_MEAS\<close> of the platform are the arguments \<open>attached\<close> and \<open>meas\<close>.
\<close>

section \<open>The network task\<close>

definition NW_DEMO_WAIT_ATTACH_MAX_WAIT_TIME :: int where "NW_DEMO_WAIT_ATTACH_MAX_WAIT_TIME = 300"
definition NW_DEMO_EXCUTE_CFUN_MAXTIME :: nat where "NW_DEMO_EXCUTE_CFUN_MAXTIME = 10"

text \<open>Signal values are hundredths of a decibel.\<close>

record lte_signal =
  rsrp :: int
  rsrq :: int
  sinr :: int

text \<open>The message of a notification (\<^verbatim>\<open>nw_demo_nw_msg_t\<close>): the identifier selects the member of the union. The
  signal is present when the radio technology is LTE.\<close>

datatype nw_msg =
    PS_REG_STATUS
  | SIGNAL_QUALITY "lte_signal option"
  | RRC_STATUS
  | NITZ_INFO
  | NAS_EVENT int int
  | OTHER_EVENT

datatype nw_call =
    Wait_attached int
  | Sleep_s int
  | Create_sem nat
  | Register string
  | Get_support_band
  | Get_cfg_band
  | Read_sim_status
  | Get_reg_status
  | Set_cfun int
  | Sem_wait
  | Get_freq_lock
  | Get_scell
  | Get_rat
  | Get_oper_name
  | Log_reject int
  | Log_locked
  | Log_not_camped
  | Log_bad_network
  | Log_csq u8

datatype nw_pc = Attach_loop | Wait_attach | Monitor

record nw_state =
  is_attached :: bool
  ps_status :: "u8 option"              \<comment> \<open>\<open>None\<close>: never written\<close>
  nas_type :: int                       \<comment> \<open>\<^verbatim>\<open>g_nw_demo_nas_event\<close>\<close>
  nas_cause :: int
  attach_count :: nat
  cfun_count :: nat
  cfun_sem :: nat                       \<comment> \<open>\<^verbatim>\<open>g_nw_demo_cfun_sem\<close>\<close>
  pc :: nw_pc

text \<open>The answers of the modem during a step. \<open>reg_status\<close> is \<open>None\<close> when the query fails and leaves
  \<^verbatim>\<open>ps_status\<close> alone; \<open>cfun_cnf\<close> says whether the modem confirms, \<open>scell\<close> is the cell after the query.\<close>

record nw_env =
  reg_status :: "u8 option"
  cfun_cnf :: "int \<Rightarrow> bool"
  locked_freqs :: nat
  plmn_valid :: bool
  scell :: lte_signal
  scell_ok :: bool
  rat_4g :: bool
  scell_rssi :: int

definition bad_network :: "lte_signal \<Rightarrow> bool" where
  "bad_network q \<longleftrightarrow> rsrp q sdiv 100 \<le> -115 \<or> rsrq q sdiv 100 \<le> -15 \<or> sinr q sdiv 100 \<le> 0"

definition network_event_cb :: "bool \<Rightarrow> nw_msg \<Rightarrow> nw_state \<Rightarrow> int \<times> nw_state \<times> nw_call list" where
  "network_event_cb alloc m s =
     (if \<not> alloc then (-1, s, [])
      else case m of
        SIGNAL_QUALITY (Some q) \<Rightarrow> (0, s, if bad_network q then [Log_bad_network] else [])
      | NAS_EVENT t c \<Rightarrow> (0, s\<lparr>nas_type := t, nas_cause := c\<rparr>, [])
      | _ \<Rightarrow> (0, s, []))"

definition nw_demo_set_cfun_cb :: "nw_state \<Rightarrow> nw_state" where
  "nw_demo_set_cfun_cb s = s\<lparr>cfun_sem := cfun_sem s + 1\<rparr>"

text \<open>The result is stored in an \<^verbatim>\<open>int16\<close> and returned as an \<^verbatim>\<open>uint8\<close>. \<open>invalid\<close> is \<^verbatim>\<open>QOSA_NW_PI_INT16\<close>.\<close>

definition nw_demo_lte_get_csq_rssi :: "(int \<Rightarrow> int) \<Rightarrow> int \<Rightarrow> int \<Rightarrow> u8" where
  "nw_demo_lte_get_csq_rssi meas invalid lte_rssi =
     (let rssi = if lte_rssi = invalid then 99 else sint (word_of_int ((meas lte_rssi + 113) sdiv 2) :: 16 word)
      in word_of_int (if rssi = 99 then 99 else if rssi > 31 then 31 else if rssi > 0 then rssi else 0))"

text \<open>\<^verbatim>\<open>qosa_dev_set_cfun\<close> followed by the wait for its confirmation; \<open>None\<close>: the wait never ends.\<close>

definition cfun_and_wait :: "nw_env \<Rightarrow> int \<Rightarrow> nw_state \<Rightarrow> nw_state option" where
  "cfun_and_wait env f s =
     (let s1 = if cfun_cnf env f then nw_demo_set_cfun_cb s else s in
      if cfun_sem s1 = 0 then None else Some (s1\<lparr>cfun_sem := cfun_sem s1 - 1\<rparr>))"

definition restart_modem :: "nw_env \<Rightarrow> nw_state \<Rightarrow> (nw_state, nw_call) outcome" where
  "restart_modem env s =
     (case cfun_and_wait env 0 s of None \<Rightarrow> Diverged
      | Some s1 \<Rightarrow>
        (case cfun_and_wait env 1 s1 of None \<Rightarrow> Diverged
         | Some s2 \<Rightarrow> Continue (s2\<lparr>cfun_count := cfun_count s2 + 1\<rparr>) [Set_cfun 0, Sem_wait, Set_cfun 1, Sem_wait]))"

definition read_reg_status :: "nw_env \<Rightarrow> nw_state \<Rightarrow> nw_state" where
  "read_reg_status env s = (case reg_status env of None \<Rightarrow> s | Some p \<Rightarrow> s\<lparr>ps_status := Some p\<rparr>)"

text \<open>What the first loop logs about the cause of the failure. \<open>reject\<close> is \<^verbatim>\<open>QOSA_NW_NAS_ATTACH_REJECT\<close>.\<close>

definition diagnose :: "int \<Rightarrow> nw_env \<Rightarrow> nw_state \<Rightarrow> nw_call list" where
  "diagnose reject env s =
     (if nas_type s = reject \<and> nas_cause s \<noteq> 0 then [Log_reject (nas_cause s)] else []) @
     [Get_freq_lock] @ (if locked_freqs env > 0 then [Log_locked] else []) @
     [Get_scell] @
     (if \<not> plmn_valid env then [Log_not_camped] else if bad_network (scell env) then [Log_bad_network] else [])"

text \<open>The parameters that come from platform headers.\<close>

record nw_api =
  attached :: "u8 \<Rightarrow> bool"
  rssi_meas :: "int \<Rightarrow> int"
  pi_int16 :: int
  attach_reject :: int

definition leave_attach_loop :: "nw_state \<Rightarrow> nw_state" where
  "leave_attach_loop s = s\<lparr>nas_type := 0, nas_cause := 0, pc := Monitor\<rparr>"

definition attach_loop_test :: "nw_state \<Rightarrow> (nw_state, nw_call) outcome" where
  "attach_loop_test s =
     (if is_attached s then Continue (leave_attach_loop s) []
      else Continue (s\<lparr>attach_count := attach_count s + 1, pc := Wait_attach\<rparr>) [Sleep_s 5])"

definition wait_attach :: "nw_api \<Rightarrow> nw_env \<Rightarrow> nw_state \<Rightarrow> (nw_state, nw_call) outcome" where
  "wait_attach api env s =
     (let s1 = read_reg_status env s in
      case ps_status s1 of None \<Rightarrow> Undefined Uninitialised
      | Some p \<Rightarrow>
        if attached api p then Continue (leave_attach_loop s1) [Read_sim_status, Get_reg_status]
        else
          (case (if attach_count s1 mod 60 = 0 \<and> cfun_count s1 < NW_DEMO_EXCUTE_CFUN_MAXTIME
                 then restart_modem env s1 else Continue s1 []) of
             Continue s2 calls \<Rightarrow>
               Continue (s2\<lparr>pc := Attach_loop\<rparr>)
                 ([Read_sim_status, Get_reg_status] @ calls @ diagnose (attach_reject api) env s2)
           | other \<Rightarrow> other))"

definition monitor :: "nw_api \<Rightarrow> nw_env \<Rightarrow> nw_state \<Rightarrow> (nw_state, nw_call) outcome" where
  "monitor api env s =
     (let s1 = read_reg_status env s in
      case ps_status s1 of None \<Rightarrow> Undefined Uninitialised
      | Some p \<Rightarrow>
        if attached api p
        then Continue s1 ([Sleep_s 10, Get_reg_status, Get_rat, Get_oper_name, Get_scell] @
               (if scell_ok env \<and> rat_4g env
                then [Log_csq (nw_demo_lte_get_csq_rssi (rssi_meas api) (pi_int16 api) (scell_rssi env))] else []))
        else Continue (s1\<lparr>pc := Wait_attach\<rparr>) [Sleep_s 10, Get_reg_status])"

text \<open>A step of the task, or a notification.\<close>

datatype nw_event = Task_round nw_env | Notify bool nw_msg

definition nw_step :: "nw_api \<Rightarrow> nw_state \<Rightarrow> nw_event \<Rightarrow> (nw_state, nw_call) outcome" where
  "nw_step api s e =
     (case e of
        Notify alloc m \<Rightarrow> (let (r, s1, calls) = network_event_cb alloc m s in Continue s1 calls)
      | Task_round env \<Rightarrow>
          (case pc s of
             Attach_loop \<Rightarrow> attach_loop_test s
           | Wait_attach \<Rightarrow> wait_attach api env s
           | Monitor \<Rightarrow> monitor api env s))"

text \<open>\<^verbatim>\<open>nw_demo_task\<close> up to its first loop; \<open>a\<close> is the answer of the wait for attachment.\<close>

definition nw_demo_task_start :: "bool \<Rightarrow> nw_state \<times> nw_call list" where
  "nw_demo_task_start a =
     (\<lparr>is_attached = a, ps_status = None, nas_type = 0, nas_cause = 0, attach_count = 0, cfun_count = 0,
       cfun_sem = 0, pc = Attach_loop\<rparr>,
      [Sleep_s 3, Create_sem 0] @
      map Register [''PS_REG_STATUS'', ''RRC_STATUS'', ''SIGNAL_QUALITY'', ''NITZ_INFO'', ''NAS_EVENT''] @
      [Read_sim_status, Get_support_band, Get_cfg_band, Wait_attached NW_DEMO_WAIT_ATTACH_MAX_WAIT_TIME])"

section \<open>Signal values\<close>

text \<open>The guard is a comparison in hundredths of a decibel; for \<open>sinr\<close> it is off by one decibel, since the
  division drops the fraction: a signal of 0.99 dB counts as bad, too.\<close>

lemma sdiv_100: "(x :: int) sdiv 100 = (if 0 \<le> x then x div 100 else - (- x div 100))"
  by (simp add: signed_divide_int_def sgn_if)

lemma sdiv_2: "(x :: int) sdiv 2 = (if 0 \<le> x then x div 2 else - (- x div 2))"
  by (simp add: signed_divide_int_def sgn_if)

lemma bad_network_iff:
  "bad_network q \<longleftrightarrow> rsrp q \<le> -11500 \<or> rsrq q \<le> -1500 \<or> sinr q < 100"
proof -
  have "rsrp q sdiv 100 \<le> -115 \<longleftrightarrow> rsrp q \<le> -11500" unfolding sdiv_100 by (simp split: if_split; linarith)
  moreover have "rsrq q sdiv 100 \<le> -15 \<longleftrightarrow> rsrq q \<le> -1500" unfolding sdiv_100 by (simp split: if_split; linarith)
  moreover have "sinr q sdiv 100 \<le> 0 \<longleftrightarrow> sinr q < 100" unfolding sdiv_100 by (simp split: if_split; linarith)
  ultimately show ?thesis by (simp add: bad_network_def)
qed

text \<open>The signal strength reported is one of the values of \<^verbatim>\<open>+CSQ\<close>, whatever the measurement; on the
  reported range it is the measurement in steps of two decibels.\<close>

lemma csq_in_range: "nw_demo_lte_get_csq_rssi meas invalid r \<in> {0..31} \<union> {99}"
proof -
  have *: "(word_of_int (if x = 99 then 99 else if x > 31 then 31 else if x > 0 then x else 0) :: u8) \<in> {0..31} \<union> {99}"
    for x :: int
  proof -
    consider "x = 99" | "x > 31" "x \<noteq> 99" | "x \<le> 0" | "0 < x" "x \<le> 31" by linarith
    then show ?thesis
    proof cases
      case 4
      then have "(word_of_int x :: u8) \<le> word_of_int 31" by (simp add: word_le_def uint_word_of_int)
      with 4 show ?thesis by simp
    qed auto
  qed
  show ?thesis unfolding nw_demo_lte_get_csq_rssi_def Let_def by (rule *)
qed

lemma csq_value:
  assumes "r \<noteq> invalid" "-113 \<le> meas r" "meas r \<le> -50"
  shows "uint (nw_demo_lte_get_csq_rssi meas invalid r) = (meas r + 113) div 2"
proof -
  let ?v = "(meas r + 113) div 2"
  have v: "0 \<le> ?v" "?v \<le> 31" using assms by linarith+
  have "sint (word_of_int ?v :: 16 word) = ?v"
    using v by (subst sint_sbintrunc') (rule signed_take_bit_int_eq_self; simp)
  then show ?thesis
    using assms v by (simp add: nw_demo_lte_get_csq_rssi_def sdiv_2 uint_word_of_int Let_def)
qed

section \<open>Restarts of the modem\<close>

text \<open>The restarts and the five-second waits in a list of calls.\<close>

definition restarts :: "nw_call list \<Rightarrow> nat" where
  "restarts calls = count_list calls (Set_cfun 0)"

definition short_waits :: "nw_call list \<Rightarrow> nat" where
  "short_waits calls = count_list calls (Sleep_s 5)"

definition long_waits :: "nw_call list \<Rightarrow> nat" where
  "long_waits calls = count_list calls (Sleep_s 10)"

lemma counts_append [simp]:
  "restarts (xs @ ys) = restarts xs + restarts ys" "short_waits (xs @ ys) = short_waits xs + short_waits ys"
  "long_waits (xs @ ys) = long_waits xs + long_waits ys"
  by (simp_all add: restarts_def short_waits_def long_waits_def)

lemma counts_simps [simp]:
  "restarts [] = 0" "short_waits [] = 0" "long_waits [] = 0"
  "restarts (c # cs) = of_bool (c = Set_cfun 0) + restarts cs"
  "short_waits (c # cs) = of_bool (c = Sleep_s 5) + short_waits cs"
  "long_waits (c # cs) = of_bool (c = Sleep_s 10) + long_waits cs"
  by (auto simp: restarts_def short_waits_def long_waits_def)

lemma counts_diagnose [simp]:
  "restarts (diagnose r env s) = 0" "short_waits (diagnose r env s) = 0" "long_waits (diagnose r env s) = 0"
  by (auto simp: diagnose_def)

lemma counts_notify:
  assumes "network_event_cb alloc m s = (r, s', calls)"
  shows "restarts calls = 0" "short_waits calls = 0" "pc s' = pc s" "is_attached s' = is_attached s"
    "attach_count s' = attach_count s" "cfun_count s' = cfun_count s" "cfun_sem s' = cfun_sem s"
  using assms
  by (auto simp: network_event_cb_def split: if_splits nw_msg.splits option.splits)

text \<open>As long as the wait for attachment failed at the start, each restart has its own multiple of sixty
  short waits.\<close>

definition spaced :: "nw_state \<Rightarrow> nw_call list \<Rightarrow> bool" where
  "spaced s calls \<longleftrightarrow> \<not> is_attached s \<and> restarts calls = cfun_count s \<and> short_waits calls = attach_count s \<and>
     cfun_count s \<le> NW_DEMO_EXCUTE_CFUN_MAXTIME \<and>
     (if pc s = Attach_loop then 60 * cfun_count s \<le> attach_count s else 60 * cfun_count s < attach_count s)"

lemma cfun_and_wait_Some:
  "cfun_and_wait env f s = Some s' \<Longrightarrow> \<exists>n. s' = s\<lparr>cfun_sem := n\<rparr>"
  by (cases "cfun_cnf env f")
    (auto simp: cfun_and_wait_def nw_demo_set_cfun_cb_def Let_def split: if_splits intro: exI [of _ "cfun_sem s'"])

lemma restart_modem_Continue:
  assumes "restart_modem env s = Continue s' calls"
  shows "\<exists>n. s' = s\<lparr>cfun_sem := n, cfun_count := cfun_count s + 1\<rparr>"
    and "restarts calls = 1" "short_waits calls = 0"
  using assms
  by (auto simp: restart_modem_def split: option.splits dest!: cfun_and_wait_Some)

lemma read_reg_status_ps: "\<exists>p. read_reg_status env s = s\<lparr>ps_status := p\<rparr>"
  by (cases "reg_status env") (auto simp: read_reg_status_def intro: exI [of _ "ps_status s"])

lemma next_multiple:
  assumes "(n :: nat) mod 60 = 0" "60 * k < n"
  shows "60 * Suc k \<le> n"
  using assms by presburger

lemma spaced_wait_attach:
  assumes "spaced s cs" "pc s = Wait_attach" "wait_attach api env s = Continue s' calls"
  shows "spaced s' (cs @ calls)"
proof -
  obtain q where q: "read_reg_status env s = s\<lparr>ps_status := q\<rparr>" using read_reg_status_ps by blast
  obtain p where p: "q = Some p" using assms(3) by (cases q) (simp_all add: wait_attach_def q)
  consider (attached) "attached api p"
    | (quiet) "\<not> attached api p" "\<not> (attach_count s mod 60 = 0 \<and> cfun_count s < NW_DEMO_EXCUTE_CFUN_MAXTIME)"
    | (restart) s2 cs2 where "\<not> attached api p" "attach_count s mod 60 = 0" "cfun_count s < NW_DEMO_EXCUTE_CFUN_MAXTIME"
        "restart_modem env (s\<lparr>ps_status := q\<rparr>) = Continue s2 cs2"
    using assms(3) by (auto simp: wait_attach_def q p Let_def split: outcome.splits if_splits)
  then show ?thesis
  proof cases
    case attached
    then show ?thesis
      using assms by (auto simp: wait_attach_def q p leave_attach_loop_def spaced_def )
  next
    case quiet
    from quiet assms(3) have "s' = s\<lparr>ps_status := q, pc := Attach_loop\<rparr>"
        "calls = [Read_sim_status, Get_reg_status] @ diagnose (attach_reject api) env (s\<lparr>ps_status := q\<rparr>)"
      by (auto simp: wait_attach_def q p Let_def)
    with assms(1,2) show ?thesis by (auto simp: spaced_def)
  next
    case restart
    note r = restart_modem_Continue [OF restart(4)]
    from assms(3) restart have "s' = s2\<lparr>pc := Attach_loop\<rparr>"
        "calls = [Read_sim_status, Get_reg_status] @ cs2 @ diagnose (attach_reject api) env s2"
      by (simp_all add: wait_attach_def q p)
    with assms(1,2) r restart(2,3) next_multiple [OF restart(2), of "cfun_count s"] show ?thesis
      by (auto simp: spaced_def)
  qed
qed

lemma spaced_step:
  assumes "spaced s cs" "nw_step api s e = Continue s' calls"
  shows "spaced s' (cs @ calls)"
proof (cases e)
  case (Notify alloc m)
  obtain r s1 c1 where n: "network_event_cb alloc m s = (r, s1, c1)" by (metis prod_cases3)
  with assms(2) Notify have "s' = s1" "calls = c1" by (simp_all add: nw_step_def)
  with counts_notify [OF n] assms(1) show ?thesis by (simp add: spaced_def)
next
  case (Task_round env)
  show ?thesis
  proof (cases "pc s")
    case Attach_loop
    then show ?thesis
      using assms Task_round by (auto simp: nw_step_def attach_loop_test_def spaced_def )
  next
    case Wait_attach
    with assms Task_round spaced_wait_attach [of s cs api env s' calls] show ?thesis by (simp add: nw_step_def)
  next
    case Monitor
    obtain q where q: "read_reg_status env s = s\<lparr>ps_status := q\<rparr>" using read_reg_status_ps by blast
    then obtain p where p: "q = Some p" using assms Task_round Monitor by (cases q) (simp_all add: nw_step_def monitor_def)
    show ?thesis
      using assms Task_round Monitor
      by (cases "attached api p") (auto simp: nw_step_def monitor_def q p spaced_def )
  qed
qed

interpretation nw_task: traced_loop "nw_step api" spaced for api
  by unfold_locales (rule spaced_step)

text \<open>C12: when the first wait for attachment fails, then in every run of the task, whatever the modem answers
  and reports, the modem is restarted at most ten times, and there are at least sixty waits of five
  seconds for each restart.\<close>

theorem restarts_are_spaced:
  assumes "run_loop (nw_step api) (fst (nw_demo_task_start False)) es = Continue s calls"
  shows "restarts calls \<le> 10 \<and> 60 * restarts calls \<le> short_waits calls"
proof -
  have "spaced (fst (nw_demo_task_start False)) []"
    by (simp add: nw_demo_task_start_def spaced_def )
  from nw_task.run_traced [OF assms this] show ?thesis
    by (auto simp: spaced_def NW_DEMO_EXCUTE_CFUN_MAXTIME_def split: if_splits)
qed

text \<open>An outage: the query answers with a status that is not attached, and the modem confirms restarts.\<close>

definition outage :: "nw_api \<Rightarrow> nw_env \<Rightarrow> bool" where
  "outage api env \<longleftrightarrow> (\<exists>p. reg_status env = Some p \<and> \<not> attached api p) \<and> cfun_cnf env 0 \<and> cfun_cnf env 1"

lemma restart_confirmed:
  assumes "cfun_cnf env 0" "cfun_cnf env 1" "cfun_sem s = 0"
  shows "restart_modem env s = Continue (s\<lparr>cfun_count := cfun_count s + 1\<rparr>) [Set_cfun 0, Sem_wait, Set_cfun 1, Sem_wait]"
  using assms by (simp add: restart_modem_def cfun_and_wait_def nw_demo_set_cfun_cb_def Let_def)

lemma wait_attach_outage:
  assumes "outage api env" "cfun_sem s = 0"
  defines "k \<equiv> of_bool (attach_count s mod 60 = 0 \<and> cfun_count s < 10)"
  obtains s' cs where "wait_attach api env s = Continue s' cs" "pc s' = Attach_loop" "is_attached s' = is_attached s"
    "attach_count s' = attach_count s" "cfun_sem s' = 0" "cfun_count s' = cfun_count s + k"
    "restarts cs = k" "short_waits cs = 0" "long_waits cs = 0"
proof -
  obtain p where p: "reg_status env = Some p" "\<not> attached api p" using assms(1) by (auto simp: outage_def)
  have r: "restart_modem env (s\<lparr>ps_status := Some p\<rparr>) =
      Continue (s\<lparr>ps_status := Some p, cfun_count := cfun_count s + 1\<rparr>) [Set_cfun 0, Sem_wait, Set_cfun 1, Sem_wait]"
    using assms by (subst restart_confirmed) (simp_all add: outage_def)
  show ?thesis
  proof (cases "attach_count s mod 60 = 0 \<and> cfun_count s < 10")
    case True
    then have "wait_attach api env s = Continue (s\<lparr>ps_status := Some p, cfun_count := cfun_count s + 1, pc := Attach_loop\<rparr>)
        ([Read_sim_status, Get_reg_status] @ [Set_cfun 0, Sem_wait, Set_cfun 1, Sem_wait] @
         diagnose (attach_reject api) env (s\<lparr>ps_status := Some p, cfun_count := cfun_count s + 1\<rparr>))"
      by (simp add: wait_attach_def read_reg_status_def p NW_DEMO_EXCUTE_CFUN_MAXTIME_def r Let_def)
    then show ?thesis by (rule that) (use True assms(2) in \<open>simp_all add: k_def\<close>)
  next
    case False
    then have "wait_attach api env s = Continue (s\<lparr>ps_status := Some p, pc := Attach_loop\<rparr>)
        ([Read_sim_status, Get_reg_status] @ diagnose (attach_reject api) env (s\<lparr>ps_status := Some p\<rparr>))"
      by (auto simp: wait_attach_def read_reg_status_def p NW_DEMO_EXCUTE_CFUN_MAXTIME_def Let_def)
    then show ?thesis by (rule that) (use False assms(2) in \<open>auto simp: k_def\<close>)
  qed
qed

text \<open>The state of a task that has not been attached yet, after \<open>n\<close> rounds without registration.\<close>

definition waited :: "nat \<Rightarrow> nw_state \<Rightarrow> nw_call list \<Rightarrow> bool" where
  "waited n s calls \<longleftrightarrow> pc s = Attach_loop \<and> \<not> is_attached s \<and> attach_count s = n \<and> cfun_sem s = 0 \<and>
     cfun_count s = min 10 (n div 60) \<and> restarts calls = min 10 (n div 60) \<and> short_waits calls = n \<and> long_waits calls = 0"

lemma waited_round:
  assumes "outage api env" "waited n s calls"
  shows "\<exists>s' cs. run_loop (nw_step api) s [Task_round env, Task_round env] = Continue s' cs \<and> waited (Suc n) s' (calls @ cs)"
proof -
  let ?s1 = "s\<lparr>attach_count := Suc n, pc := Wait_attach\<rparr>"
  have first: "nw_step api s (Task_round env) = Continue ?s1 [Sleep_s 5]"
    using assms(2) by (simp add: nw_step_def attach_loop_test_def waited_def)
  obtain s' cs where w: "wait_attach api env ?s1 = Continue s' cs"
      "pc s' = Attach_loop" "is_attached s' = is_attached ?s1" "attach_count s' = attach_count ?s1" "cfun_sem s' = 0"
      "cfun_count s' = cfun_count ?s1 + of_bool (attach_count ?s1 mod 60 = 0 \<and> cfun_count ?s1 < 10)"
      "restarts cs = of_bool (attach_count ?s1 mod 60 = 0 \<and> cfun_count ?s1 < 10)" "short_waits cs = 0" "long_waits cs = 0"
    using assms by (elim wait_attach_outage [of api env ?s1]) (simp_all add: waited_def)
  have "min 10 (Suc n div 60) = min 10 (n div 60) + of_bool (Suc n mod 60 = 0 \<and> min 10 (n div 60) < 10)"
    by (auto simp: div_Suc min_def)
  with assms(2) w have "waited (Suc n) s' (calls @ Sleep_s 5 # cs)"
    by (simp add: waited_def)
  moreover have "run_loop (nw_step api) s [Task_round env, Task_round env] = Continue s' (Sleep_s 5 # cs)"
    using first w(1) by (simp add: nw_step_def)
  ultimately show ?thesis by blast
qed

text \<open>C13: without registration from the start, the modem is restarted after every sixtieth wait of five
  seconds, ten times in all: after \<open>n\<close> rounds of the first loop it has been restarted \<open>min 10 (n div 60)\<close>
  times.\<close>

theorem restart_schedule:
  assumes "outage api env"
  shows "\<exists>s calls. run_loop (nw_step api) (fst (nw_demo_task_start False)) (concat (replicate n [Task_round env, Task_round env])) = Continue s calls \<and>
    restarts calls = min 10 (n div 60) \<and> short_waits calls = n \<and> long_waits calls = 0"
proof -
  have "\<exists>s calls. run_loop (nw_step api) (fst (nw_demo_task_start False)) (concat (replicate n [Task_round env, Task_round env])) = Continue s calls \<and>
      waited n s calls"
  proof (induction n)
    case 0
    then show ?case by (simp add: nw_demo_task_start_def waited_def)
  next
    case (Suc n)
    then obtain s calls where run: "run_loop (nw_step api) (fst (nw_demo_task_start False)) (concat (replicate n [Task_round env, Task_round env])) = Continue s calls"
      and w: "waited n s calls" by blast
    from waited_round [OF assms w] run_loop_append [OF run] show ?case by (auto simp: concat_replicate_Suc simp del: replicate_Suc)
  qed
  then show ?thesis by (auto simp: waited_def)
qed

text \<open>Once the task has been attached, the first loop no longer counts its rounds: every failed query of the
  registration restarts the modem at once. Ten queries, ten seconds apart, use up all restarts.\<close>

theorem loss_restarts_at_once:
  assumes "outage api env" "n \<le> 10"
  shows "\<exists>s calls. run_loop (nw_step api) (fst (nw_demo_task_start True)) (Task_round env # concat (replicate n (replicate 3 (Task_round env)))) =
      Continue s calls \<and> restarts calls = n \<and> short_waits calls = 0 \<and> long_waits calls = n"
proof -
  have round: "\<exists>s' cs. run_loop (nw_step api) s (replicate 3 (Task_round env)) = Continue s' cs \<and>
      pc s' = Monitor \<and> is_attached s' \<and> attach_count s' = 0 \<and> cfun_sem s' = 0 \<and> cfun_count s' = Suc (cfun_count s) \<and>
      restarts cs = 1 \<and> short_waits cs = 0 \<and> long_waits cs = 1"
    if s: "pc s = Monitor" "is_attached s" "attach_count s = 0" "cfun_sem s = 0" "cfun_count s < 10" for s
  proof -
    obtain p where p: "reg_status env = Some p" "\<not> attached api p" using assms(1) by (auto simp: outage_def)
    let ?s1 = "s\<lparr>ps_status := Some p, pc := Wait_attach\<rparr>"
    have "nw_step api s (Task_round env) = Continue ?s1 [Sleep_s 10, Get_reg_status]"
      using s p by (simp add: nw_step_def monitor_def read_reg_status_def)
    moreover obtain s2 cs where w: "wait_attach api env ?s1 = Continue s2 cs" "pc s2 = Attach_loop" "is_attached s2"
        "attach_count s2 = 0" "cfun_sem s2 = 0" "cfun_count s2 = Suc (cfun_count s)" "restarts cs = 1" "short_waits cs = 0" "long_waits cs = 0"
      using assms s by (elim wait_attach_outage [of api env ?s1]) simp_all
    moreover have "nw_step api ?s1 (Task_round env) = Continue s2 cs" using w(1) by (simp add: nw_step_def)
    moreover have "nw_step api s2 (Task_round env) = Continue (leave_attach_loop s2) []"
      using w by (simp add: nw_step_def attach_loop_test_def)
    ultimately show ?thesis by (simp add: numeral_3_eq_3 leave_attach_loop_def)
  qed
  let ?s0 = "fst (nw_demo_task_start True)"
  have "\<exists>s calls. run_loop (nw_step api) ?s0 (Task_round env # concat (replicate n (replicate 3 (Task_round env)))) = Continue s calls \<and>
      pc s = Monitor \<and> is_attached s \<and> attach_count s = 0 \<and> cfun_sem s = 0 \<and> cfun_count s = n \<and>
      restarts calls = n \<and> short_waits calls = 0 \<and> long_waits calls = n"
    using assms(2)
  proof (induction n)
    case 0
    then show ?case by (simp add: nw_demo_task_start_def nw_step_def attach_loop_test_def leave_attach_loop_def)
  next
    case (Suc n)
    then obtain s calls where run: "run_loop (nw_step api) ?s0 (Task_round env # concat (replicate n (replicate 3 (Task_round env)))) = Continue s calls"
      and s: "pc s = Monitor" "is_attached s" "attach_count s = 0" "cfun_sem s = 0" "cfun_count s = n"
      and c: "restarts calls = n" "short_waits calls = 0" "long_waits calls = n" by auto
    from round [OF s(1-4)] s(5) Suc.prems obtain s' cs where r: "run_loop (nw_step api) s (replicate 3 (Task_round env)) = Continue s' cs"
      and s': "pc s' = Monitor" "is_attached s'" "attach_count s' = 0" "cfun_sem s' = 0" "cfun_count s' = Suc n"
      and cs: "restarts cs = 1" "short_waits cs = 0" "long_waits cs = 1" by auto
    from run_loop_append [OF run, of "replicate 3 (Task_round env)"] r s' c cs show ?case
      by (simp add: concat_replicate_Suc del: replicate_Suc run_loop.simps)
  qed
  then show ?thesis by blast
qed

section \<open>The data call task\<close>

definition DATACALL_DEMO_WAIT_ATTACH_MAX_WAIT_TIME :: int where "DATACALL_DEMO_WAIT_ATTACH_MAX_WAIT_TIME = 300"
definition DATACALL_DEMO_WAIT_DATACALL_MAX_WAIT_TIME :: int where "DATACALL_DEMO_WAIT_DATACALL_MAX_WAIT_TIME = 120"

datatype dcall_call =
    Dc_wait_attached int
  | Dc_register_deact
  | Dc_unregister_deact
  | Dc_set_context int int string
  | Dc_conn_new int int
  | Dc_start int
  | Dc_status
  | Dc_ip_info
  | Dc_ntop_v4
  | Dc_ntop_v6
  | Dc_sleep int
  | Dc_create_queue nat
  | Dc_delete_queue
  | Dc_delete_task

text \<open>A message carries the address of the block the callback allocated; blocks are numbered. The
  indication is \<^verbatim>\<open>datacall_demo_pdp_deact_ind_t\<close>.\<close>

record deact_ind =
  deact_simid :: u8
  deact_pdpid :: u8

record dcall_state =
  dc_queue :: "nat list"
  dc_heap :: "nat \<Rightarrow> deact_ind option"
  dc_next :: nat
  retry_count :: nat

text \<open>\<^verbatim>\<open>datacall_nw_deact_pdp_cb\<close>; \<open>room\<close> says whether the queue takes the message, which the code ignores.\<close>

definition datacall_nw_deact_pdp_cb :: "bool \<Rightarrow> bool \<Rightarrow> deact_ind \<Rightarrow> dcall_state \<Rightarrow> int \<times> dcall_state" where
  "datacall_nw_deact_pdp_cb alloc room ind s =
     (if \<not> alloc then (0, s)
      else
        let a = dc_next s;
            s1 = s\<lparr>dc_heap := (dc_heap s)(a \<mapsto> ind), dc_next := Suc a\<rparr>
        in (0, if room then s1\<lparr>dc_queue := dc_queue s1 @ [a]\<rparr> else s1))"

text \<open>The loop around \<^verbatim>\<open>qosa_datacall_start\<close>; \<open>starts k\<close> says whether attempt \<open>k\<close> succeeds.\<close>

function restart_loop :: "(nat \<Rightarrow> bool) \<Rightarrow> nat \<Rightarrow> nat \<Rightarrow> bool \<times> nat \<times> dcall_call list" where
  "restart_loop starts k retry =
     (if starts k then (True, retry, [Dc_start DATACALL_DEMO_WAIT_DATACALL_MAX_WAIT_TIME])
      else if retry < 10 then
        (let (r, n, calls) = restart_loop starts (Suc k) (Suc retry)
         in (r, n, [Dc_start DATACALL_DEMO_WAIT_DATACALL_MAX_WAIT_TIME, Dc_sleep 20] @ calls))
      else (False, retry, [Dc_start DATACALL_DEMO_WAIT_DATACALL_MAX_WAIT_TIME]))"
  by pat_completeness auto
termination
  by (relation "measure (\<lambda>(starts, k, retry). 10 - retry)") auto

declare restart_loop.simps [simp del]

text \<open>The queries after a start, and the conversions of the addresses by type.\<close>

definition show_ip_info :: "ip_type \<Rightarrow> dcall_call list" where
  "show_ip_info t =
     [Dc_status, Dc_ip_info] @
     (case t of IP_V4 \<Rightarrow> [Dc_ntop_v4] | IP_V6 \<Rightarrow> [Dc_ntop_v6] | IP_V4V6 \<Rightarrow> [Dc_ntop_v4, Dc_ntop_v6])"

text \<open>One message of the loop. The handler reads the block and frees it.\<close>

definition datacall_deact :: "(nat \<Rightarrow> bool) \<Rightarrow> ip_type \<Rightarrow> dcall_state \<Rightarrow> (dcall_state, dcall_call) outcome" where
  "datacall_deact starts t s =
     (case dc_queue s of [] \<Rightarrow> Continue s []
      | a # q \<Rightarrow>
        (case dc_heap s a of None \<Rightarrow> Undefined Use_after_free
         | Some ind \<Rightarrow>
           let (ok, n, calls) = restart_loop starts 0 (retry_count s) in
           Continue (s\<lparr>dc_queue := q, dc_heap := (dc_heap s)(a := None), retry_count := (if ok then 0 else n)\<rparr>)
             (calls @ (if ok then show_ip_info t else []))))"

datatype dcall_event = Deactivated bool bool deact_ind | Serve "nat \<Rightarrow> bool" ip_type

definition dcall_step :: "dcall_state \<Rightarrow> dcall_event \<Rightarrow> (dcall_state, dcall_call) outcome" where
  "dcall_step s e =
     (case e of
        Deactivated alloc room ind \<Rightarrow> Continue (snd (datacall_nw_deact_pdp_cb alloc room ind s)) []
      | Serve starts t \<Rightarrow> datacall_deact starts t s)"

text \<open>\<^verbatim>\<open>datacall_demo_task\<close> up to its loop; \<open>Exit\<close> is the jump to \<^verbatim>\<open>exit\<close>.\<close>

definition datacall_demo_start :: "bool \<Rightarrow> bool \<Rightarrow> ip_type \<Rightarrow> (dcall_state, dcall_call) outcome" where
  "datacall_demo_start is_att start_ok t =
     (let s = \<lparr>dc_queue = [], dc_heap = Map.empty, dc_next = 0, retry_count = 0\<rparr>;
          leave = [Dc_unregister_deact, Dc_delete_queue, Dc_delete_task];
          try = [Dc_create_queue 20, Dc_sleep 3, Dc_wait_attached DATACALL_DEMO_WAIT_ATTACH_MAX_WAIT_TIME]
      in if \<not> is_att then Exit s (try @ leave)
         else
           let setup = try @ [Dc_register_deact, Dc_set_context 0 1 ''test'', Dc_conn_new 0 1,
                              Dc_start DATACALL_DEMO_WAIT_DATACALL_MAX_WAIT_TIME]
           in if \<not> start_ok then Exit s (setup @ leave) else Continue s (setup @ show_ip_info t))"

section \<open>Properties of the data call\<close>

text \<open>Every queued message owns a live block of its own. Blocks are allocated with fresh numbers.\<close>

definition dcall_inv :: "dcall_state \<Rightarrow> bool" where
  "dcall_inv s \<longleftrightarrow> distinct (dc_queue s) \<and> (\<forall>a \<in> set (dc_queue s). dc_heap s a \<noteq> None) \<and>
     (\<forall>a. dc_heap s a \<noteq> None \<longrightarrow> a < dc_next s) \<and> retry_count s \<le> 10"

lemma restart_loop_bound:
  "restart_loop starts k retry = (ok, n, calls) \<Longrightarrow> retry \<le> 10 \<Longrightarrow> retry \<le> n \<and> n \<le> 10 \<and> (\<not> ok \<longrightarrow> n = 10)"
proof (induction starts k retry arbitrary: ok n calls rule: restart_loop.induct)
  case (1 starts k retry)
  then show ?case
    by (subst (asm) (2) restart_loop.simps) (fastforce simp: Let_def split: if_splits prod.splits)
qed

lemma dcall_step_inv: "dcall_inv s \<Longrightarrow> outcome_inv dcall_inv (\<lambda>_. False) (dcall_step s e)"
proof (cases e)
  case (Deactivated alloc room ind)
  assume inv: "dcall_inv s"
  then have "dc_next s \<notin> set (dc_queue s)" by (auto simp: dcall_inv_def)
  with inv Deactivated show ?thesis
    by (auto simp: dcall_step_def datacall_nw_deact_pdp_cb_def dcall_inv_def Let_def)
next
  case (Serve starts t)
  assume inv: "dcall_inv s"
  obtain ok n calls where r: "restart_loop starts 0 (retry_count s) = (ok, n, calls)" by (metis prod_cases3)
  with restart_loop_bound [OF r] inv Serve show ?thesis
    by (cases "dc_queue s") (auto simp: dcall_step_def datacall_deact_def dcall_inv_def split: if_splits)
qed

interpretation dcall_task: event_loop dcall_step dcall_inv "\<lambda>_. False" "\<lambda>_ _. True"
  by unfold_locales (rule dcall_step_inv)

lemma restart_loop_succeeds:
  assumes "starts (k + j)" "\<forall>i<j. \<not> starts (k + i)" "retry + j \<le> 10"
  shows "restart_loop starts k retry = (True, retry + j, concat (replicate j [Dc_start 120, Dc_sleep 20]) @ [Dc_start 120])"
  using assms
proof (induction j arbitrary: k retry)
  case 0
  then show ?case by (subst restart_loop.simps) (simp add: DATACALL_DEMO_WAIT_DATACALL_MAX_WAIT_TIME_def)
next
  case (Suc j)
  have "restart_loop starts (Suc k) (Suc retry) =
      (True, Suc retry + j, concat (replicate j [Dc_start 120, Dc_sleep 20]) @ [Dc_start 120])"
    using Suc.prems by (intro Suc.IH) auto
  moreover have "\<not> starts k" using Suc.prems(2) by (metis add_0_right zero_less_Suc)
  ultimately show ?case
    using Suc.prems(3) by (subst restart_loop.simps) (simp add: DATACALL_DEMO_WAIT_DATACALL_MAX_WAIT_TIME_def)
qed

lemma restart_loop_fails:
  assumes "\<forall>i. \<not> starts i" "retry \<le> 10"
  shows "restart_loop starts k retry = (False, 10, concat (replicate (10 - retry) [Dc_start 120, Dc_sleep 20]) @ [Dc_start 120])"
  using assms(2)
proof (induction "10 - retry" arbitrary: k retry)
  case 0
  then show ?case
    using assms(1) by (subst restart_loop.simps) (simp add: DATACALL_DEMO_WAIT_DATACALL_MAX_WAIT_TIME_def)
next
  case (Suc n)
  have "restart_loop starts (Suc k) (Suc retry) =
      (False, 10, concat (replicate (10 - Suc retry) [Dc_start 120, Dc_sleep 20]) @ [Dc_start 120])"
    using Suc by (intro Suc.hyps) auto
  moreover have "replicate (10 - retry) xs = xs # replicate (10 - Suc retry) xs" for xs :: "dcall_call list"
    using Suc by (simp flip: replicate_Suc add: Suc_diff_Suc)
  ultimately show ?case
    using assms(1) Suc by (subst restart_loop.simps) (simp add: DATACALL_DEMO_WAIT_DATACALL_MAX_WAIT_TIME_def)
qed


text \<open>A recovery that fails uses up the retries for good: the counter is reset only on success, so every
  later deactivation gets a single attempt.\<close>

theorem failed_recovery_uses_up_retries:
  assumes "dcall_inv s" "dc_queue s = a # b # q" "retry_count s = 0" "\<forall>i. \<not> starts i" "\<not> later 0"
  shows "\<exists>s'. run_loop dcall_step s [Serve starts t, Serve later t] =
    Continue s' (concat (replicate 10 [Dc_start 120, Dc_sleep 20]) @ [Dc_start 120] @ [Dc_start 120]) \<and>
    dc_queue s' = q \<and> retry_count s' = 10"
proof -
  have live: "dc_heap s a \<noteq> None" "dc_heap s b \<noteq> None" "a \<noteq> b" using assms(1,2) by (auto simp: dcall_inv_def)
  have "restart_loop later 0 10 = (False, 10, [Dc_start 120])"
    using assms(5) by (subst restart_loop.simps) (simp add: DATACALL_DEMO_WAIT_DATACALL_MAX_WAIT_TIME_def)
  then show ?thesis
    using assms(2,3) live restart_loop_fails [OF assms(4), of 0 0]
    by (auto simp: dcall_step_def datacall_deact_def)
qed

text \<open>Without a message the queue refuses, the blocks in use are those of the queued messages.\<close>

lemma dcall_no_leak:
  assumes "dcall_inv s" "dom (dc_heap s) = set (dc_queue s)" "dcall_step s e = Continue s' calls"
    and "\<forall>alloc room ind. e = Deactivated alloc room ind \<longrightarrow> room"
  shows "dom (dc_heap s') = set (dc_queue s')"
proof (cases e)
  case (Deactivated alloc room ind)
  have "room" using assms(4) Deactivated by blast
  moreover have "s' = snd (datacall_nw_deact_pdp_cb alloc room ind s)"
    using assms(3) Deactivated by (simp add: dcall_step_def)
  ultimately show ?thesis using assms(2) by (simp add: datacall_nw_deact_pdp_cb_def Let_def)
next
  case (Serve starts t)
  show ?thesis
  proof (cases "dc_queue s")
    case Nil
    with assms(2,3) Serve show ?thesis by (simp add: dcall_step_def datacall_deact_def)
  next
    case (Cons a q)
    with assms(3) Serve have "dc_queue s' = q" "dc_heap s' = (dc_heap s)(a := None)"
      by (auto simp: dcall_step_def datacall_deact_def split: option.splits prod.splits)
    moreover have "a \<notin> set q" using assms(1) Cons by (simp add: dcall_inv_def)
    ultimately show ?thesis using assms(2) Cons by simp
  qed
qed

section \<open>Example inputs\<close>

definition nw_example_api :: nw_api where
  "nw_example_api = \<lparr>attached = (\<lambda>p. p = 1 \<or> p = 5), rssi_meas = (\<lambda>r. r div 100), pi_int16 = 32767, attach_reject = 2\<rparr>"

definition nw_example_env :: nw_env where
  "nw_example_env = \<lparr>reg_status = Some 2, cfun_cnf = (\<lambda>_. True), locked_freqs = 0, plmn_valid = True,
     scell = \<lparr>rsrp = -9000, rsrq = -900, sinr = 1200\<rparr>, scell_ok = True, rat_4g = True, scell_rssi = -7000\<rparr>"

lemma nw_example_outage: "outage nw_example_api nw_example_env"
  by (simp add: outage_def nw_example_api_def nw_example_env_def)

theorem restart_schedule_witness:
  "\<exists>s calls. run_loop (nw_step nw_example_api) (fst (nw_demo_task_start False))
      (concat (replicate 130 [Task_round nw_example_env, Task_round nw_example_env])) = Continue s calls \<and>
    restarts calls = 2 \<and> short_waits calls = 130 \<and> long_waits calls = 0"
  using restart_schedule [OF nw_example_outage, of 130] by simp

theorem loss_restarts_at_once_witness:
  "\<exists>s calls. run_loop (nw_step nw_example_api) (fst (nw_demo_task_start True))
      (Task_round nw_example_env # concat (replicate 4 (replicate 3 (Task_round nw_example_env)))) = Continue s calls \<and>
    restarts calls = 4 \<and> short_waits calls = 0 \<and> long_waits calls = 4"
  using loss_restarts_at_once [OF nw_example_outage, of 4] by simp

theorem restarts_are_spaced_witness:
  "restarts [Sleep_s 5, Read_sim_status, Get_reg_status, Get_freq_lock, Get_scell] \<le> 10 \<and>
   60 * restarts [Sleep_s 5, Read_sim_status, Get_reg_status, Get_freq_lock, Get_scell] \<le>
     short_waits [Sleep_s 5, Read_sim_status, Get_reg_status, Get_freq_lock, Get_scell]"
  by (rule restarts_are_spaced [of nw_example_api "[Task_round nw_example_env, Task_round nw_example_env]"
        "fst (nw_demo_task_start False)\<lparr>ps_status := Some 2, attach_count := 1\<rparr>"])
    (simp add: nw_demo_task_start_def nw_step_def attach_loop_test_def wait_attach_def read_reg_status_def diagnose_def
      nw_example_api_def nw_example_env_def bad_network_iff)

definition dcall_example :: dcall_state where
  "dcall_example = \<lparr>dc_queue = [0, 1], dc_heap = [0 \<mapsto> \<lparr>deact_simid = 0, deact_pdpid = 1\<rparr>, 1 \<mapsto> \<lparr>deact_simid = 0, deact_pdpid = 1\<rparr>],
     dc_next = 2, retry_count = 0\<rparr>"


theorem failed_recovery_uses_up_retries_witness:
  "\<exists>s'. run_loop dcall_step dcall_example [Serve (\<lambda>i. False) IP_V4, Serve (\<lambda>i. i = 1) IP_V4] =
    Continue s' (concat (replicate 10 [Dc_start 120, Dc_sleep 20]) @ [Dc_start 120] @ [Dc_start 120]) \<and>
    dc_queue s' = [] \<and> retry_count s' = 10"
  by (rule failed_recovery_uses_up_retries) (auto simp: dcall_example_def dcall_inv_def)

end
