(* ===== verification/Qvsim.thy ===== *)
theory Qvsim
  imports UniRTOS_Prelude
begin

text \<open>
  The virtual SIM demo, \<^verbatim>\<open>network/qvsim/qvsim_demo.c\<close>: callbacks of the virtual SIM service and of the SIM
  status pack an event into a message, the task takes it from its queue and acts on it.

  A message holds a union. The model keeps which member was written last; reading a different member is
  the value \<open>Inl Uninitialised\<close>, except that all members read as zero after the \<^verbatim>\<open>memset\<close>.
\<close>

section \<open>Messages\<close>

text \<open>\<^verbatim>\<open>qosa_qvsim_event_e\<close>, and \<open>SIM_PIN_READY\<close> which the demo adds.\<close>

datatype qvsim_event =
    INIT_DONE | SELECT_PROFILE | START_PROFILE | SWITCH_IR | OTA_ADD_PROFILE | OTA_DELETE_PROFILE
  | OTA_SWITCH_PROFILE | OTA_NO_TASK | OTA_CONNECTED | OTA_FINISHED | OTA_ERROR | SIM_PIN_READY

datatype qvsim_data =
    Zeroed
  | Result_code int
  | Text_buff string        \<comment> \<open>all 32 bytes\<close>

record demo_qvsim_msg =
  event_id :: qvsim_event
  msg_data :: qvsim_data

definition read_result_code :: "qvsim_data \<Rightarrow> int c_result" where
  "read_result_code d = (case d of Zeroed \<Rightarrow> Inr 0 | Result_code r \<Rightarrow> Inr r | Text_buff _ \<Rightarrow> Inl Uninitialised)"

definition read_text_buff :: "qvsim_data \<Rightarrow> string c_result" where
  "read_text_buff d =
     (case d of Zeroed \<Rightarrow> Inr (replicate 32 NUL) | Text_buff t \<Rightarrow> Inr t | Result_code _ \<Rightarrow> Inl Uninitialised)"

section \<open>State and environment\<close>

datatype qvsim_call =
    Register_vsim_events
  | Register_sim_status
  | Get_uid
  | Get_version
  | Get_status
  | Set_ota_config string string string int
  | Start_ota
  | List_profiles
  | Log_profile nat int string
  | Log_iccid string
  | Vsim_sleep int
  | Vsim_stop
  | Vsim_start
  | Read_imsi int

text \<open>\<^verbatim>\<open>g_qvsim_demo_queue\<close>: \<open>None\<close> before it is created.\<close>

record qvsim_state =
  vs_queue :: "demo_qvsim_msg list option"

text \<open>Answers of the service while a message is handled: the profiles written to the array and the number
  reported, or \<open>None\<close> for an error.\<close>

record qvsim_env =
  vs_disabled :: bool
  vs_profiles :: "((int \<times> string) list \<times> u8) option"

text \<open>The arguments of the event as the service passes them; the fields of the configuration structure
  have the sizes of the platform.\<close>

record qvsim_api =
  url_size :: nat
  username_size :: nat
  password_size :: nat

section \<open>Callbacks\<close>

definition vs_post :: "bool \<Rightarrow> demo_qvsim_msg \<Rightarrow> qvsim_state \<Rightarrow> qvsim_state" where
  "vs_post room m s =
     (case vs_queue s of None \<Rightarrow> s | Some q \<Rightarrow> if room then s\<lparr>vs_queue := Some (q @ [m])\<rparr> else s)"

definition demo_sim_status_event_callback :: "bool \<Rightarrow> bool \<Rightarrow> int \<Rightarrow> qvsim_state \<Rightarrow> int \<times> qvsim_state" where
  "demo_sim_status_event_callback room ready cause s =
     (if ready \<and> cause = 0 then (0, vs_post room \<lparr>event_id = SIM_PIN_READY, msg_data = Zeroed\<rparr> s) else (0, s))"

text \<open>\<open>res\<close> and \<open>iccid\<close> are the members of the event's data the callback reads.\<close>

definition demo_qvsim_pack :: "qvsim_event \<Rightarrow> int \<Rightarrow> string \<Rightarrow> demo_qvsim_msg" where
  "demo_qvsim_pack ev res iccid =
     \<lparr>event_id = ev,
      msg_data =
        (case ev of
           START_PROFILE \<Rightarrow> Result_code res
         | SELECT_PROFILE \<Rightarrow> Result_code res
         | OTA_FINISHED \<Rightarrow> Result_code res
         | OTA_ERROR \<Rightarrow> Result_code res
         | OTA_ADD_PROFILE \<Rightarrow> Text_buff (strncpy_buf (replicate 32 NUL) iccid 31)
         | OTA_SWITCH_PROFILE \<Rightarrow> Text_buff (strncpy_buf (replicate 32 NUL) iccid 31)
         | OTA_DELETE_PROFILE \<Rightarrow> Text_buff (strncpy_buf (replicate 32 NUL) iccid 31)
         | _ \<Rightarrow> Zeroed)\<rparr>"

definition demo_qvsim_event_callback :: "bool \<Rightarrow> qvsim_event \<Rightarrow> int \<Rightarrow> string \<Rightarrow> qvsim_state \<Rightarrow> qvsim_state" where
  "demo_qvsim_event_callback room ev res iccid s = vs_post room (demo_qvsim_pack ev res iccid) s"

section \<open>The task\<close>

definition business_show_device_info :: "qvsim_call list" where
  "business_show_device_info = [Get_uid, Get_version]"

text \<open>The loop over the array of ten profiles on the stack, of which the service has written a part.\<close>

fun log_profiles :: "(int \<times> string) list \<Rightarrow> nat \<Rightarrow> nat \<Rightarrow> qvsim_call list c_result" where
  "log_profiles ps i 0 = Inr []"
| "log_profiles ps i (Suc n) =
     (if 10 \<le> i then Inl Out_of_bounds
      else if length ps \<le> i then Inl Uninitialised
      else c_bind (log_profiles ps (Suc i) n) (\<lambda>calls.
        Inr (Log_profile i (fst (ps ! i)) (c_str (snd (ps ! i))) # calls)))"

definition business_list_profiles :: "qvsim_env \<Rightarrow> qvsim_call list c_result" where
  "business_list_profiles env =
     (case vs_profiles env of
        None \<Rightarrow> Inr [List_profiles]
      | Some (ps, n) \<Rightarrow> c_bind (log_profiles ps 0 (unat n)) (\<lambda>calls. Inr (List_profiles # calls)))"

definition business_trigger_ota :: "qvsim_api \<Rightarrow> qvsim_call list" where
  "business_trigger_ota api =
     [Set_ota_config (c_str (strncpy_buf (replicate (url_size api) NUL) ''ota-server.com:443'' (url_size api - 1)))
        (c_str (strncpy_buf (replicate (username_size api) NUL) ''user'' (username_size api - 1)))
        (c_str (strncpy_buf (replicate (password_size api) NUL) ''password'' (password_size api - 1))) 120,
      Start_ota]"

definition qvsim_dispatch :: "qvsim_api \<Rightarrow> qvsim_env \<Rightarrow> demo_qvsim_msg \<Rightarrow> qvsim_call list c_result" where
  "qvsim_dispatch api env m =
     (case event_id m of
        INIT_DONE \<Rightarrow>
          if vs_disabled env then Inr (Get_status # business_trigger_ota api)
          else c_bind (business_list_profiles env) (\<lambda>calls. Inr (Get_status # calls @ [Vsim_sleep 10, Vsim_stop]))
      | START_PROFILE \<Rightarrow>
          c_bind (read_result_code (msg_data m)) (\<lambda>r. if r = 0 then business_list_profiles env else Inr [])
      | OTA_ADD_PROFILE \<Rightarrow> c_bind (read_text_buff (msg_data m)) (\<lambda>t. Inr [Log_iccid (c_str t)])
      | OTA_FINISHED \<Rightarrow>
          c_bind (read_result_code (msg_data m)) (\<lambda>r.
          c_bind (business_list_profiles env) (\<lambda>calls. Inr (calls @ [Vsim_start])))
      | OTA_ERROR \<Rightarrow> c_bind (read_result_code (msg_data m)) (\<lambda>r. Inr [])
      | SIM_PIN_READY \<Rightarrow> Inr [Read_imsi 0]
      | _ \<Rightarrow> Inr [])"

datatype qvsim_input =
    Vs_event bool qvsim_event int string
  | Vs_sim_status bool bool int
  | Vs_round qvsim_env

definition qvsim_step :: "qvsim_api \<Rightarrow> qvsim_state \<Rightarrow> qvsim_input \<Rightarrow> (qvsim_state, qvsim_call) outcome" where
  "qvsim_step api s e =
     (case e of
        Vs_event room ev res iccid \<Rightarrow> Continue (demo_qvsim_event_callback room ev res iccid s) []
      | Vs_sim_status room ready cause \<Rightarrow> Continue (snd (demo_sim_status_event_callback room ready cause s)) []
      | Vs_round env \<Rightarrow>
          (case vs_queue s of
             Some (m # q) \<Rightarrow>
               (case qvsim_dispatch api env m of
                  Inl u \<Rightarrow> Undefined u
                | Inr calls \<Rightarrow> Continue (s\<lparr>vs_queue := Some q\<rparr>) calls)
           | _ \<Rightarrow> Continue s []))"

text \<open>\<^verbatim>\<open>qvsim_demo_task_entry\<close> up to its loop; \<open>None\<close> when the queue cannot be created.\<close>

definition qvsim_demo_task_start :: "bool \<Rightarrow> (qvsim_state \<times> qvsim_call list) option" where
  "qvsim_demo_task_start created =
     (if created
      then Some (\<lparr>vs_queue = Some []\<rparr>, [Register_vsim_events, Register_sim_status] @ business_show_device_info)
      else None)"

section \<open>Properties\<close>

text \<open>The member of the union the task reads for an event is the one the callbacks write.\<close>

definition well_typed :: "demo_qvsim_msg \<Rightarrow> bool" where
  "well_typed m \<longleftrightarrow>
     (event_id m \<in> {START_PROFILE, SELECT_PROFILE, OTA_FINISHED, OTA_ERROR} \<longrightarrow> (\<exists>r. msg_data m = Result_code r)) \<and>
     (event_id m \<in> {OTA_ADD_PROFILE, OTA_SWITCH_PROFILE, OTA_DELETE_PROFILE} \<longrightarrow>
        (\<exists>t. msg_data m = Text_buff t \<and> length t = 32 \<and> last t = NUL))"

definition qvsim_inv :: "qvsim_state \<Rightarrow> bool" where
  "qvsim_inv s \<longleftrightarrow> (\<forall>q. vs_queue s = Some q \<longrightarrow> list_all well_typed q)"

text \<open>The service writes the profiles it counts, at most as many as it was given room for.\<close>

definition qvsim_ok :: "qvsim_input \<Rightarrow> bool" where
  "qvsim_ok e \<longleftrightarrow>
     (\<forall>env ps n. e = Vs_round env \<longrightarrow> vs_profiles env = Some (ps, n) \<longrightarrow> length ps = unat n \<and> unat n \<le> 10)"

lemma strncpy_terminated:
  assumes "n < m"
  shows "length (strncpy_buf (replicate m NUL) t n) = m" "last (strncpy_buf (replicate m NUL) t n) = NUL"
    "c_str (strncpy_buf (replicate m NUL) t n) = take n (c_str t)"
proof -
  have "take n (c_str t @ replicate n NUL) = take n (c_str t) @ replicate (n - length (c_str t)) NUL" by simp
  then have *: "strncpy_buf (replicate m NUL) t n = take n (c_str t) @ replicate (m - min n (length (c_str t))) NUL"
    using assms by (auto simp: strncpy_buf_def min_def replicate_add [symmetric])
  show "length (strncpy_buf (replicate m NUL) t n) = m" "last (strncpy_buf (replicate m NUL) t n) = NUL"
    using assms by (simp_all add: * last_append min_def)
  show "c_str (strncpy_buf (replicate m NUL) t n) = take n (c_str t)"
    unfolding * by (rule c_str_padded) (meson in_set_takeD nul_notin_c_str)
qed

lemma pack_well_typed: "well_typed (demo_qvsim_pack ev res iccid)"
  by (cases ev) (simp_all add: well_typed_def demo_qvsim_pack_def strncpy_terminated)

lemma vs_post_inv: "qvsim_inv s \<Longrightarrow> well_typed m \<Longrightarrow> qvsim_inv (vs_post room m s)"
  by (auto simp: vs_post_def qvsim_inv_def split: option.splits)

lemma log_profiles_all:
  "i + n \<le> length ps \<Longrightarrow> length ps \<le> 10 \<Longrightarrow>
   log_profiles ps i n = Inr (map (\<lambda>j. Log_profile j (fst (ps ! j)) (c_str (snd (ps ! j)))) [i..<i + n])"
  by (induction n arbitrary: i) (simp_all add: upt_conv_Cons del: upt_Suc)

lemma list_profiles_defined:
  assumes "qvsim_ok (Vs_round env)"
  shows "\<exists>calls. business_list_profiles env = Inr calls"
proof (cases "vs_profiles env")
  case (Some a)
  moreover obtain ps n where "a = (ps, n)" by (cases a)
  ultimately show ?thesis
    using assms log_profiles_all [of 0 "unat n" ps] by (simp add: business_list_profiles_def qvsim_ok_def)
qed (simp add: business_list_profiles_def)

lemma dispatch_defined:
  assumes "qvsim_ok (Vs_round env)" "well_typed m"
  shows "\<exists>calls. qvsim_dispatch api env m = Inr calls"
proof -
  obtain calls where "business_list_profiles env = Inr calls" using list_profiles_defined [OF assms(1)] by blast
  then show ?thesis
    using assms(2)
    by (cases "event_id m") (auto simp: qvsim_dispatch_def well_typed_def read_result_code_def read_text_buff_def)
qed

lemma qvsim_step_inv:
  assumes "qvsim_inv s" "qvsim_ok e"
  shows "outcome_inv qvsim_inv (\<lambda>_. False) (qvsim_step api s e)"
proof (cases e)
  case (Vs_event room ev res iccid)
  then show ?thesis
    using assms by (simp add: qvsim_step_def demo_qvsim_event_callback_def vs_post_inv pack_well_typed)
next
  case (Vs_sim_status room ready cause)
  then show ?thesis
    using assms by (auto simp: qvsim_step_def demo_sim_status_event_callback_def well_typed_def intro!: vs_post_inv)
next
  case (Vs_round env)
  show ?thesis
  proof (cases "\<exists>m q. vs_queue s = Some (m # q)")
    case True
    then obtain m q where q: "vs_queue s = Some (m # q)" by blast
    with assms have "well_typed m" by (simp add: qvsim_inv_def)
    with assms(2) Vs_round obtain calls where "qvsim_dispatch api env m = Inr calls" using dispatch_defined by blast
    with assms q Vs_round show ?thesis by (simp add: qvsim_step_def qvsim_inv_def)
  next
    case False
    with assms Vs_round show ?thesis by (auto simp: qvsim_step_def split: option.split list.split)
  qed
qed

interpretation qvsim_task: event_loop "qvsim_step api" qvsim_inv "\<lambda>_. False" "\<lambda>_. qvsim_ok" for api
  by unfold_locales (rule qvsim_step_inv)

text \<open>C18: in every run of the started task the union of each queued message holds the member that belongs to
  its event, with a terminated text, and no handler reads a member that was not written or a profile the
  service has not filled in, provided the service counts the profiles it writes.\<close>

theorem qvsim_run_typed:
  assumes "qvsim_demo_task_start True = Some (s, calls)" "list_all qvsim_ok es"
  shows "\<exists>s' calls'. run_loop (qvsim_step api) s es = Continue s' calls' \<and>
    (\<forall>q. vs_queue s' = Some q \<longrightarrow> list_all well_typed q)"
proof -
  have "qvsim_inv s" using assms(1) by (auto simp: qvsim_demo_task_start_def qvsim_inv_def)
  moreover have "all_ok (qvsim_step api) (\<lambda>_. qvsim_ok) s es" using assms(2) by (rule all_ok_list_all)
  ultimately have "outcome_inv qvsim_inv (\<lambda>_. False) (run_loop (qvsim_step api) s es)" by (rule qvsim_task.run_sound)
  then show ?thesis by (cases rule: outcome_inv_cases) (auto simp: qvsim_inv_def)
qed

text \<open>The number of an added profile reaches the task as the service reported it, cut to 31 characters,
  although the callback's data is gone by then.\<close>

theorem iccid_round_trip:
  assumes "vs_queue s = Some []"
  shows "run_loop (qvsim_step api) s [Vs_event True OTA_ADD_PROFILE res iccid, Vs_round env] =
    Continue s [Log_iccid (take 31 (c_str iccid))]"
  using assms
  by (simp add: qvsim_step_def demo_qvsim_event_callback_def vs_post_def demo_qvsim_pack_def qvsim_dispatch_def
      read_text_buff_def strncpy_terminated)

text \<open>The task starts the service when the download has finished, whatever its result.\<close>

lemma finished_starts_service:
  assumes "qvsim_ok (Vs_round env)" "vs_queue s = Some (demo_qvsim_pack OTA_FINISHED res iccid # q)"
  shows "\<exists>calls. qvsim_step api s (Vs_round env) = Continue (s\<lparr>vs_queue := Some q\<rparr>) (calls @ [Vsim_start])"
  using list_profiles_defined [OF assms(1)] assms(2)
  by (auto simp: qvsim_step_def qvsim_dispatch_def demo_qvsim_pack_def read_result_code_def)

section \<open>Example inputs\<close>

definition qvsim_example_env :: qvsim_env where
  "qvsim_example_env = \<lparr>vs_disabled = False, vs_profiles = Some ([(1, ''8986'')], 1)\<rparr>"

theorem qvsim_run_typed_witness:
  "\<exists>s' calls'. run_loop (qvsim_step \<lparr>url_size = 64, username_size = 32, password_size = 32\<rparr>) \<lparr>vs_queue = Some []\<rparr>
      [Vs_event True INIT_DONE 0 [], Vs_round qvsim_example_env, Vs_event True OTA_DELETE_PROFILE 0 ''8986''] = Continue s' calls' \<and>
    (\<forall>q. vs_queue s' = Some q \<longrightarrow> list_all well_typed q)"
  by (rule qvsim_run_typed [where calls = "[Register_vsim_events, Register_sim_status] @ business_show_device_info"])
    (simp_all add: qvsim_demo_task_start_def qvsim_ok_def qvsim_example_env_def)

theorem iccid_round_trip_witness:
  "run_loop (qvsim_step \<lparr>url_size = 64, username_size = 32, password_size = 32\<rparr>) \<lparr>vs_queue = Some []\<rparr>
      [Vs_event True OTA_ADD_PROFILE 0 ''8986001'', Vs_round qvsim_example_env] =
    Continue \<lparr>vs_queue = Some []\<rparr> [Log_iccid ''8986001'']"
  using iccid_round_trip [of "\<lparr>vs_queue = Some []\<rparr>" "\<lparr>url_size = 64, username_size = 32, password_size = 32\<rparr>" 0 "''8986001''" qvsim_example_env]
  by simp

end
