(* ===== verification/Can_Demo.thy ===== *)
theory Can_Demo
  imports UniRTOS_Prelude
begin

text \<open>
  The CAN demo, \<^verbatim>\<open>peripheral/can/can_demo.c\<close>: two interrupt handlers and a loop that sends frames of one to
  eight bytes, waits for each, and reads what has arrived.

  The driver is not part of the repository. Its constants are the record \<open>can_api\<close>, its answers the record
  \<open>can_env\<close>, indexed by the number of bytes being sent and by the poll. Interrupts come with the polls, where
  the task sleeps, and between the last look at the receive queue and the reset of \<^verbatim>\<open>hasRx\<close>. A failed
  \<^verbatim>\<open>RetCheck\<close> is an endless loop, the value \<open>Diverged\<close>.
\<close>

section \<open>State\<close>

datatype CAN_message_tx_state = TX_START | TX_COMPLETE | TX_ABORT_BY_BUS_OFF

record can_api =
  ev_bus_off :: u32
  ev_receive :: u32
  ev_send_complete :: u32

record can_msg_info =
  msg_id :: u32
  dlc :: nat
  rtr :: nat

text \<open>The globals, and the local \<^verbatim>\<open>can_status\<close> of the main function.\<close>

record can_state =
  rx_obj_idx :: u32
  tx_obj_idx :: u32
  txState :: CAN_message_tx_state
  hasRx :: bool
  unitEventReportCnt :: u32
  unitEventHandledCnt :: u32
  unitEventReport :: u32
  last_error_code :: nat
  unit_bus_off :: bool

datatype can_call =
    Mask_save
  | Mask_restore
  | Log_unit_state u32 bool
  | Recover_from_bus_off
  | Aon_io_power_on
  | Get_capabilities
  | Can_initialize
  | Can_power_on
  | Can_mode_init
  | Can_set_bitrate nat
  | Can_set_filter u32
  | Can_configure_tx u32
  | Can_configure_rx u32
  | Can_mode_normal
  | Message_send "u8 list"
  | Delay_us nat
  | Get_can_status
  | Log_bus_off
  | Log_sent nat
  | Log_tx_error nat
  | Abort_send u32
  | Get_rx_count
  | Message_read
  | Dump u32 bool nat nat "u8 list"

text \<open>One poll: the interrupts before it, whether the recovery it may ask for is accepted, and the status.\<close>

datatype can_irq = Unit_event u32 | Object_event u32 u32

record can_poll =
  irqs :: "can_irq list"
  recover_ok :: bool
  lec :: nat
  off :: bool

record can_env =
  first_poll :: can_poll
  send_ret :: "nat \<Rightarrow> nat"
  tx_poll :: "nat \<Rightarrow> nat \<Rightarrow> can_poll"
  off_poll :: "nat \<Rightarrow> nat \<Rightarrow> can_poll"
  rx_batch :: "nat \<Rightarrow> (can_msg_info \<times> u8 list) list"
  late_irqs :: "can_irq list"

section \<open>Interrupts\<close>

definition CAN_SignalUnitEvent :: "can_api \<Rightarrow> u32 \<Rightarrow> can_state \<Rightarrow> can_state" where
  "CAN_SignalUnitEvent api event s =
     (let s1 = s\<lparr>unitEventReportCnt := unitEventReportCnt s + 1, unitEventReport := event\<rparr> in
      if txState s1 = TX_START \<and> event = ev_bus_off api then s1\<lparr>txState := TX_ABORT_BY_BUS_OFF\<rparr> else s1)"

definition CAN_SignalObjectEvent :: "can_api \<Rightarrow> u32 \<Rightarrow> u32 \<Rightarrow> can_state \<Rightarrow> can_state" where
  "CAN_SignalObjectEvent api obj_idx event s =
     (let s1 = (if obj_idx = rx_obj_idx s \<and> event = ev_receive api then s\<lparr>hasRx := True\<rparr> else s) in
      if obj_idx = tx_obj_idx s1 \<and> event = ev_send_complete api then s1\<lparr>txState := TX_COMPLETE\<rparr> else s1)"

fun take_irq :: "can_api \<Rightarrow> can_irq \<Rightarrow> can_state \<Rightarrow> can_state" where
  "take_irq api (Unit_event ev) = CAN_SignalUnitEvent api ev"
| "take_irq api (Object_event obj ev) = CAN_SignalObjectEvent api obj ev"

section \<open>Operations of the task\<close>

text \<open>The dump reads \<^verbatim>\<open>dlc\<close> bytes of an array of eight.\<close>

definition CAN_messageDump :: "can_msg_info \<Rightarrow> u8 list \<Rightarrow> can_call list c_result" where
  "CAN_messageDump msg data =
     (if length data < dlc msg then Inl Out_of_bounds
      else Inr [Dump (and (msg_id msg) 0x1fffffff) (and (msg_id msg) 0x80000000 \<noteq> 0) (dlc msg) (rtr msg) (take (dlc msg) data)])"

text \<open>The table of state names has five entries.\<close>

definition CAN_CheckAndHandleUniteEventReport :: "can_api \<Rightarrow> bool \<Rightarrow> can_state \<Rightarrow> (can_state, can_call) outcome" where
  "CAN_CheckAndHandleUniteEventReport api recovered s =
     (if unitEventReportCnt s = unitEventHandledCnt s then Continue s [Mask_save, Mask_restore]
      else
        let unitEvent = unitEventReport s;
            lostReport = (unitEventReportCnt s \<noteq> unitEventHandledCnt s + 1);
            s1 = s\<lparr>unitEventHandledCnt := unitEventReportCnt s\<rparr>
        in if 5 \<le> unat unitEvent then Undefined Out_of_bounds
           else if unitEvent \<noteq> ev_bus_off api
             then Continue s1 [Mask_save, Mask_restore, Log_unit_state unitEvent lostReport, Mask_restore]
           else if recovered
             then Continue s1 [Mask_save, Mask_restore, Log_unit_state unitEvent lostReport, Recover_from_bus_off, Mask_restore]
           else Diverged)"

text \<open>The search for a receiving and a sending object.\<close>

abbreviation NO_OBJECT :: u32 where "NO_OBJECT \<equiv> 0xFFFFFFFF"

fun select_objects :: "(nat \<Rightarrow> bool \<times> bool) \<Rightarrow> nat \<Rightarrow> nat \<Rightarrow> u32 \<Rightarrow> u32 \<Rightarrow> u32 \<times> u32" where
  "select_objects caps i 0 rx tx = (rx, tx)"
| "select_objects caps i (Suc n) rx tx =
     (if rx = NO_OBJECT \<and> fst (caps i) then select_objects caps (Suc i) n (of_nat i) tx
      else if tx = NO_OBJECT \<and> snd (caps i) then (rx, of_nat i)
      else select_objects caps (Suc i) n rx tx)"

text \<open>A call whose failure stops the program.\<close>

definition RetCheck :: "bool \<Rightarrow> can_call \<Rightarrow> can_state \<Rightarrow> (can_state, can_call) outcome" where
  "RetCheck ok c s = (if ok then Continue s [c] else Diverged)"

text \<open>\<^verbatim>\<open>CAN_ExampleEntry\<close> up to its loop; \<open>oks\<close> are the results of the calls in their order.\<close>

definition can_setup :: "(nat \<Rightarrow> bool) \<Rightarrow> (nat \<Rightarrow> bool \<times> bool) \<Rightarrow> nat \<Rightarrow> can_state \<Rightarrow> (can_state, can_call) outcome" where
  "can_setup oks caps num_objects s0 =
     o_bind (Continue s0 [Aon_io_power_on, Get_capabilities]) (\<lambda>s.
     o_bind (RetCheck (oks 0) Can_initialize s) (\<lambda>s.
     o_bind (RetCheck (oks 1) Can_power_on s) (\<lambda>s.
     o_bind (RetCheck (oks 2) Can_mode_init s) (\<lambda>s.
     o_bind (RetCheck (oks 3) (Can_set_bitrate 125000) s) (\<lambda>s.
       let (rx, tx) = select_objects caps 0 num_objects NO_OBJECT NO_OBJECT;
           s1 = s\<lparr>rx_obj_idx := rx, tx_obj_idx := tx\<rparr>
       in if rx = NO_OBJECT \<or> tx = NO_OBJECT then Diverged
          else o_bind (RetCheck (oks 4) (Can_set_filter rx) s1) (\<lambda>s.
               o_bind (RetCheck (oks 5) (Can_configure_tx tx) s) (\<lambda>s.
               o_bind (RetCheck (oks 6) (Can_configure_rx rx) s) (\<lambda>s.
               RetCheck (oks 7) Can_mode_normal s))))))))"

text \<open>One poll: the task wakes, handles a report and reads the status.\<close>

definition poll_status :: "can_api \<Rightarrow> can_poll \<Rightarrow> can_state \<Rightarrow> (can_state, can_call) outcome" where
  "poll_status api p s =
     o_bind (CAN_CheckAndHandleUniteEventReport api (recover_ok p) (fold (take_irq api) (irqs p) s)) (\<lambda>s1.
       Continue (s1\<lparr>last_error_code := lec p, unit_bus_off := off p\<rparr>) [Get_can_status])"

text \<open>The wait for the end of a transmission, a \<^verbatim>\<open>do\<close> loop with a countdown.\<close>

function wait_tx :: "can_api \<Rightarrow> (nat \<Rightarrow> can_poll) \<Rightarrow> nat \<Rightarrow> nat \<Rightarrow> can_state \<Rightarrow> (can_state, can_call) outcome" where
  "wait_tx api polls k timeout_ms s =
     o_bind (emit [Delay_us 1000] (poll_status api (polls k) s)) (\<lambda>s1.
       if 1 < timeout_ms \<and> txState s1 = TX_START \<and> last_error_code s1 = 0
       then wait_tx api polls (Suc k) (timeout_ms - 1) s1 else Continue s1 [])"
  by pat_completeness auto
termination
  by (relation "measure (\<lambda>(api, polls, k, t, s). t)") auto

declare wait_tx.simps [simp del]

text \<open>The wait for the end of a bus-off; it may not end, which is \<open>None\<close>.\<close>

partial_function (option) wait_bus_off ::
  "can_api \<Rightarrow> (nat \<Rightarrow> can_poll) \<Rightarrow> nat \<Rightarrow> can_state \<Rightarrow> (can_state, can_call) outcome option" where
  "wait_bus_off api polls k s =
     (if unit_bus_off s
      then (case poll_status api (polls k) s of
              Continue s1 calls \<Rightarrow> Option.bind (wait_bus_off api polls (Suc k) s1) (\<lambda>r. Some (emit calls r))
            | other \<Rightarrow> Some other)
      else Some (Continue s []))"

definition never_ends :: "('s, 'o) outcome option \<Rightarrow> ('s, 'o) outcome" where
  "never_ends r = (case r of None \<Rightarrow> Diverged | Some x \<Rightarrow> x)"

text \<open>What follows the wait. The table of error names has six entries.\<close>

definition after_wait :: "can_api \<Rightarrow> can_env \<Rightarrow> nat \<Rightarrow> can_state \<Rightarrow> (can_state, can_call) outcome" where
  "after_wait api env sendNum s =
     (case txState s of
        TX_ABORT_BY_BUS_OFF \<Rightarrow> emit [Log_bus_off] (never_ends (wait_bus_off api (off_poll env sendNum) 0 s))
      | TX_COMPLETE \<Rightarrow> Continue s [Log_sent sendNum]
      | TX_START \<Rightarrow>
          if 6 \<le> last_error_code s then Undefined Out_of_bounds
          else Continue s [Log_tx_error (last_error_code s), Abort_send (tx_obj_idx s)])"

definition tx_data :: "u8 list" where
  "tx_data = map of_nat [0..<8]"

definition send_frame :: "can_api \<Rightarrow> can_env \<Rightarrow> nat \<Rightarrow> can_state \<Rightarrow> (can_state, can_call) outcome" where
  "send_frame api env sendNum s =
     (if send_ret env sendNum \<noteq> sendNum then Diverged
      else emit [Message_send (take sendNum tx_data)]
        (o_bind (wait_tx api (tx_poll env sendNum) 0 5000 (s\<lparr>txState := TX_START\<rparr>)) (after_wait api env sendNum)))"

fun send_frames :: "can_api \<Rightarrow> can_env \<Rightarrow> nat list \<Rightarrow> can_state \<Rightarrow> (can_state, can_call) outcome" where
  "send_frames api env [] s = Continue s []"
| "send_frames api env (n # ns) s = o_bind (send_frame api env n s) (send_frames api env ns)"

text \<open>One batch of the receive loop, and the loop over the batches until the queue is empty.\<close>

fun read_batch :: "(can_msg_info \<times> u8 list) list \<Rightarrow> can_call list c_result" where
  "read_batch [] = Inr []"
| "read_batch (m # ms) =
     c_bind (CAN_messageDump (fst m) (snd m)) (\<lambda>d. c_bind (read_batch ms) (\<lambda>ds. Inr (Message_read # d @ ds)))"

partial_function (option) read_all ::
  "(nat \<Rightarrow> (can_msg_info \<times> u8 list) list) \<Rightarrow> nat \<Rightarrow> can_call list c_result option" where
  "read_all batch k =
     (if batch k = [] then Some (Inr [Get_rx_count])
      else case read_batch (batch k) of
        Inl u \<Rightarrow> Some (Inl u)
      | Inr cs \<Rightarrow> Option.bind (read_all batch (Suc k)) (\<lambda>r. Some (c_bind r (\<lambda>ds. Inr (Get_rx_count # cs @ ds)))))"

definition receive :: "can_api \<Rightarrow> can_env \<Rightarrow> can_state \<Rightarrow> (can_state, can_call) outcome" where
  "receive api env s =
     (if \<not> hasRx s then Continue s []
      else case read_all (rx_batch env) 0 of
        None \<Rightarrow> Diverged
      | Some (Inl u) \<Rightarrow> Undefined u
      | Some (Inr calls) \<Rightarrow> Continue ((fold (take_irq api) (late_irqs env) s)\<lparr>hasRx := False\<rparr>) calls)"

text \<open>One iteration of the main loop.\<close>

definition can_step :: "can_api \<Rightarrow> can_state \<Rightarrow> can_env \<Rightarrow> (can_state, can_call) outcome" where
  "can_step api s env =
     o_bind (CAN_CheckAndHandleUniteEventReport api (recover_ok (first_poll env)) (fold (take_irq api) (irqs (first_poll env)) s))
       (\<lambda>s1. o_bind (send_frames api env [1..<9] s1) (receive api env))"

section \<open>Reports of the unit\<close>

lemma unit_events_counted:
  "unitEventReportCnt (fold (take_irq api) (map Unit_event evs) s) = unitEventReportCnt s + of_nat (length evs)"
  "unitEventHandledCnt (fold (take_irq api) (map Unit_event evs) s) = unitEventHandledCnt s"
  "evs \<noteq> [] \<Longrightarrow> unitEventReport (fold (take_irq api) (map Unit_event evs) s) = last evs"
  by (induction evs arbitrary: s) (auto simp: CAN_SignalUnitEvent_def Let_def algebra_simps)

text \<open>C24: the task reports the latest state of the unit, and says that reports were lost exactly when there was
  more than one since it last looked; the counters may wrap around in between.\<close>

theorem lost_reports_detected:
  assumes "unitEventReportCnt s = unitEventHandledCnt s"
    and "evs \<noteq> []" "length evs < 2 ^ 32" "unat (last evs) < 5" "last evs = ev_bus_off api \<longrightarrow> recovered"
  shows "\<exists>s' calls. CAN_CheckAndHandleUniteEventReport api recovered (fold (take_irq api) (map Unit_event evs) s) = Continue s' calls \<and>
    filter (\<lambda>c. \<exists>e l. c = Log_unit_state e l) calls = [Log_unit_state (last evs) (2 \<le> length evs)] \<and>
    unitEventReportCnt s' = unitEventHandledCnt s'"
proof -
  let ?n = "of_nat (length evs) :: u32"
  have n: "unat ?n = length evs" using assms(3) by (simp add: unat_of_nat)
  then have "?n \<noteq> 0" using assms(2) by (metis length_0_conv unat_0)
  moreover have "?n = 1 \<longleftrightarrow> length evs = 1" using n by (metis of_nat_1 unat_1)
  moreover have "2 \<le> length evs \<longleftrightarrow> length evs \<noteq> 1" using assms(2) by (cases evs; cases "tl evs") auto
  ultimately show ?thesis
    using assms unit_events_counted [where api = api and evs = evs and s = s]
    by (cases "last evs = ev_bus_off api")
      (auto simp: CAN_CheckAndHandleUniteEventReport_def Let_def not_le)
qed

section \<open>Choice of the objects\<close>

lemma select_objects_tx:
  assumes "rx \<noteq> NO_OBJECT" "i \<le> j" "j < i + n" "snd (caps j)" "\<forall>k. i \<le> k \<and> k < j \<longrightarrow> \<not> snd (caps k)"
  shows "select_objects caps i n rx NO_OBJECT = (rx, of_nat j)"
  using assms
proof (induction n arbitrary: i)
  case (Suc n)
  show ?case
  proof (cases "i = j")
    case True
    with Suc.prems show ?thesis by simp
  next
    case False
    with Suc.prems have "\<not> snd (caps i)" by auto
    moreover have "select_objects caps (Suc i) n rx NO_OBJECT = (rx, of_nat j)"
      using Suc.prems False by (intro Suc.IH) auto
    ultimately show ?thesis using Suc.prems by simp
  qed
qed simp

text \<open>\<open>i\<close> is the first object that can do anything at all.\<close>

lemma select_objects_first:
  assumes "k \<le> i" "i < k + n" "\<forall>j. k \<le> j \<and> j < i \<longrightarrow> caps j = (False, False)"
  shows "select_objects caps k n NO_OBJECT NO_OBJECT = select_objects caps i (k + n - i) NO_OBJECT NO_OBJECT"
  using assms
proof (induction n arbitrary: k)
  case (Suc n)
  show ?case
  proof (cases "k = i")
    case False
    then have "caps k = (False, False)" using Suc.prems by auto
    moreover have "select_objects caps (Suc k) n NO_OBJECT NO_OBJECT = select_objects caps i (Suc k + n - i) NO_OBJECT NO_OBJECT"
      using Suc.prems False by (intro Suc.IH) auto
    ultimately show ?thesis by simp
  qed simp
qed simp

text \<open>When the first usable object can receive, it becomes the receiver and the first later object that can
  send becomes the sender.\<close>

theorem objects_chosen:
  assumes "i < j" "j < num" "num < 2 ^ 32 - 1" "fst (caps i)" "snd (caps j)"
    and "\<forall>k<i. caps k = (False, False)" "\<forall>k. i < k \<and> k < j \<longrightarrow> \<not> snd (caps k)"
  shows "select_objects caps 0 num NO_OBJECT NO_OBJECT = (of_nat i, of_nat j)"
proof -
  have i: "(of_nat i :: u32) \<noteq> NO_OBJECT"
  proof
    assume "(of_nat i :: u32) = NO_OBJECT"
    then have "unat (of_nat i :: u32) = unat NO_OBJECT" by simp
    then show False using assms(1-3) by (simp add: unat_of_nat)
  qed
  obtain m where m: "num - i = Suc m" using assms by (metis Suc_diff_Suc less_trans)
  have "select_objects caps 0 num NO_OBJECT NO_OBJECT = select_objects caps i (Suc m) NO_OBJECT NO_OBJECT"
    using select_objects_first [of 0 i num caps] assms m by simp
  also have "\<dots> = select_objects caps (Suc i) m (of_nat i) NO_OBJECT" using assms(4) by simp
  also have "\<dots> = (of_nat i, of_nat j)"
    using assms m by (intro select_objects_tx [OF i]) auto
  finally show ?thesis .
qed

text \<open>When the first usable object can only send, the search stops there: no receiver is found, and the program
  loops for ever, even if other objects can receive.\<close>

theorem sender_first_stops_program:
  assumes "i < num" "caps i = (False, True)" "\<forall>k<i. caps k = (False, False)"
  shows "can_setup oks caps num s = Diverged"
proof -
  obtain m where m: "num - i = Suc m" using assms by (metis Suc_diff_Suc)
  have "select_objects caps 0 num NO_OBJECT NO_OBJECT = (NO_OBJECT, of_nat i)"
    using select_objects_first [of 0 i num caps] assms m by simp
  then show ?thesis by (simp add: can_setup_def RetCheck_def)
qed

section \<open>Sending and receiving\<close>

text \<open>Polls that end a transmission: interrupts of objects only, no error, and a completion at poll \<open>k\<close>.\<close>

fun quiet_irq :: "can_irq \<Rightarrow> bool" where
  "quiet_irq (Object_event _ _) = True"
| "quiet_irq (Unit_event _) = False"

definition completes :: "can_api \<Rightarrow> u32 \<Rightarrow> (nat \<Rightarrow> can_poll) \<Rightarrow> nat \<Rightarrow> bool" where
  "completes api tx polls k \<longleftrightarrow>
     (\<forall>j\<le>k. list_all quiet_irq (irqs (polls j))) \<and>
     (\<forall>j<k. lec (polls j) = 0 \<and> Object_event tx (ev_send_complete api) \<notin> set (irqs (polls j))) \<and>
     Object_event tx (ev_send_complete api) \<in> set (irqs (polls k))"

text \<open>What such interrupts leave alone.\<close>

definition same_unit :: "can_state \<Rightarrow> can_state \<Rightarrow> bool" where
  "same_unit s s' \<longleftrightarrow> unitEventReportCnt s' = unitEventReportCnt s \<and> unitEventHandledCnt s' = unitEventHandledCnt s \<and>
     rx_obj_idx s' = rx_obj_idx s \<and> tx_obj_idx s' = tx_obj_idx s"

lemma quiet_irqs:
  assumes "list_all quiet_irq qs"
  shows "same_unit s (fold (take_irq api) qs s)"
    and "txState (fold (take_irq api) qs s) =
      (if Object_event (tx_obj_idx s) (ev_send_complete api) \<in> set qs then TX_COMPLETE else txState s)"
proof -
  have "same_unit s (fold (take_irq api) qs s) \<and> txState (fold (take_irq api) qs s) =
      (if Object_event (tx_obj_idx s) (ev_send_complete api) \<in> set qs then TX_COMPLETE else txState s)"
    using assms
  proof (induction qs arbitrary: s)
    case (Cons x xs)
    then obtain obj ev where x: "x = Object_event obj ev" by (cases x) auto
    with Cons.prems Cons.IH [of "take_irq api x s"] show ?case
      by (auto simp: CAN_SignalObjectEvent_def same_unit_def Let_def)
  qed (simp add: same_unit_def)
  then show "same_unit s (fold (take_irq api) qs s)"
    and "txState (fold (take_irq api) qs s) =
      (if Object_event (tx_obj_idx s) (ev_send_complete api) \<in> set qs then TX_COMPLETE else txState s)"
    by blast+
qed

lemma check_idle:
  "unitEventReportCnt s = unitEventHandledCnt s \<Longrightarrow>
   CAN_CheckAndHandleUniteEventReport api r s = Continue s [Mask_save, Mask_restore]"
  by (simp add: CAN_CheckAndHandleUniteEventReport_def)

text \<open>The calls that matter to a transmission.\<close>

fun tx_relevant :: "can_call \<Rightarrow> bool" where
  "tx_relevant (Message_send _) = True"
| "tx_relevant (Log_sent _) = True"
| "tx_relevant (Log_tx_error _) = True"
| "tx_relevant (Abort_send _) = True"
| "tx_relevant Log_bus_off = True"
| "tx_relevant _ = False"

lemma poll_quiet:
  assumes "list_all quiet_irq (irqs p)" "unitEventReportCnt s = unitEventHandledCnt s"
  shows "\<exists>s'. poll_status api p s = Continue s' [Mask_save, Mask_restore, Get_can_status] \<and> same_unit s s' \<and>
    last_error_code s' = lec p \<and>
    txState s' = (if Object_event (tx_obj_idx s) (ev_send_complete api) \<in> set (irqs p) then TX_COMPLETE else txState s)"
proof -
  note q = quiet_irqs [OF assms(1), where s = s and api = api]
  have "unitEventReportCnt (fold (take_irq api) (irqs p) s) = unitEventHandledCnt (fold (take_irq api) (irqs p) s)"
    using q(1) assms(2) by (simp add: same_unit_def)
  from check_idle [OF this, of api "recover_ok p"] q show ?thesis
    by (simp add: poll_status_def same_unit_def)
qed

lemma wait_tx_completes:
  assumes "completes api (tx_obj_idx s) (\<lambda>j. polls (i + j)) k" "k < t" "unitEventReportCnt s = unitEventHandledCnt s" "txState s = TX_START"
  shows "\<exists>s' calls. wait_tx api polls i t s = Continue s' calls \<and> same_unit s s' \<and> txState s' = TX_COMPLETE \<and>
    filter tx_relevant calls = []"
  using assms
proof (induction k arbitrary: i t s)
  case 0
  obtain s' where "poll_status api (polls i) s = Continue s' [Mask_save, Mask_restore, Get_can_status]" "same_unit s s'" "txState s' = TX_COMPLETE"
    using poll_quiet [of "polls i" s api] 0 by (auto simp: completes_def)
  then show ?case by (subst wait_tx.simps) simp
next
  case (Suc k)
  have p: "list_all quiet_irq (irqs (polls i))" "lec (polls i) = 0" "Object_event (tx_obj_idx s) (ev_send_complete api) \<notin> set (irqs (polls i))"
    using Suc.prems(1) by (auto simp: completes_def dest: spec [of _ 0])
  obtain s1 where s1: "poll_status api (polls i) s = Continue s1 [Mask_save, Mask_restore, Get_can_status]" "same_unit s s1" "txState s1 = TX_START" "last_error_code s1 = 0"
    using poll_quiet [OF p(1), of s api] Suc.prems p by auto
  have "completes api (tx_obj_idx s1) (\<lambda>j. polls (Suc i + j)) k"
    using Suc.prems(1) s1(2) by (auto simp: completes_def same_unit_def dest: spec [of _ "Suc _"])
  moreover have "k < t - 1" "unitEventReportCnt s1 = unitEventHandledCnt s1" using Suc.prems s1(2) by (auto simp: same_unit_def)
  ultimately obtain s' calls where
      "wait_tx api polls (Suc i) (t - 1) s1 = Continue s' calls" "same_unit s1 s'" "txState s' = TX_COMPLETE" "filter tx_relevant calls = []"
    using Suc.IH s1(3) by blast
  with s1 Suc.prems(2) show ?case by (subst wait_tx.simps) (simp add: same_unit_def)
qed

lemma send_frame_completes:
  assumes "send_ret env n = n" "completes api (tx_obj_idx s) (tx_poll env n) k" "k < 5000" "unitEventReportCnt s = unitEventHandledCnt s"
  shows "\<exists>s' calls. send_frame api env n s = Continue s' calls \<and> same_unit s s' \<and>
    filter tx_relevant calls = [Message_send (take n tx_data), Log_sent n]"
proof -
  obtain s' calls where "wait_tx api (tx_poll env n) 0 5000 (s\<lparr>txState := TX_START\<rparr>) = Continue s' calls"
      "same_unit s s'" "txState s' = TX_COMPLETE" "filter tx_relevant calls = []"
    using wait_tx_completes [of api "s\<lparr>txState := TX_START\<rparr>" "tx_poll env n" 0 k 5000] assms by (auto simp: same_unit_def)
  then show ?thesis using assms(1) by (simp add: send_frame_def after_wait_def)
qed

text \<open>C19: when the driver accepts every frame and confirms it within five seconds, with no report of an error, the task
  sends the first one to eight bytes of its data, in this order, and each frame is sent only after the one before
  is confirmed.\<close>

theorem frames_sent_in_order:
  assumes "unitEventReportCnt s = unitEventHandledCnt s"
    and "\<forall>n\<in>{1..8}. send_ret env n = n \<and> (\<exists>k<5000. completes api (tx_obj_idx s) (tx_poll env n) k)"
  shows "\<exists>s' calls. send_frames api env [1..<9] s = Continue s' calls \<and>
    filter tx_relevant calls = concat (map (\<lambda>n. [Message_send (take n tx_data), Log_sent n]) [1..<9])"
proof -
  have "\<exists>s' calls. send_frames api env ns t = Continue s' calls \<and>
      filter tx_relevant calls = concat (map (\<lambda>n. [Message_send (take n tx_data), Log_sent n]) ns)"
    if "set ns \<subseteq> {1..8}" "same_unit s t" for ns t
    using that
  proof (induction ns arbitrary: t)
    case (Cons n ns)
    have n: "n \<in> {1..8}" using Cons.prems(1) by simp
    from Cons.prems(2) assms(2) [rule_format, OF n] obtain k where k: "send_ret env n = n" "completes api (tx_obj_idx t) (tx_poll env n) k" "k < 5000"
      by (auto simp: same_unit_def)
    moreover have "unitEventReportCnt t = unitEventHandledCnt t" using Cons.prems assms(1) by (simp add: same_unit_def)
    ultimately obtain t1 c1 where t1: "send_frame api env n t = Continue t1 c1" "same_unit t t1"
        "filter tx_relevant c1 = [Message_send (take n tx_data), Log_sent n]"
      using send_frame_completes by blast
    then have "same_unit s t1" using Cons.prems by (simp add: same_unit_def)
    with Cons.IH [OF _ this] Cons.prems(1) obtain s' c2 where "send_frames api env ns t1 = Continue s' c2"
        "filter tx_relevant c2 = concat (map (\<lambda>n. [Message_send (take n tx_data), Log_sent n]) ns)"
      by auto
    with t1 show ?case by simp
  qed simp
  moreover have "set [1..<9] \<subseteq> {1..8}" by auto
  ultimately show ?thesis by (simp only: same_unit_def)
qed

text \<open>A frame that arrives after the task has seen the receive queue empty and before it resets its flag is
  forgotten: the flag is clear again, and the task does not look at the queue until another frame arrives.\<close>

theorem late_frame_is_forgotten:
  assumes "hasRx s" "read_all (rx_batch env) 0 = Some (Inr calls)"
    and "late_irqs env = [Object_event (rx_obj_idx s) (ev_receive api)]"
  shows "\<exists>s'. receive api env s = Continue s' calls \<and> \<not> hasRx s' \<and> (\<forall>env'. receive api env' s' = Continue s' [])"
  using assms by (simp add: receive_def)

text \<open>A length over eight makes the dump read behind its array.\<close>

lemma long_frame_overruns:
  assumes "hasRx s" "rx_batch env 0 = (m, data) # ms" "length data = 8" "8 < dlc m"
  shows "receive api env s = Undefined Out_of_bounds"
proof -
  have "read_all (rx_batch env) 0 = Some (Inl Out_of_bounds)"
    using assms by (subst read_all.simps) (simp add: CAN_messageDump_def)
  with assms(1) show ?thesis by (simp add: receive_def)
qed

text \<open>A bus-off that ends after \<open>k\<close> polls ends the wait.\<close>

lemma bus_off_ends:
  assumes "\<forall>j\<le>k. list_all quiet_irq (irqs (polls (i + j)))" "\<forall>j<k. off (polls (i + j))" "\<not> off (polls (i + k))"
    and "unitEventReportCnt s = unitEventHandledCnt s"
  shows "\<exists>s' calls. wait_bus_off api polls i s = Some (Continue s' calls)"
  using assms
proof (induction k arbitrary: i s)
  case 0
  note p = poll_quiet [of "polls i" s api]
  have "\<exists>s1. poll_status api (polls i) s = Continue s1 [Mask_save, Mask_restore, Get_can_status] \<and> \<not> unit_bus_off s1"
  proof -
    have "unit_bus_off s1 = off p" if "poll_status api p s = Continue s1 cs" for p s1 cs
      using that by (auto simp: poll_status_def o_bind_eq_Continue)
    with p 0 show ?thesis by auto
  qed
  then show ?case
    by (cases "unit_bus_off s") (auto simp: wait_bus_off.simps)
next
  case (Suc k)
  have "list_all quiet_irq (irqs (polls i))" using Suc.prems(1) by (auto dest: spec [of _ 0])
  from poll_quiet [OF this Suc.prems(4), of api] obtain s1 where
      s1: "poll_status api (polls i) s = Continue s1 [Mask_save, Mask_restore, Get_can_status]" "same_unit s s1" by blast
  have "\<exists>s' calls. wait_bus_off api polls (Suc i) s1 = Some (Continue s' calls)"
    using Suc.prems s1(2) by (intro Suc.IH) (auto simp: same_unit_def)
  then show ?case
    using s1 by (cases "unit_bus_off s") (auto simp: wait_bus_off.simps [of api polls i])
qed

section \<open>Example inputs\<close>

definition can_example_api :: can_api where
  "can_example_api = \<lparr>ev_bus_off = 4, ev_receive = 2, ev_send_complete = 1\<rparr>"

definition can_example :: can_state where
  "can_example = \<lparr>rx_obj_idx = 0, tx_obj_idx = 1, txState = TX_START, hasRx = True, unitEventReportCnt = 0xFFFFFFFF,
     unitEventHandledCnt = 0xFFFFFFFF, unitEventReport = 0, last_error_code = 0, unit_bus_off = False\<rparr>"

definition can_quiet :: "can_irq list \<Rightarrow> can_poll" where
  "can_quiet qs = \<lparr>irqs = qs, recover_ok = True, lec = 0, off = False\<rparr>"

definition can_example_env :: can_env where
  "can_example_env = \<lparr>first_poll = can_quiet [], send_ret = (\<lambda>n. n),
     tx_poll = (\<lambda>n k. can_quiet (if k = 2 then [Object_event 1 1] else [Object_event 0 2])),
     off_poll = (\<lambda>n k. can_quiet []), rx_batch = (\<lambda>k. []), late_irqs = [Object_event 0 2]\<rparr>"

theorem lost_reports_detected_witness:
  "\<exists>s' calls. CAN_CheckAndHandleUniteEventReport can_example_api True
      (fold (take_irq can_example_api) (map Unit_event [2, 3, 4]) can_example) = Continue s' calls \<and>
    filter (\<lambda>c. \<exists>e l. c = Log_unit_state e l) calls = [Log_unit_state 4 True] \<and> unitEventReportCnt s' = unitEventHandledCnt s'"
  using lost_reports_detected [of can_example "[2, 3, 4]" can_example_api True]
  by (simp add: can_example_def can_example_api_def)

theorem objects_chosen_witness:
  "select_objects (\<lambda>i. [(False, False), (True, True), (True, False), (False, True)] ! i) 0 4 NO_OBJECT NO_OBJECT = (1, 3)"
proof -
  let ?caps = "\<lambda>i. [(False, False), (True, True), (True, False), (False, True)] ! i"
  have "k = 2" if "1 < k \<and> k < 3" for k :: nat using that by simp
  then have "\<forall>k. 1 < k \<and> k < 3 \<longrightarrow> \<not> snd (?caps k)" by force
  then show ?thesis using objects_chosen [of 1 3 4 ?caps] by simp
qed

theorem sender_first_stops_program_witness:
  "can_setup (\<lambda>_. True) (\<lambda>i. [(False, True), (True, False)] ! i) 2 can_example = Diverged"
  by (rule sender_first_stops_program [where i = 0]) simp_all

theorem frames_sent_in_order_witness:
  "\<exists>s' calls. send_frames can_example_api can_example_env [1..<9] can_example = Continue s' calls \<and>
    filter tx_relevant calls = concat (map (\<lambda>n. [Message_send (take n tx_data), Log_sent n]) [1..<9])"
proof (rule frames_sent_in_order)
  show "unitEventReportCnt can_example = unitEventHandledCnt can_example" by (simp add: can_example_def)
  have "completes can_example_api (tx_obj_idx can_example) (tx_poll can_example_env n) 2" for n
    by (auto simp: completes_def can_example_def can_example_env_def can_quiet_def can_example_api_def)
  then show "\<forall>n\<in>{1..8}. send_ret can_example_env n = n \<and>
      (\<exists>k<5000. completes can_example_api (tx_obj_idx can_example) (tx_poll can_example_env n) k)"
    by (intro ballI conjI exI [of _ 2]) (simp_all add: can_example_env_def)
qed

theorem late_frame_is_forgotten_witness:
  "\<exists>s'. receive can_example_api can_example_env can_example = Continue s' [Get_rx_count] \<and> \<not> hasRx s' \<and>
    (\<forall>env'. receive can_example_api env' s' = Continue s' [])"
  by (rule late_frame_is_forgotten)
    (simp_all add: read_all.simps can_example_def can_example_env_def can_example_api_def)

end
