(* ===== verification/Easy_Sms.thy ===== *)
theory Easy_Sms
  imports UniRTOS_Prelude
begin

text \<open>
  The one-touch SMS demo, \<^verbatim>\<open>application/one_touch/sms/easy_sms/easy_sms_demo.c\<close>: callbacks that print reports and
  received messages into a block of 1024 bytes, and a task that sends two messages.

  The lines are built by calls of \<^verbatim>\<open>snprintf\<close> that each add the length of the whole text to the position. After a
  text that did not fit, the position lies behind the block and the size left is negative, which the
  library takes as a large unsigned number: the next call writes outside the block.
\<close>

section \<open>Text in pieces\<close>

text \<open>\<^verbatim>\<open>len += snprintf(buf + len, n - len, ...)\<close> on a zeroed buffer of \<open>n\<close> bytes; \<open>buf\<close> is its text. With no space
  left nothing is written.\<close>

definition append_fmt :: "nat \<Rightarrow> string \<Rightarrow> string \<times> u16 \<Rightarrow> (string \<times> u16) c_result" where
  "append_fmt n t b =
     (let buf = fst b; len = snd b in
      if n < unat len then Inl Out_of_bounds
      else if n = unat len then Inr (buf, len + of_nat (length t))
      else Inr (take (unat len) buf @ snprintf_buf (n - unat len) t, len + of_nat (length t)))"

fun append_all :: "nat \<Rightarrow> string list \<Rightarrow> string \<times> u16 \<Rightarrow> (string \<times> u16) c_result" where
  "append_all n [] b = Inr b"
| "append_all n (t # ts) b = c_bind (append_fmt n t b) (append_all n ts)"

record easy_time =
  et_year :: int
  et_month :: int
  et_day :: int
  et_hour :: int
  et_minute :: int
  et_second :: int
  et_zone :: int

definition fmt_stamp :: "easy_time \<Rightarrow> string" where
  "fmt_stamp t = [CHR 34] @ fmt_02d (et_year t) @ ''/'' @ fmt_02d (et_month t) @ ''/'' @ fmt_02d (et_day t) @ '','' @
     fmt_02d (et_hour t) @ '':'' @ fmt_02d (et_minute t) @ '':'' @ fmt_02d (et_second t) @ ''+'' @ fmt_02d (et_zone t) @ [CHR 34]"

section \<open>Callbacks\<close>

text \<open>The texts of a decoded report and message.\<close>

record easy_rept =
  ra :: string
  rept_scts :: easy_time
  rept_dt :: easy_time

record easy_recv =
  oa :: string
  recv_data :: string
  recv_scts :: easy_time
  recv_dcs :: int

text \<open>The result of a callback: the text it prints, if any, the number of blocks it has not freed, and how often it
  releases the semaphore of the task.\<close>

record easy_result =
  printed :: "string option"
  unfreed :: nat
  released :: nat

text \<open>Two blocks are allocated; when one of them is missing the callback returns.\<close>

definition with_blocks :: "bool \<Rightarrow> bool \<Rightarrow> string c_result \<Rightarrow> easy_result c_result" where
  "with_blocks a1 a2 r =
     (if a1 \<and> a2 then c_bind r (\<lambda>t. Inr \<lparr>printed = Some t, unfreed = 0, released = 0\<rparr>)
      else Inr \<lparr>printed = None, unfreed = of_bool a1 + of_bool a2, released = 0\<rparr>)"

datatype easy_event = EASY_SMS_INIT_OK | EASY_SMS_MEM_FULL | EASY_SMS_REPORT easy_rept | EASY_SMS_OTHER

definition user_sms_event_callback :: "bool \<Rightarrow> bool \<Rightarrow> easy_event \<Rightarrow> easy_result c_result" where
  "user_sms_event_callback a1 a2 ev =
     (case ev of
        EASY_SMS_INIT_OK \<Rightarrow> Inr \<lparr>printed = None, unfreed = 0, released = 1\<rparr>
      | EASY_SMS_REPORT r \<Rightarrow>
          with_blocks a1 a2 (c_bind (append_all 1024
            ['','' @ [CHR 34] @ c_str (ra r) @ [CHR 34], '','' @ fmt_stamp (rept_scts r), '','' @ fmt_stamp (rept_dt r)]
            ([], 0)) (\<lambda>b. Inr (fst b)))
      | _ \<Rightarrow> Inr \<lparr>printed = None, unfreed = 0, released = 0\<rparr>)"

definition recv_pieces :: "easy_recv \<Rightarrow> string list" where
  "recv_pieces m = [c_str (oa m) @ '','', c_str (recv_data m) @ '','', fmt_stamp (recv_scts m) @ '','', fmt_d (recv_dcs m)]"

definition user_receive_sms_text_callback :: "bool \<Rightarrow> bool \<Rightarrow> easy_recv \<Rightarrow> easy_result c_result" where
  "user_receive_sms_text_callback a1 a2 m =
     with_blocks a1 a2 (c_bind (append_all 1024 (recv_pieces m) ([], 0)) (\<lambda>b. Inr (fst b)))"

text \<open>\<open>sca_len\<close> is \<^verbatim>\<open>QOSA_SMS_GET_SCA_PART_LEN\<close>, \<open>hex\<close> the conversion of the library, which terminates its text.\<close>

definition user_receive_sms_pdu_callback ::
  "(u8 list \<Rightarrow> u8) \<Rightarrow> (u8 list \<Rightarrow> string) \<Rightarrow> bool \<Rightarrow> bool \<Rightarrow> u8 list \<Rightarrow> u8 \<Rightarrow> easy_result c_result" where
  "user_receive_sms_pdu_callback sca_len hex a1 a2 pdu data_len =
     with_blocks a1 a2
       (let data_len_without_sca = data_len - sca_len pdu;
            text = fmt_d (uint data_len_without_sca) @ '','';
            h = hex (take (unat data_len) pdu)
        in if unat data_len \<le> length pdu \<and> length text + length h < 1024 then Inr (text @ h) else Inl Out_of_bounds)"

section \<open>The task\<close>

datatype easy_call =
    Easy_register_callbacks
  | Easy_sem_wait
  | Easy_set_default_params
  | Easy_send_text string string
  | Easy_sleep int
  | Easy_set_pdu_format
  | Easy_send_pdu string nat
  | Easy_delete
  | Easy_sem_delete
  | Easy_task_delete

record easy_env =
  sem_created :: bool
  sim_init_status :: u8
  init_events :: nat          \<comment> \<open>releases of the semaphore by \<^verbatim>\<open>QOSA_EASY_SMS_INIT_OK\<close>\<close>
  sem_wait_error :: bool

definition easy_pdu :: string where
  "easy_pdu = ''00310005910180F60000FF12C5E0340B9A36A72C50B45A1C528BCC10''"

text \<open>\<open>None\<close>: the task waits for an event that never comes.\<close>

definition qosa_easy_sms_demo_task :: "easy_env \<Rightarrow> easy_call list option" where
  "qosa_easy_sms_demo_task env =
     (let work = [Easy_set_default_params, Easy_send_text ''10086'' ''4E00952E0053004D0053FF0C79FB8FDCFF01'',
                  Easy_sleep 10, Easy_set_pdu_format, Easy_send_pdu easy_pdu 27, Easy_sleep 10, Easy_delete];
          leave = [Easy_sem_delete, Easy_task_delete]
      in if \<not> sem_created env then Some [Easy_task_delete]
         else if bit (sim_init_status env) 2 then Some (Easy_register_callbacks # work @ leave)
         else if sem_wait_error env then Some ([Easy_register_callbacks, Easy_sem_wait] @ leave)
         else if init_events env = 0 then None
         else Some ([Easy_register_callbacks, Easy_sem_wait] @ work @ leave))"

section \<open>Properties\<close>

lemma append_fmt_next:
  assumes "length T < 65536" "0 < n"
  shows "append_fmt n t (snprintf_buf n T, of_nat (length T)) =
    (if n < length T then Inl Out_of_bounds else Inr (snprintf_buf n (T @ t), of_nat (length (T @ t))))"
proof -
  have len: "unat (of_nat (length T) :: u16) = length T" using assms(1) by (simp add: unat_of_nat)
  show ?thesis using assms(2) by (auto simp: append_fmt_def len Let_def snprintf_buf_def min_def not_less)
qed

text \<open>The text is complete up to the size of the block as long as every piece but the last ends inside it.\<close>

lemma append_all_next:
  assumes "length T + length (concat ts) < 65536" "0 < n"
  shows "append_all n ts (snprintf_buf n T, of_nat (length T)) =
    (if ts = [] \<or> length T + length (concat (butlast ts)) \<le> n
     then Inr (snprintf_buf n (T @ concat ts), of_nat (length (T @ concat ts))) else Inl Out_of_bounds)"
  using assms
proof (induction ts arbitrary: T)
  case (Cons t ts)
  have IH: "append_all n ts (snprintf_buf n (T @ t), of_nat (length (T @ t))) =
    (if ts = [] \<or> length (T @ t) + length (concat (butlast ts)) \<le> n
     then Inr (snprintf_buf n ((T @ t) @ concat ts), of_nat (length ((T @ t) @ concat ts))) else Inl Out_of_bounds)"
    using Cons.prems by (intro Cons.IH) auto
  have "append_fmt n t (snprintf_buf n T, of_nat (length T)) =
      (if n < length T then Inl Out_of_bounds else Inr (snprintf_buf n (T @ t), of_nat (length (T @ t))))"
    using Cons.prems by (intro append_fmt_next) auto
  with IH show ?case by (cases ts) auto
qed simp

lemma append_all_start:
  assumes "length (concat ts) < 65536" "0 < n" "ts \<noteq> []"
  shows "append_all n ts ([], 0) =
    (if length (concat (butlast ts)) \<le> n then Inr (snprintf_buf n (concat ts), of_nat (length (concat ts))) else Inl Out_of_bounds)"
  using append_all_next [of "[]" ts n] assms by (simp add: snprintf_buf_def)

text \<open>A received message is printed without touching memory outside the block exactly when the sender, the text and
  the time stamp with their commas have at most 1024 characters; then the line printed is the complete one,
  cut at 1023 characters.\<close>

theorem text_line_fits_iff:
  assumes "length (concat (recv_pieces m)) < 65536"
  shows "user_receive_sms_text_callback True True m =
    (if length (c_str (oa m)) + length (c_str (recv_data m)) + length (fmt_stamp (recv_scts m)) + 3 \<le> 1024
     then Inr \<lparr>printed = Some (snprintf_buf 1024 (concat (recv_pieces m))), unfreed = 0, released = 0\<rparr>
     else Inl Out_of_bounds)"
  using append_all_start [OF assms, of 1024]
  by (simp add: user_receive_sms_text_callback_def with_blocks_def recv_pieces_def)

text \<open>A report always fits when the number has at most sixty-four characters and the fields of the times have two
  digits.\<close>

lemma length_fmt_02d: "0 \<le> i \<Longrightarrow> i < 100 \<Longrightarrow> length (fmt_02d i) \<le> 2"
  using length_fmt_u [of 1 "nat i"] length_fmt_u [of 2 "nat i"] by (auto simp: fmt_02d_def fmt_02u_def)

definition two_digits :: "easy_time \<Rightarrow> bool" where
  "two_digits t \<longleftrightarrow> (\<forall>i \<in> {et_year t, et_month t, et_day t, et_hour t, et_minute t, et_second t, et_zone t}. 0 \<le> i \<and> i < 100)"

lemma length_fmt_stamp: "two_digits t \<Longrightarrow> length (fmt_stamp t) \<le> 22"
  using length_fmt_02d [of "et_year t"] length_fmt_02d [of "et_month t"] length_fmt_02d [of "et_day t"]
    length_fmt_02d [of "et_hour t"] length_fmt_02d [of "et_minute t"] length_fmt_02d [of "et_second t"] length_fmt_02d [of "et_zone t"]
  by (simp add: two_digits_def fmt_stamp_def)

lemma report_fits:
  assumes "length (c_str (ra r)) \<le> 64" "two_digits (rept_scts r)" "two_digits (rept_dt r)"
  shows "user_sms_event_callback True True (EASY_SMS_REPORT r) =
    Inr \<lparr>printed = Some ('','' @ [CHR 34] @ c_str (ra r) @ [CHR 34] @ '','' @ fmt_stamp (rept_scts r) @ '','' @ fmt_stamp (rept_dt r)),
         unfreed = 0, released = 0\<rparr>"
proof -
  let ?ts = "['','' @ [CHR 34] @ c_str (ra r) @ [CHR 34], '','' @ fmt_stamp (rept_scts r), '','' @ fmt_stamp (rept_dt r)]"
  note l = length_fmt_stamp [OF assms(2)] length_fmt_stamp [OF assms(3)]
  have "append_all 1024 ?ts ([], 0) = Inr (snprintf_buf 1024 (concat ?ts), of_nat (length (concat ?ts)))"
    using l assms(1) by (subst append_all_start) simp_all
  moreover have "snprintf_buf 1024 (concat ?ts) = concat ?ts"
    using l assms(1) by (intro snprintf_fits) simp
  ultimately show ?thesis by (simp add: user_sms_event_callback_def with_blocks_def)
qed

text \<open>When only one of the two blocks can be allocated, it is lost.\<close>

lemma half_allocation_leaks:
  "a \<Longrightarrow> \<exists>r. user_receive_sms_text_callback a False m = Inr r \<and> unfreed r = 1"
  by (simp add: user_receive_sms_text_callback_def with_blocks_def)

text \<open>The PDU callback prints within its block whatever the length byte says, if the array holds as many bytes and the
  conversion writes two characters per byte; the length without the service centre is computed modulo 256.\<close>

theorem pdu_line_fits:
  assumes "\<forall>d. length (hex d) = 2 * length d" "unat data_len \<le> length pdu"
  shows "user_receive_sms_pdu_callback sca_len hex True True pdu data_len =
    Inr \<lparr>printed = Some (fmt_u ((unat data_len + 256 - unat (sca_len pdu)) mod 256) @ '','' @ hex (take (unat data_len) pdu)),
         unfreed = 0, released = 0\<rparr>"
proof -
  have "unat data_len < 256" using unsigned_less [of data_len] by simp
  moreover have "length (fmt_d (uint (data_len - sca_len pdu))) \<le> 3" by (rule length_fmt_d_u8)
  moreover have "length (hex (take (unat data_len) pdu)) \<le> 2 * unat data_len" using assms(1) by simp
  ultimately have fits: "length (fmt_d (uint (data_len - sca_len pdu)) @ '','') + length (hex (take (unat data_len) pdu)) < 1024"
    by simp
  have "unat (data_len - sca_len pdu) = (unat data_len + 256 - unat (sca_len pdu)) mod 256"
  proof (cases "unat (sca_len pdu) \<le> unat data_len")
    case True
    then have "(unat data_len + 256 - unat (sca_len pdu)) mod 256 = ((unat data_len - unat (sca_len pdu)) + 256) mod 256" by simp
    also have "\<dots> = unat data_len - unat (sca_len pdu)" using \<open>unat data_len < 256\<close> by simp
    finally show ?thesis using True by (simp add: unat_sub_if')
  next
    case False
    then show ?thesis by (simp add: unat_sub_if' add.commute)
  qed
  then have "fmt_d (uint (data_len - sca_len pdu)) = fmt_u ((unat data_len + 256 - unat (sca_len pdu)) mod 256)"
    by (simp add: fmt_d_def flip: unat_eq_nat_uint)
  with fits assms(2) show ?thesis by (simp add: user_receive_sms_pdu_callback_def with_blocks_def Let_def)
qed

text \<open>The PDU the task sends has the length it announces, with one byte for the empty service centre.\<close>

lemma easy_pdu_length: "length easy_pdu = 2 * (27 + 1)"
  by (simp add: easy_pdu_def)

lemma task_waits_for_init:
  "qosa_easy_sms_demo_task env = None \<longleftrightarrow>
   sem_created env \<and> \<not> bit (sim_init_status env) 2 \<and> \<not> sem_wait_error env \<and> init_events env = 0"
  by (simp add: qosa_easy_sms_demo_task_def Let_def)

section \<open>Example inputs\<close>

definition easy_stamp :: easy_time where
  "easy_stamp = \<lparr>et_year = 26, et_month = 1, et_day = 2, et_hour = 3, et_minute = 4, et_second = 5, et_zone = 32\<rparr>"

definition easy_message :: "nat \<Rightarrow> easy_recv" where
  "easy_message n = \<lparr>oa = ''10086'', recv_data = replicate n (CHR ''a''), recv_scts = easy_stamp, recv_dcs = 0\<rparr>"

lemma easy_digits: "fmt_d 0 = ''0''" "length (fmt_stamp easy_stamp) = 22"
  by (simp_all add: fmt_stamp_def easy_stamp_def fmt_02d_def fmt_02u_def fmt_d_def fmt_u_def digits_base.simps)

theorem text_line_fits_iff_witness:
  "user_receive_sms_text_callback True True (easy_message 995) = Inl Out_of_bounds \<and>
   (\<exists>r. user_receive_sms_text_callback True True (easy_message 994) = Inr r)"
  using text_line_fits_iff [of "easy_message 995"] text_line_fits_iff [of "easy_message 994"] easy_digits
  by (simp add: easy_message_def recv_pieces_def)

theorem pdu_line_fits_witness:
  "user_receive_sms_pdu_callback (\<lambda>_. 1) (\<lambda>d. concat (map (\<lambda>_. ''00'') d)) True True [0, 1] 2 =
    Inr \<lparr>printed = Some ''1,0000'', unfreed = 0, released = 0\<rparr>"
proof -
  have "length (concat (map (\<lambda>_. ''00'') d)) = 2 * length d" for d :: "u8 list" by (induction d) simp_all
  then show ?thesis
    using pdu_line_fits [of "\<lambda>d. concat (map (\<lambda>_. ''00'') d)" 2 "[0, 1]" "\<lambda>_. 1"]
    by (simp add: fmt_u_def digits_base.simps)
qed

end
