(* ===== verification/Ssl_Blocking.thy ===== *)
theory Ssl_Blocking
  imports UniRTOS_Prelude
begin

text \<open>
  The blocking TLS client, \<^verbatim>\<open>network/network_protocol/ssl/ssl_blocking_demo.c\<close>: the transport functions handed to the
  TLS library, the connection, one request and the loop that reads the answer.

  The answers of the socket layer and of the library are the record \<open>ssl_env\<close>. The loop ends when the library says
  so, hence it is a partial function; \<open>None\<close> is a loop without end.
\<close>

definition BUFFER_SIZE :: nat where "BUFFER_SIZE = 1024"
definition SSL_DEMO_SERVER_PORT :: nat where "SSL_DEMO_SERVER_PORT = 443"
definition SSL_DEMO_SERVER_NAME :: string where "SSL_DEMO_SERVER_NAME = ''www.example.com''"

datatype vtls_result = VTLS_OK | VTLS_EAGAIN | VTLS_PEER_CLOSE | VTLS_ERROR int

datatype ssl_call =
    Ssl_init
  | Ssl_new
  | Tcp_socket
  | Tcp_connect int string nat
  | Tcp_close int
  | Ssl_set_hostinfo string nat
  | Ssl_connect
  | Ssl_write string
  | Ssl_read nat
  | Ssl_close
  | Ssl_free
  | Ssl_clean_sessions
  | Io_select int bool bool nat

record ssl_env =
  init_ret :: int
  new_ok :: bool
  socket_ret :: int
  tcp_connect_ret :: int
  hostinfo_ret :: vtls_result
  connect_ret :: vtls_result
  write_ret :: vtls_result
  reads :: "nat \<Rightarrow> vtls_result \<times> nat"

section \<open>Transport functions\<close>

text \<open>\<open>reset\<close> is \<^verbatim>\<open>QCM_VTLS_IO_ERR_SSL_CONN_RESET\<close>; \<open>ret\<close> the answer of \<^verbatim>\<open>read\<close>, \<^verbatim>\<open>write\<close> and \<^verbatim>\<open>select\<close>.\<close>

definition blocking_io_read :: "int \<Rightarrow> int \<Rightarrow> int" where
  "blocking_io_read reset ret = (if ret \<le> 0 then reset else ret)"

definition blocking_io_write :: "int \<Rightarrow> int \<Rightarrow> int" where
  "blocking_io_write reset ret = (if ret \<le> 0 then reset else ret)"

definition blocking_io_select :: "int \<Rightarrow> bool \<Rightarrow> bool \<Rightarrow> nat \<Rightarrow> int \<Rightarrow> int \<times> ssl_call list" where
  "blocking_io_select fd read_flag write_flag wait_time ret = (ret, [Io_select fd read_flag write_flag wait_time])"

definition create_socket_connection :: "ssl_env \<Rightarrow> string \<Rightarrow> nat \<Rightarrow> int \<times> ssl_call list" where
  "create_socket_connection env server_ip port =
     (if socket_ret env = -1 then (-1, [Tcp_socket])
      else if tcp_connect_ret env = -1
        then (-1, [Tcp_socket, Tcp_connect (socket_ret env) server_ip port, Tcp_close (socket_ret env)])
      else (socket_ret env, [Tcp_socket, Tcp_connect (socket_ret env) server_ip port]))"

section \<open>The demo\<close>

definition http_request :: string where
  "http_request = ''GET / HTTP/1.1'' @ [CHR 13, CHR 10] @ ''Host: www.example.com'' @ [CHR 13, CHR 10] @
     ''Connection: close'' @ [CHR 13, CHR 10] @ [CHR 13, CHR 10]"

text \<open>The store of the final NUL is outside the buffer when the library returns more than it was asked for.\<close>

partial_function (option) ssl_read_loop :: "(nat \<Rightarrow> vtls_result \<times> nat) \<Rightarrow> nat \<Rightarrow> nat \<Rightarrow> (nat \<times> nat) c_result option" where
  "ssl_read_loop answers k got =
     (let (result, bytes_read) = answers k in
      if result = VTLS_PEER_CLOSE then Some (Inr (got, Suc k))
      else if result \<noteq> VTLS_OK \<and> result \<noteq> VTLS_EAGAIN then Some (Inr (got, Suc k))
      else if BUFFER_SIZE \<le> bytes_read then Some (Inl Out_of_bounds)
      else if bytes_read > 0 then ssl_read_loop answers (Suc k) (got + bytes_read)
      else Some (Inr (got, Suc k)))"

text \<open>The result is \<open>Inr\<close> of the return value, the bytes received and the calls; \<open>None\<close> when the loop does not end.\<close>

definition ssl_blocking_demo_main :: "ssl_env \<Rightarrow> (int \<times> nat \<times> ssl_call list) c_result option" where
  "ssl_blocking_demo_main env =
     (if init_ret env = 0 then Some (Inr (-1, 0, [Ssl_init]))
      else if \<not> new_ok env then Some (Inr (-1, 0, [Ssl_init, Ssl_new, Ssl_clean_sessions]))
      else
        let (client_socket, c1) = create_socket_connection env ''93.184.216.34'' SSL_DEMO_SERVER_PORT;
            c2 = [Ssl_init, Ssl_new] @ c1
        in if client_socket < 0 then Some (Inr (-1, 0, c2 @ [Ssl_free]))
           else
             let c3 = c2 @ [Ssl_set_hostinfo SSL_DEMO_SERVER_NAME SSL_DEMO_SERVER_PORT] in
             if hostinfo_ret env \<noteq> VTLS_OK then Some (Inr (-1, 0, c3 @ [Tcp_close client_socket, Ssl_free]))
             else if connect_ret env \<noteq> VTLS_OK
               then Some (Inr (-1, 0, c3 @ [Ssl_connect, Tcp_close client_socket, Ssl_free]))
             else
               (case ssl_read_loop (reads env) 0 0 of
                  None \<Rightarrow> None
                | Some (Inl u) \<Rightarrow> Some (Inl u)
                | Some (Inr (got, n)) \<Rightarrow>
                    Some (Inr (0, got, c3 @ [Ssl_connect, Ssl_write http_request] @ replicate n (Ssl_read (BUFFER_SIZE - 1)) @
                      [Ssl_close, Tcp_close client_socket, Ssl_free, Ssl_clean_sessions]))))"

section \<open>Properties\<close>

lemma ssl_read_loop_data:
  assumes "\<forall>i<n. (fst (answers (k + i)) = VTLS_OK \<or> fst (answers (k + i)) = VTLS_EAGAIN) \<and> 0 < snd (answers (k + i)) \<and> snd (answers (k + i)) < 1024"
  shows "ssl_read_loop answers k got = ssl_read_loop answers (k + n) (got + (\<Sum>i<n. snd (answers (k + i))))"
  using assms
proof (induction n arbitrary: k got)
  case (Suc n)
  have here: "fst (answers k) = VTLS_OK \<or> fst (answers k) = VTLS_EAGAIN" "0 < snd (answers k)" "snd (answers k) < 1024"
    using Suc.prems [rule_format, of 0] by auto
  have "ssl_read_loop answers k got = ssl_read_loop answers (Suc k) (got + snd (answers k))"
    using here by (subst ssl_read_loop.simps) (auto simp: case_prod_beta BUFFER_SIZE_def)
  also have "\<dots> = ssl_read_loop answers (Suc k + n) (got + snd (answers k) + (\<Sum>i<n. snd (answers (Suc k + i))))"
    using Suc.prems by (intro Suc.IH) auto
  finally show ?case by (simp add: sum.lessThan_Suc_shift add.assoc del: sum.lessThan_Suc)
qed simp

text \<open>When the library delivers the answer in any number of pieces and then reports that the peer has closed, the
  demo returns success having received all of them.\<close>

theorem answer_received:
  assumes "init_ret env \<noteq> 0" "new_ok env" "0 \<le> socket_ret env" "tcp_connect_ret env \<noteq> -1" "hostinfo_ret env = VTLS_OK" "connect_ret env = VTLS_OK"
    and "\<forall>i<n. (fst (reads env i) = VTLS_OK \<or> fst (reads env i) = VTLS_EAGAIN) \<and> 0 < snd (reads env i) \<and> snd (reads env i) < 1024"
    and "fst (reads env n) = VTLS_PEER_CLOSE"
  shows "\<exists>calls. ssl_blocking_demo_main env = Some (Inr (0, \<Sum>i<n. snd (reads env i), calls)) \<and>
    count_list calls (Ssl_read 1023) = Suc n \<and> Ssl_write http_request \<in> set calls"
proof -
  have "ssl_read_loop (reads env) n t = Some (Inr (t, Suc n))" for t
    using assms(8) by (subst ssl_read_loop.simps) (simp add: case_prod_beta)
  then have loop: "ssl_read_loop (reads env) 0 0 = Some (Inr (\<Sum>i<n. snd (reads env i), Suc n))"
    using ssl_read_loop_data [of n "reads env" 0 0] assms(7) by simp
  have "count_list (replicate m x) x = m" for m and x :: ssl_call by (induction m) simp_all
  with loop assms(1-6) show ?thesis
    by (simp add: ssl_blocking_demo_main_def create_socket_connection_def Let_def BUFFER_SIZE_def)
qed

text \<open>Sockets opened and TLS objects created, less those closed and freed.\<close>

definition open_sockets :: "ssl_env \<Rightarrow> ssl_call list \<Rightarrow> int" where
  "open_sockets env calls = (if socket_ret env = -1 then 0 else int (count_list calls Tcp_socket)) - int (count_list calls (Tcp_close (socket_ret env)))"

definition live_objects :: "ssl_env \<Rightarrow> ssl_call list \<Rightarrow> int" where
  "live_objects env calls = (if new_ok env then int (count_list calls Ssl_new) else 0) - int (count_list calls Ssl_free)"

lemma count_reads [simp]: "x \<noteq> y \<Longrightarrow> count_list (replicate n x) y = 0"
  by (induction n) simp_all

text \<open>Whenever the demo returns, on every path it has closed the socket it opened and freed the object it
  created.\<close>

theorem ssl_releases_everything:
  assumes "ssl_blocking_demo_main env = Some (Inr (ret, got, calls))" "-1 \<le> socket_ret env"
  shows "open_sockets env calls = 0 \<and> live_objects env calls = 0"
  using assms
  by (auto simp: ssl_blocking_demo_main_def create_socket_connection_def open_sockets_def live_objects_def Let_def
      SSL_DEMO_SERVER_NAME_def SSL_DEMO_SERVER_PORT_def
      split: if_splits option.splits sum.splits prod.splits)

text \<open>A read that would block and brings nothing ends the loop as if the answer were complete.\<close>

lemma would_block_ends_answer:
  assumes "reads env 0 = (VTLS_EAGAIN, 0)"
  shows "ssl_read_loop (reads env) 0 0 = Some (Inr (0, 1))"
  using assms by (subst ssl_read_loop.simps) (simp add: BUFFER_SIZE_def)

section \<open>Example inputs\<close>

definition ssl_example :: ssl_env where
  "ssl_example = \<lparr>init_ret = 1, new_ok = True, socket_ret = 3, tcp_connect_ret = 0, hostinfo_ret = VTLS_OK, connect_ret = VTLS_OK,
     write_ret = VTLS_OK, reads = (\<lambda>i. if i < 2 then (VTLS_OK, 1023) else (VTLS_PEER_CLOSE, 0))\<rparr>"

theorem answer_received_witness:
  "\<exists>calls. ssl_blocking_demo_main ssl_example = Some (Inr (0, 2046, calls)) \<and> count_list calls (Ssl_read 1023) = 3 \<and>
    Ssl_write http_request \<in> set calls"
  proof -
  have "(\<Sum>i<2. snd (reads ssl_example i)) = 2046" by (simp add: ssl_example_def lessThan_Suc numeral_2_eq_2)
  moreover have "\<forall>i<2. (fst (reads ssl_example i) = VTLS_OK \<or> fst (reads ssl_example i) = VTLS_EAGAIN) \<and>
      0 < snd (reads ssl_example i) \<and> snd (reads ssl_example i) < 1024"
    by (simp add: ssl_example_def)
  ultimately show ?thesis using answer_received [of ssl_example 2] by (simp add: ssl_example_def)
qed

theorem ssl_releases_everything_witness:
  "open_sockets (ssl_example\<lparr>hostinfo_ret := VTLS_ERROR 1\<rparr>)
     [Ssl_init, Ssl_new, Tcp_socket, Tcp_connect 3 ''93.184.216.34'' 443, Ssl_set_hostinfo ''www.example.com'' 443, Tcp_close 3, Ssl_free] = 0 \<and>
   live_objects (ssl_example\<lparr>hostinfo_ret := VTLS_ERROR 1\<rparr>)
     [Ssl_init, Ssl_new, Tcp_socket, Tcp_connect 3 ''93.184.216.34'' 443, Ssl_set_hostinfo ''www.example.com'' 443, Tcp_close 3, Ssl_free] = 0"
  by (rule ssl_releases_everything [where ret = "-1" and got = 0])
    (simp_all add: ssl_blocking_demo_main_def create_socket_connection_def ssl_example_def SSL_DEMO_SERVER_NAME_def SSL_DEMO_SERVER_PORT_def)

end
