(* ===== verification/Peripherals.thy ===== *)
theory Peripherals
  imports UniRTOS_Prelude
begin

text \<open>
  The demos of pins, serial port, SPI and display: \<^verbatim>\<open>peripheral/gpio/gpio_demo.c\<close>, \<^verbatim>\<open>peripheral/uart/uart_demo.c\<close>,
  \<^verbatim>\<open>peripheral/spi/spi_demo.c\<close> (which lacks one closing brace, after its polarity test; the model has it there) and
  \<^verbatim>\<open>peripheral/lcd/lcd_demo.c\<close>. The drivers are not part of the repository: an operation is the list of its
  calls, and what a driver answers is an argument.
\<close>

section \<open>Pins\<close>

datatype gpio_dir = DIR_INPUT | DIR_OUTPUT
datatype gpio_pull = PULL_NONE | PULL_DOWN | PULL_UP
datatype gpio_lvl = LVL_LOW | LVL_HIGH
datatype gpio_trigger = RISING_EDGE | FALLING_EDGE

record gpio_cfg_demo =
  pin_num :: nat
  cfg_dir :: gpio_dir
  cfg_pull :: gpio_pull
  cfg_lvl :: gpio_lvl

definition g_quec_gpio_cfg :: "gpio_cfg_demo list" where
  "g_quec_gpio_cfg =
     [\<lparr>pin_num = 21, cfg_dir = DIR_INPUT, cfg_pull = PULL_DOWN, cfg_lvl = LVL_LOW\<rparr>,
      \<lparr>pin_num = 52, cfg_dir = DIR_OUTPUT, cfg_pull = PULL_UP, cfg_lvl = LVL_HIGH\<rparr>]"

text \<open>The pin table of the platform, and the directions the hardware reports back.\<close>

record gpio_env =
  gpio_num :: "nat \<Rightarrow> nat"
  gpio_func :: "nat \<Rightarrow> nat"
  dir_read :: "nat \<Rightarrow> gpio_dir"

datatype gpio_call =
    Pin_set_func nat nat
  | Gpio_init nat gpio_dir gpio_pull gpio_lvl
  | Set_direction nat gpio_dir
  | Set_pull nat gpio_pull
  | Set_level nat gpio_lvl
  | Get_direction nat
  | Get_pull nat
  | Get_level nat
  | Pin_sleep nat
  | Interrupt_register nat gpio_pull
  | Interrupt_enable nat gpio_trigger

definition quec_gpio_demo_inits :: "gpio_env \<Rightarrow> gpio_call list" where
  "quec_gpio_demo_inits env =
     concat (map (\<lambda>c. [Pin_set_func (pin_num c) (gpio_func env (pin_num c)),
                       Gpio_init (gpio_num env (pin_num c)) (cfg_dir c) (cfg_pull c) (cfg_lvl c)]) g_quec_gpio_cfg)"

definition quec_gpio_demo_get_info :: "gpio_env \<Rightarrow> gpio_call list" where
  "quec_gpio_demo_get_info env =
     concat (map (\<lambda>c. let n = gpio_num env (pin_num c) in [Get_direction n, Get_pull n, Get_level n]) g_quec_gpio_cfg)"

text \<open>Direction and level are set anew for each pin.\<close>

definition quec_gpio_demo_set_out_test :: "gpio_env \<Rightarrow> gpio_call list" where
  "quec_gpio_demo_set_out_test env =
     concat (map (\<lambda>c. let n = gpio_num env (pin_num c) in
                      [Set_direction n DIR_OUTPUT, Set_level n LVL_LOW, Get_direction n, Get_level n]) g_quec_gpio_cfg) @
     [Pin_sleep 3] @
     concat (map (\<lambda>c. let n = gpio_num env (pin_num c) in [Set_level n LVL_HIGH, Get_level n]) g_quec_gpio_cfg) @
     [Pin_sleep 3]"

text \<open>The variable \<^verbatim>\<open>gpio_dir\<close> is set once, before the loop, and overwritten by the direction read back.\<close>

fun in_direction_loop :: "gpio_env \<Rightarrow> gpio_dir \<Rightarrow> gpio_cfg_demo list \<Rightarrow> gpio_call list" where
  "in_direction_loop env d [] = []"
| "in_direction_loop env d (c # cs) =
     (let n = gpio_num env (pin_num c) in
      [Set_direction n d, Set_pull n PULL_DOWN, Get_direction n, Get_pull n] @ in_direction_loop env (dir_read env n) cs)"

definition quec_gpio_demo_set_in_test :: "gpio_env \<Rightarrow> gpio_call list" where
  "quec_gpio_demo_set_in_test env =
     in_direction_loop env DIR_INPUT g_quec_gpio_cfg @ [Pin_sleep 3] @
     concat (map (\<lambda>c. let n = gpio_num env (pin_num c) in [Set_pull n PULL_UP, Get_pull n]) g_quec_gpio_cfg) @
     [Pin_sleep 3] @
     (let n = gpio_num env (pin_num (g_quec_gpio_cfg ! 0)) in [Interrupt_register n PULL_DOWN, Interrupt_enable n RISING_EDGE]) @
     (let n = gpio_num env (pin_num (g_quec_gpio_cfg ! 1)) in [Interrupt_register n PULL_UP, Interrupt_enable n FALLING_EDGE])"

definition quec_gpio_demo_process :: "gpio_env \<Rightarrow> gpio_call list" where
  "quec_gpio_demo_process env =
     [Pin_sleep 10] @ quec_gpio_demo_inits env @ quec_gpio_demo_get_info env @ quec_gpio_demo_set_out_test env @ quec_gpio_demo_set_in_test env"

text \<open>The direction a pin was given last.\<close>

fun requested_dir :: "nat \<Rightarrow> gpio_call list \<Rightarrow> gpio_dir option \<Rightarrow> gpio_dir option" where
  "requested_dir n [] d = d"
| "requested_dir n (Set_direction m e # cs) d = requested_dir n cs (if m = n then Some e else d)"
| "requested_dir n (Gpio_init m e _ _ # cs) d = requested_dir n cs (if m = n then Some e else d)"
| "requested_dir n (_ # cs) d = requested_dir n cs d"

text \<open>The demo leaves both pins as inputs when the hardware reports the first one as an input; otherwise the second
  pin, on which an interrupt is then enabled, is left in the direction the hardware reported for the first.\<close>

theorem second_pin_follows_first:
  assumes "gpio_num env 21 \<noteq> gpio_num env 52"
  shows "requested_dir (gpio_num env 21) (quec_gpio_demo_process env) None = Some DIR_INPUT \<and>
    requested_dir (gpio_num env 52) (quec_gpio_demo_process env) None = Some (dir_read env (gpio_num env 21))"
  using assms
  by (simp add: quec_gpio_demo_process_def quec_gpio_demo_inits_def quec_gpio_demo_get_info_def quec_gpio_demo_set_out_test_def
      quec_gpio_demo_set_in_test_def g_quec_gpio_cfg_def Let_def)

definition gpio_example :: gpio_env where
  "gpio_example = \<lparr>gpio_num = (\<lambda>p. p div 3), gpio_func = (\<lambda>_. 0), dir_read = (\<lambda>_. DIR_INPUT)\<rparr>"

theorem second_pin_follows_first_witness:
  "requested_dir 7 (quec_gpio_demo_process gpio_example) None = Some DIR_INPUT \<and>
   requested_dir 17 (quec_gpio_demo_process gpio_example) None = Some DIR_INPUT"
  using second_pin_follows_first [of gpio_example] by (simp add: gpio_example_def)

section \<open>Serial port\<close>

datatype uart_case = UART_OUTPUT | UART_READ_1 | UART_READ_2 | UART_BAUDRATE | UART_CHANGE_CCIO_MODE | UART_OTHER

datatype uart_call =
    Uart_register_cb bool bool
  | Uart_set_dcb nat
  | Uart_open
  | Uart_write string
  | Uart_read nat
  | Uart_sleep nat
  | Uart_set_baudrate nat
  | Uart_mode_normal
  | Uart_mode_at

text \<open>The callback prints into 128 zeroed bytes and writes all of them. Event bits: received, sent, sending low.\<close>

definition quec_uart_ind :: "nat \<Rightarrow> nat \<Rightarrow> bool \<times> bool \<times> bool \<Rightarrow> string \<Rightarrow> uart_call list" where
  "quec_uart_ind port event_id bits user_data =
     (let text = snprintf_buf 128 (''port='' @ fmt_u port @ '', event_id='' @ fmt_u event_id @ '', user_data='' @ c_str user_data);
          data = text @ replicate (128 - length text) NUL;
          (rx, tx_complete, tx_low) = bits
      in if rx then [Uart_write data] else if tx_complete then [Uart_write data] else if tx_low then [Uart_write data] else [])"

definition baudRateList :: "nat list" where
  "baudRateList = [0, 600, 1200, 2400, 4800, 9600, 19200, 38400, 57600, 115200, 230400, 460800, 921600]"

abbreviation crlf :: string where "crlf \<equiv> [CHR 13, CHR 10]"

definition uart_setup :: "uart_call list" where
  "uart_setup = [Uart_register_cb True True, Uart_set_dcb 115200, Uart_open]"

text \<open>One round of \<^verbatim>\<open>quec_uart_demo_process\<close>; \<open>received\<close> is what the driver stores into the buffer \<open>g_uart_data\<close> of 1024
  bytes, all of which are written back.\<close>

definition uart_round :: "string \<Rightarrow> uart_case \<Rightarrow> string \<Rightarrow> string \<times> uart_call list" where
  "uart_round g_uart_data c received =
     (case c of
        UART_OUTPUT \<Rightarrow> (g_uart_data, [Uart_sleep 1, Uart_write (''hello Quectel'' @ crlf)])
      | UART_READ_1 \<Rightarrow> (g_uart_data, [Uart_sleep 1])
      | UART_READ_2 \<Rightarrow>
          (let b = received @ drop (length received) g_uart_data in (b, [Uart_sleep 5, Uart_read 1024, Uart_write b]))
      | UART_BAUDRATE \<Rightarrow>
          (g_uart_data, concat (map (\<lambda>r. [Uart_set_baudrate r, Uart_sleep 1, Uart_write (''Baudrate TEST'' @ crlf), Uart_sleep 1]) baudRateList))
      | UART_CHANGE_CCIO_MODE \<Rightarrow>
          (g_uart_data, [Uart_mode_normal, Uart_write (''Enter Uart Mode'' @ crlf)] @
             concat (replicate 20 [Uart_write (''Waiting...'' @ crlf), Uart_sleep 1]) @
             [Uart_write (''Enter AT Mode'' @ crlf), Uart_sleep 1, Uart_mode_at, Uart_sleep 20])
      | UART_OTHER \<Rightarrow> (g_uart_data, []))"

text \<open>The callback is registered for completed writes, and each of them makes it write again.\<close>

fun is_write :: "uart_call \<Rightarrow> bool" where
  "is_write (Uart_write _) = True"
| "is_write _ = False"

text \<open>Completions are delivered one at a time; \<open>pending\<close> counts the writes not reported yet.\<close>

fun deliver :: "(nat \<Rightarrow> nat \<times> string) \<Rightarrow> nat \<Rightarrow> nat \<Rightarrow> nat \<times> uart_call list" where
  "deliver info 0 pending = (pending, [])"
| "deliver info (Suc n) pending =
     (if pending = 0 then (0, [])
      else
        let calls = quec_uart_ind 1 (fst (info n)) (False, True, False) (snd (info n));
            (p, more) = deliver info n (pending - 1 + length (filter is_write calls))
        in (p, calls @ more))"

text \<open>Once a write has been made, and if the driver reports every write as completed, the completions never end: each
  report makes the callback write again, so that after any number of completions as many writes have been made and as many reports are outstanding as
  before.\<close>

theorem completions_never_end:
  assumes "0 < pending"
  shows "fst (deliver info n pending) = pending \<and> length (filter is_write (snd (deliver info n pending))) = n"
proof (induction n)
  case (Suc n)
  have "length (filter is_write (quec_uart_ind 1 e (False, True, False) d)) = 1" for e d
    by (simp add: quec_uart_ind_def Let_def)
  with Suc assms show ?case by (auto simp: Let_def split: prod.split)
qed simp

theorem completions_never_end_witness:
  "fst (deliver (\<lambda>_. (2, ''Hello, Uart!'')) 7 1) = 1 \<and> length (filter is_write (snd (deliver (\<lambda>_. (2, ''Hello, Uart!'')) 7 1))) = 7"
  using completions_never_end [of 1 "\<lambda>_. (2, ''Hello, Uart!'')" 7] by simp

text \<open>Reading fewer bytes than the buffer holds writes the rest of the previous data once more.\<close>

lemma short_read_repeats_data:
  assumes "length b = 1024" "length received \<le> 1024"
  shows "uart_round b UART_READ_2 received = (received @ drop (length received) b, [Uart_sleep 5, Uart_read 1024, Uart_write (received @ drop (length received) b)]) \<and>
    length (received @ drop (length received) b) = 1024"
  using assms by (simp add: uart_round_def Let_def)

lemma callback_writes_128:
  "Uart_write d \<in> set (quec_uart_ind port ev bits u) \<Longrightarrow> length d = 128"
  using snprintf_length [of 128 "''port='' @ fmt_u port @ '', event_id='' @ fmt_u ev @ '', user_data='' @ c_str u"]
  by (auto simp: quec_uart_ind_def Let_def split: if_splits prod.splits)

section \<open>SPI\<close>

datatype spi_case =
    SPI_LOOPBACK | SPI_MODE | SPI_CLK | SPI_CLK_POLARITY_PHASE | SPI_NSS_MODE | SPI_BIT_ORDER | SPI_DATA_WIDTH
  | SPI_BIG_PACKAGE | SPI_OTHER

datatype spi_call =
    Spi_pin_func nat nat
  | Spi_init nat
  | Spi_deinit
  | Spi_sleep_ms nat
  | Spi_write_read "u8 list"
  | Spi_write "u8 list"
  | Spi_ioctl_clock nat
  | Spi_ioctl_phase nat
  | Spi_ioctl_nss nat
  | Spi_ioctl_bit_order nat
  | Spi_ioctl_width nat
  | Cs_gpio_init
  | Cs_level bool
  | Spi_malloc nat
  | Spi_free

text \<open>Platform constants: transfer modes, clock and phase settings, the enumerators of the chip-select modes, bit orders
  and widths.\<close>

record spi_api =
  transmit_polling :: nat
  transmit_dma :: nat
  clk_list :: "nat list"
  frame_formats :: "nat list"
  nss_master_hardware :: nat
  nss_master_software :: nat
  bit_orders :: "nat list"
  data_widths :: "nat list"

definition MOSI_PIN :: nat where "MOSI_PIN = 50"
definition MISO_PIN :: nat where "MISO_PIN = 51"
definition CLK_PIN :: nat where "CLK_PIN = 53"
definition CS_PIN :: nat where "CS_PIN = 52"

record spi_state =
  g_spi_test_case :: spi_case
  g_spi_is_init :: bool

definition spi_setup :: "spi_api \<Rightarrow> spi_state \<Rightarrow> spi_state \<times> spi_call list" where
  "spi_setup api s =
     (s\<lparr>g_spi_is_init := True\<rparr>,
      [Spi_sleep_ms 3000, Spi_pin_func MOSI_PIN 1, Spi_pin_func MISO_PIN 1, Spi_pin_func CLK_PIN 1, Spi_pin_func CS_PIN 1,
       Spi_init (transmit_polling api)])"

text \<open>A setting is made, and a fixed pattern written.\<close>

definition spi_each :: "(nat \<Rightarrow> spi_call) \<Rightarrow> u8 list \<Rightarrow> nat list \<Rightarrow> spi_call list" where
  "spi_each setting data xs = concat (map (\<lambda>x. [setting x, Spi_sleep_ms 1000, Spi_write data, Spi_sleep_ms 1000]) xs)"

text \<open>The loop compares its index, not the mode it has set, with the enumerators.\<close>

definition nss_round :: "spi_api \<Rightarrow> nat \<Rightarrow> nat \<Rightarrow> spi_call list" where
  "nss_round api i mode =
     [Spi_ioctl_nss mode, Spi_sleep_ms 1000] @
     (if i = nss_master_hardware api then [Spi_pin_func CS_PIN 1, Spi_write [0x77]]
      else if i = nss_master_software api
        then [Spi_pin_func CS_PIN 0, Cs_gpio_init, Cs_level False, Spi_write [0x88], Cs_level True]
      else []) @ [Spi_sleep_ms 1000]"

text \<open>A block of each size is allocated, written and freed.\<close>

definition big_package :: "(nat \<Rightarrow> bool) \<Rightarrow> nat \<Rightarrow> spi_call list" where
  "big_package alloc n = (if alloc n then [Spi_malloc n, Spi_write (replicate n 0x12), Spi_free] else [])"

definition spi_round :: "spi_api \<Rightarrow> u8 \<Rightarrow> (nat \<Rightarrow> nat \<Rightarrow> bool) \<Rightarrow> spi_state \<Rightarrow> spi_call list" where
  "spi_round api random alloc s =
     Spi_sleep_ms 1000 #
     (case g_spi_test_case s of
        SPI_LOOPBACK \<Rightarrow> [Spi_write_read [random]]
      | SPI_CLK \<Rightarrow> [Spi_deinit, Spi_init (transmit_dma api)] @ spi_each Spi_ioctl_clock (replicate 10 0x66) (clk_list api)
      | SPI_CLK_POLARITY_PHASE \<Rightarrow> spi_each Spi_ioctl_phase [0x66] (frame_formats api)
      | SPI_NSS_MODE \<Rightarrow> nss_round api 0 (nss_master_hardware api) @ nss_round api 1 (nss_master_software api)
      | SPI_BIT_ORDER \<Rightarrow> spi_each Spi_ioctl_bit_order [0x99] (bit_orders api)
      | SPI_DATA_WIDTH \<Rightarrow> spi_each Spi_ioctl_width (replicate 16 0x11) (data_widths api)
      | SPI_BIG_PACKAGE \<Rightarrow>
          concat (map (\<lambda>m. [Spi_deinit, Spi_init m] @ concat (map (big_package (alloc m)) [5, 5 * 1024, 10 * 1024]))
            [transmit_polling api, transmit_dma api])
      | _ \<Rightarrow> [])"

definition quec_demo_spi_case_switch :: "spi_api \<Rightarrow> spi_case \<Rightarrow> spi_state \<Rightarrow> spi_state \<times> spi_call list" where
  "quec_demo_spi_case_switch api caseNo s =
     (s\<lparr>g_spi_test_case := caseNo\<rparr>,
      if g_spi_is_init s then [Spi_pin_func CS_PIN 1, Spi_ioctl_nss (nss_master_hardware api)] else [])"

text \<open>What a run of calls leaves behind: the blocks in use, the function of the chip-select pin and the mode set last.\<close>

record spi_view =
  blocks :: int
  cs_func :: nat
  nss_mode :: nat

fun spi_effect :: "spi_call \<Rightarrow> spi_view \<Rightarrow> spi_view" where
  "spi_effect (Spi_malloc n) v = v\<lparr>blocks := blocks v + 1\<rparr>"
| "spi_effect Spi_free v = v\<lparr>blocks := blocks v - 1\<rparr>"
| "spi_effect (Spi_pin_func p f) v = (if p = CS_PIN then v\<lparr>cs_func := f\<rparr> else v)"
| "spi_effect (Spi_ioctl_nss m) v = v\<lparr>nss_mode := m\<rparr>"
| "spi_effect _ v = v"

text \<open>The pin is driven by the controller exactly in the hardware mode.\<close>

definition cs_consistent :: "spi_api \<Rightarrow> spi_view \<Rightarrow> bool" where
  "cs_consistent api v \<longleftrightarrow>
     (nss_mode v = nss_master_hardware api \<longrightarrow> cs_func v = 1) \<and> (nss_mode v = nss_master_software api \<longrightarrow> cs_func v = 0)"

lemma spi_each_effect:
  assumes "\<And>x v. spi_effect (setting x) v = v"
  shows "fold spi_effect (spi_each setting data xs) v = v"
  using assms by (induction xs arbitrary: v) (simp_all add: spi_each_def)

lemma big_package_effect: "fold spi_effect (big_package alloc n) v = v"
  by (simp add: big_package_def)

text \<open>In every test case a round frees the blocks it allocates and keeps the chip-select pin in step with the
  chip-select mode, provided the enumerators of the two modes are the positions at which the loop sets them.\<close>

theorem spi_round_consistent:
  assumes "nss_master_hardware api = 0" "nss_master_software api = 1" "cs_consistent api v"
  shows "blocks (fold spi_effect (spi_round api r alloc s) v) = blocks v \<and> cs_consistent api (fold spi_effect (spi_round api r alloc s) v)"
  using assms
  by (cases "g_spi_test_case s")
    (simp_all add: spi_round_def spi_each_effect nss_round_def big_package_effect cs_consistent_def CS_PIN_def)

text \<open>With other enumerators the pin no longer follows the mode.\<close>

lemma nss_index_mismatch:
  assumes "nss_master_hardware api = 1" "nss_master_software api = 2" "g_spi_test_case s = SPI_NSS_MODE"
  shows "\<not> cs_consistent api (fold spi_effect (spi_round api r alloc s) v)"
  using assms by (simp add: spi_round_def nss_round_def cs_consistent_def CS_PIN_def)

text \<open>Switching the case puts pin and mode back to hardware once the port is initialised.\<close>

lemma case_switch_resets:
  assumes "g_spi_is_init s" "nss_master_hardware api \<noteq> nss_master_software api"
  shows "cs_consistent api (fold spi_effect (snd (quec_demo_spi_case_switch api c s)) v) \<and>
    g_spi_test_case (fst (quec_demo_spi_case_switch api c s)) = c"
  using assms by (simp add: quec_demo_spi_case_switch_def cs_consistent_def)

definition spi_example :: spi_api where
  "spi_example = \<lparr>transmit_polling = 0, transmit_dma = 1, clk_list = [1, 2, 3, 4, 5, 6, 7], frame_formats = [0, 1, 2, 3],
     nss_master_hardware = 0, nss_master_software = 1, bit_orders = [0, 1], data_widths = [1, 2]\<rparr>"

theorem spi_round_consistent_witness:
  "let v = \<lparr>blocks = 0, cs_func = 1, nss_mode = 0\<rparr>; s = \<lparr>g_spi_test_case = SPI_NSS_MODE, g_spi_is_init = True\<rparr> in
   blocks (fold spi_effect (spi_round spi_example 7 (\<lambda>_ _. True) s) v) = 0 \<and>
   cs_consistent spi_example (fold spi_effect (spi_round spi_example 7 (\<lambda>_ _. True) s) v)"
  using spi_round_consistent [of spi_example "\<lparr>blocks = 0, cs_func = 1, nss_mode = 0\<rparr>" 7 "\<lambda>_ _. True" "\<lparr>g_spi_test_case = SPI_NSS_MODE, g_spi_is_init = True\<rparr>"]
  by (simp add: Let_def cs_consistent_def) (simp add: spi_example_def)

section \<open>Display\<close>

datatype lcd_case = LCD_API_TEST | LCD_READ_ID | LCD_SHOW_PICTURE | LCD_FLESH_RATE | LCD_OTHER

datatype lcd_colour = LCD_RED | LCD_GREEN | LCD_BLUE | LCD_WHITE

datatype lcd_call =
    Lcd_pins
  | Lcd_set_config
  | Lcd_init
  | Lcd_deinit
  | Lcd_sleep_ms nat
  | Lcd_clear lcd_colour
  | Lcd_write u32 u32 u32 u32
  | Lcd_off
  | Lcd_on
  | Lcd_read_id

definition lcd_frame :: "u32 \<Rightarrow> lcd_call list" where
  "lcd_frame pos =
     [Lcd_clear LCD_WHITE, Lcd_write (pos mod 26) (pos mod 283) ((pos mod 26) + 214 - 1) ((pos mod 283) + 36 - 1)]"

text \<open>The loop of \<^verbatim>\<open>quec_refresh_rate_test\<close>; \<open>tick k\<close> is the answer of the \<open>k\<close>-th query of the counter. Every sixtieth frame
  asks once more.\<close>

partial_function (option) refresh_loop :: "(nat \<Rightarrow> u32) \<Rightarrow> u32 \<Rightarrow> nat \<Rightarrow> nat \<Rightarrow> u32 \<Rightarrow> (nat \<times> lcd_call list) option" where
  "refresh_loop tick start_time k frame_count pos =
     (if tick k - start_time < 5000
      then Option.bind (refresh_loop tick start_time (if Suc frame_count mod 60 = 0 then k + 2 else k + 1) (Suc frame_count) (pos + 10))
        (\<lambda>r. Some (fst r, lcd_frame pos @ snd r))
      else Some (frame_count, []))"

definition quec_refresh_rate_test :: "(nat \<Rightarrow> u32) \<Rightarrow> (nat \<times> lcd_call list) option" where
  "quec_refresh_rate_test tick = refresh_loop tick (tick 0) 1 0 0"

text \<open>The task up to its loop, and whether it goes on.\<close>

definition lcd_setup :: "bool \<Rightarrow> bool \<times> lcd_call list" where
  "lcd_setup init_ok = (init_ok, [Lcd_sleep_ms 3000, Lcd_pins, Lcd_set_config, Lcd_init])"

definition lcd_round :: "(nat \<Rightarrow> u32) \<Rightarrow> lcd_case \<Rightarrow> lcd_call list option" where
  "lcd_round tick c =
     (case c of
        LCD_API_TEST \<Rightarrow>
          Some [Lcd_sleep_ms 1000, Lcd_deinit, Lcd_init, Lcd_sleep_ms 1000, Lcd_clear LCD_RED, Lcd_sleep_ms 1000,
                Lcd_write 0 0 (214 - 1) (36 - 1), Lcd_sleep_ms 1000, Lcd_off, Lcd_clear LCD_BLUE, Lcd_sleep_ms 1000, Lcd_on, Lcd_clear LCD_GREEN]
      | LCD_READ_ID \<Rightarrow> Some [Lcd_sleep_ms 1000, Lcd_read_id]
      | LCD_SHOW_PICTURE \<Rightarrow>
          Some [Lcd_sleep_ms 1000, Lcd_sleep_ms 1000, Lcd_clear LCD_RED, Lcd_sleep_ms 1000, Lcd_clear LCD_GREEN, Lcd_sleep_ms 1000,
                Lcd_clear LCD_BLUE, Lcd_sleep_ms 1000, Lcd_write 0 0 (214 - 1) (36 - 1)]
      | LCD_FLESH_RATE \<Rightarrow> map_option (\<lambda>r. Lcd_sleep_ms 1000 # snd r) (quec_refresh_rate_test tick)
      | LCD_OTHER \<Rightarrow> Some [Lcd_sleep_ms 1000])"

text \<open>A picture of 214 by 36 points, within 239 columns and 318 rows.\<close>

fun picture_fits :: "lcd_call \<Rightarrow> bool" where
  "picture_fits (Lcd_write x0 y0 x1 y1) \<longleftrightarrow>
     unat x1 = unat x0 + 213 \<and> unat y1 = unat y0 + 35 \<and> unat x1 < 239 \<and> unat y1 < 318"
| "picture_fits _ = True"

lemma corner:
  fixes x :: u32
  assumes "unat x < 1000"
  shows "unat (213 + x) = unat x + 213" "unat (35 + x) = unat x + 35"
  using assms by (simp_all add: unat_word_ariths)

lemma lcd_frame_fits: "list_all picture_fits (lcd_frame pos)"
proof -
  have "unat (pos mod 26) < 26" "unat (pos mod 283) < 283" by (simp_all add: unat_mod)
  then show ?thesis using corner [of "pos mod 26"] corner [of "pos mod 283"] by (simp add: lcd_frame_def)
qed

lemma refresh_loop_fits:
  assumes "refresh_loop tick t k n pos = Some r"
  shows "list_all picture_fits (snd r)"
proof (rule refresh_loop.raw_induct [where P = "\<lambda>tick t k n pos r. list_all picture_fits (snd r)", OF _ assms])
  fix loop :: "(nat \<Rightarrow> u32) \<Rightarrow> u32 \<Rightarrow> nat \<Rightarrow> nat \<Rightarrow> u32 \<Rightarrow> (nat \<times> lcd_call list) option"
  fix tick t k n pos r
  assume IH: "\<And>tick t k n pos r. loop tick t k n pos = Some r \<Longrightarrow> list_all picture_fits (snd r)"
    and body: "(if tick k - t < 5000
        then Option.bind (loop tick t (if Suc n mod 60 = 0 then k + 2 else k + 1) (Suc n) (pos + 10)) (\<lambda>r. Some (fst r, lcd_frame pos @ snd r))
        else Some (n, [])) = Some r"
  show "list_all picture_fits (snd r)"
  proof (cases "tick k - t < 5000")
    case True
    with body obtain r1 where "loop tick t (if Suc n mod 60 = 0 then k + 2 else k + 1) (Suc n) (pos + 10) = Some r1"
        "r = (fst r1, lcd_frame pos @ snd r1)"
      by (simp only: if_True bind_eq_Some_conv) blast
    with IH show ?thesis by (simp add: lcd_frame_fits)
  next
    case False
    with body show ?thesis by auto
  qed
qed

text \<open>Every picture of every test round stays within 239 columns and 318 rows, with all its corners in order, however
  often the position has wrapped around.\<close>

theorem pictures_fit:
  assumes "lcd_round tick c = Some calls"
  shows "list_all picture_fits calls"
  using assms by (cases c) (auto simp: lcd_round_def quec_refresh_rate_test_def dest!: refresh_loop_fits)

text \<open>The test of the rate ends, also when the counter wraps around, if it runs past the five seconds for good.\<close>

lemma refresh_loop_ends:
  assumes "\<forall>j\<ge>K. \<not> tick j - t < 5000"
  shows "\<exists>r. refresh_loop tick t k n pos = Some r"
proof (induction "K - k" arbitrary: k n pos rule: less_induct)
  case less
  show ?case
  proof (cases "tick k - t < 5000")
    case True
    then have "k < K" using assms by (meson not_le)
    then have "K - (if Suc n mod 60 = 0 then k + 2 else k + 1) < K - k" by auto
    from less [OF this] obtain r where "refresh_loop tick t (if Suc n mod 60 = 0 then k + 2 else k + 1) (Suc n) (pos + 10) = Some r"
      by blast
    with True show ?thesis by (subst refresh_loop.simps) simp
  next
    case False
    then show ?thesis by (subst refresh_loop.simps) simp
  qed
qed

theorem pictures_fit_witness:
  "list_all picture_fits (lcd_frame 0 @ lcd_frame 10) \<and> quec_refresh_rate_test (\<lambda>k. if k = 0 then 0xFFFFFFFF else if k < 3 then 5 else 6000) = Some (2, lcd_frame 0 @ lcd_frame 10)"
proof -
  let ?tick = "\<lambda>k. if k = 0 then 0xFFFFFFFF else if k < 3 then 5 else 6000"
  have run: "quec_refresh_rate_test ?tick = Some (2, lcd_frame 0 @ lcd_frame 10)"
    unfolding quec_refresh_rate_test_def
    by (subst refresh_loop.simps, simp, subst refresh_loop.simps, simp, subst refresh_loop.simps, simp)
  then have "lcd_round ?tick LCD_FLESH_RATE = Some (Lcd_sleep_ms 1000 # lcd_frame 0 @ lcd_frame 10)" by (simp add: lcd_round_def)
  from pictures_fit [OF this] run show ?thesis by simp
qed

end
