(* ===== verification/Audio.thy ===== *)
theory Audio
  imports UniRTOS_Prelude
begin

text \<open>
  Playing and recording a file, \<^verbatim>\<open>peripheral/audio/play/audio_play.c\<close> and \<^verbatim>\<open>peripheral/audio/recording/audio_recording.c\<close>.

  Both functions take a lock, allocate a context, open a file and a stream, and put the context on a list; every
  error jumps to a common end that undoes the work (the macro \<^verbatim>\<open>qosa_aud_err_exit\<close> stores its argument and jumps). The state counts what is held: the lock, live contexts
  and open files.
\<close>

section \<open>State\<close>

datatype aud_err =
    AUD_SUCCESS | AUD_INVALID_PARAM | AUD_MUTEX_ERR | AUD_REOPEN_ERR | AUD_NO_MEMORY_ERR | AUD_FILE_OPEN_ERR | AUD_FILE_WRITE_ERR
  | AUD_SYSTEM_ERR

record aud_file =
  fd :: int
  head_size :: nat
  is_repeat :: bool

text \<open>\<^verbatim>\<open>gQAudFileMgr\<close> as one of the two functions sees it, and the resources in use.\<close>

record aud_file_sys =
  lock_created :: bool
  lock_held :: bool
  ctx_list :: "aud_file list"
  live_ctx :: nat
  open_files :: nat
  is_record :: bool

text \<open>Answers: the lock, the allocator, the file, the format with the size of its header, the stream, and the bytes of
  the header written.\<close>

record aud_env =
  lock_ok :: bool
  calloc_ok :: bool
  open_fd :: int
  fmt_known :: bool
  header :: nat
  info_rate :: nat
  stream_ok :: bool
  header_written :: int

datatype aud_call =
    Mutex_create
  | Aud_seek int nat
  | Stream_open nat bool
  | Write_header nat nat
  | Aud_close int

text \<open>Constants of the platform: the two sample rates and the size of a WAV header.\<close>

record aud_api =
  rate_8k :: nat
  rate_16k :: nat
  wav_header_size :: nat

section \<open>Operations\<close>

text \<open>The common end: on an error the context is read before it is tested for \<^verbatim>\<open>NULL\<close>.\<close>

definition aud_exit :: "aud_err \<Rightarrow> aud_file option \<Rightarrow> aud_file_sys \<Rightarrow> aud_call list \<Rightarrow> (aud_err \<times> aud_file option \<times> aud_file_sys \<times> aud_call list) c_result" where
  "aud_exit ret file_ctx s calls =
     (if ret \<noteq> AUD_SUCCESS then
        (case file_ctx of
           None \<Rightarrow> Inl Null_dereference
         | Some f \<Rightarrow>
             (let s1 = (if fd f \<noteq> 0 then s\<lparr>open_files := open_files s - of_bool (0 \<le> fd f)\<rparr> else s);
                  c1 = (if fd f \<noteq> 0 then [Aud_close (fd f)] else [])
              in Inr (ret, None, s1\<lparr>live_ctx := live_ctx s1 - 1, lock_held := False\<rparr>, calls @ c1)))
      else Inr (ret, file_ctx, s\<lparr>lock_held := False\<rparr>, calls))"

text \<open>The part both functions begin with.\<close>

definition aud_enter ::
  "aud_env \<Rightarrow> aud_file_sys \<Rightarrow> (aud_file_sys \<Rightarrow> aud_call list \<Rightarrow> (aud_err \<times> aud_file option \<times> aud_file_sys \<times> aud_call list) c_result) \<Rightarrow>
   (aud_err \<times> aud_file option \<times> aud_file_sys \<times> aud_call list) c_result" where
  "aud_enter env s body =
     (let s1 = s\<lparr>lock_created := True, ctx_list := (if lock_created s then ctx_list s else [])\<rparr>;
          c1 = (if lock_created s then [] else [Mutex_create])
      in if \<not> lock_ok env then Inr (AUD_MUTEX_ERR, None, s1, c1)
         else
           let s2 = s1\<lparr>lock_held := True\<rparr> in
           if ctx_list s2 \<noteq> [] then aud_exit AUD_REOPEN_ERR None s2 c1
           else if \<not> calloc_ok env then aud_exit AUD_NO_MEMORY_ERR None s2 c1
           else body (s2\<lparr>live_ctx := live_ctx s2 + 1\<rparr>) c1)"

definition zero_file :: aud_file where
  "zero_file = \<lparr>fd = 0, head_size = 0, is_repeat = False\<rparr>"

definition qcm_aud_play_file ::
  "aud_env \<Rightarrow> nat option \<Rightarrow> aud_file_sys \<Rightarrow> (aud_err \<times> aud_file option \<times> aud_file_sys \<times> aud_call list) c_result" where
  "qcm_aud_play_file env options s =
     (case options of
        None \<Rightarrow> Inr (AUD_INVALID_PARAM, None, s, [])
      | Some opts \<Rightarrow> aud_enter env s (\<lambda>s1 calls.
          let f = zero_file\<lparr>fd := open_fd env\<rparr> in
          if fd f < 0 then aud_exit AUD_FILE_OPEN_ERR (Some f) s1 calls
          else
            let s2 = s1\<lparr>open_files := open_files s1 + 1\<rparr> in
            if \<not> fmt_known env then aud_exit AUD_INVALID_PARAM (Some f) s2 calls
            else
              let c2 = calls @ (if header env > 0 then [Aud_seek (fd f) (header env)] else []);
                  f2 = f\<lparr>head_size := header env, is_repeat := odd opts\<rparr>;
                  s3 = s2\<lparr>is_record := False\<rparr>;
                  c3 = c2 @ [Stream_open (info_rate env) False]
              in if \<not> stream_ok env then aud_exit AUD_SYSTEM_ERR (Some f2) s3 c3
                 else aud_exit AUD_SUCCESS (Some f2) (s3\<lparr>ctx_list := ctx_list s3 @ [f2]\<rparr>) c3))"

text \<open>Any other sample rate than the two is replaced by the lower.\<close>

definition record_samprate :: "aud_api \<Rightarrow> nat \<Rightarrow> nat" where
  "record_samprate api r = (if r \<noteq> rate_8k api \<and> r \<noteq> rate_16k api then rate_8k api else r)"

definition qcm_aud_record_file ::
  "aud_api \<Rightarrow> aud_env \<Rightarrow> nat option \<Rightarrow> aud_file_sys \<Rightarrow> (aud_err \<times> aud_file option \<times> aud_file_sys \<times> aud_call list) c_result" where
  "qcm_aud_record_file api env samprate s =
     (case samprate of
        None \<Rightarrow> Inr (AUD_INVALID_PARAM, None, s, [])
      | Some r \<Rightarrow> aud_enter env s (\<lambda>s1 calls.
          let rate = record_samprate api r; f = zero_file\<lparr>fd := open_fd env\<rparr> in
          if fd f < 0 then aud_exit AUD_FILE_OPEN_ERR (Some f) s1 calls
          else
            let s2 = s1\<lparr>open_files := open_files s1 + 1\<rparr>;
                c2 = calls @ [Write_header rate ((rate * 1 * 16) div 8)]
            in if header_written env \<noteq> int (wav_header_size api) then aud_exit AUD_FILE_WRITE_ERR (Some f) s2 c2
               else
                 let s3 = s2\<lparr>is_record := True\<rparr>; c3 = c2 @ [Stream_open rate True] in
                 if \<not> stream_ok env then aud_exit AUD_SYSTEM_ERR (Some f) s3 c3
                 else aud_exit AUD_SUCCESS (Some f) (s3\<lparr>ctx_list := ctx_list s3 @ [f]\<rparr>) c3))"

section \<open>Properties\<close>

lemmas aud_defs = qcm_aud_play_file_def qcm_aud_record_file_def aud_enter_def aud_exit_def zero_file_def Let_def

text \<open>Starting to play while a file is playing, or without memory for the context, reads through \<^verbatim>\<open>NULL\<close> at the common
  end, with the lock held; the same holds for recording.\<close>

theorem second_play_dereferences_null:
  assumes "lock_ok env" "(lock_created s \<and> ctx_list s \<noteq> []) \<or> \<not> calloc_ok env"
  shows "qcm_aud_play_file env (Some opts) s = Inl Null_dereference \<and> qcm_aud_record_file api env (Some r) s = Inl Null_dereference"
  using assms by (auto simp: aud_defs)

text \<open>On every other failure the function gives back what it took: the lock is free, no context and no open file
  is left behind and the list is unchanged, provided the file did not get descriptor 0.\<close>

theorem failed_play_releases_all:
  assumes "qcm_aud_play_file env opts s = Inr (ret, h, s', calls)" "ret \<noteq> AUD_SUCCESS" "lock_created s" "\<not> lock_held s" "open_fd env \<noteq> 0"
  shows "live_ctx s' = live_ctx s \<and> open_files s' = open_files s \<and> \<not> lock_held s' \<and> ctx_list s' = ctx_list s \<and> h = None"
  using assms by (auto simp: aud_defs split: if_splits option.splits)

lemma failed_record_releases_all:
  assumes "qcm_aud_record_file api env r s = Inr (ret, h, s', calls)" "ret \<noteq> AUD_SUCCESS" "lock_created s" "\<not> lock_held s" "open_fd env \<noteq> 0"
  shows "live_ctx s' = live_ctx s \<and> open_files s' = open_files s \<and> \<not> lock_held s' \<and> ctx_list s' = ctx_list s \<and> h = None"
  using assms by (auto simp: aud_defs split: if_splits option.splits)

text \<open>A file with descriptor 0 is not closed.\<close>

lemma descriptor_zero_leaks:
  assumes "lock_ok env" "calloc_ok env" "open_fd env = 0" "\<not> fmt_known env" "lock_created s" "ctx_list s = []"
  shows "\<exists>s' calls. qcm_aud_play_file env (Some opts) s = Inr (AUD_INVALID_PARAM, None, s', calls) \<and> open_files s' = open_files s + 1"
  using assms by (simp add: aud_defs)

text \<open>A successful start: one context on the list, which is also the handle, and the lock free.\<close>

lemma play_succeeds:
  assumes "lock_ok env" "calloc_ok env" "0 \<le> open_fd env" "fmt_known env" "stream_ok env" "lock_created s" "ctx_list s = []"
  shows "\<exists>f s' calls. qcm_aud_play_file env (Some opts) s = Inr (AUD_SUCCESS, Some f, s', calls) \<and> ctx_list s' = [f] \<and>
    fd f = open_fd env \<and> is_repeat f = odd opts \<and> live_ctx s' = live_ctx s + 1 \<and> open_files s' = open_files s + 1 \<and> \<not> lock_held s'"
  using assms by (simp add: aud_defs)

lemma record_header_rate:
  assumes "qcm_aud_record_file api env (Some r) s = Inr (ret, h, s', calls)" "Write_header rate bytes \<in> set calls"
  shows "rate \<in> {rate_8k api, rate_16k api} \<and> bytes = 2 * rate"
  using assms by (auto simp: aud_defs record_samprate_def split: if_splits)

section \<open>Example inputs\<close>

definition aud_example :: aud_file_sys where
  "aud_example = \<lparr>lock_created = True, lock_held = False, ctx_list = [], live_ctx = 0, open_files = 0, is_record = False\<rparr>"

definition aud_example_env :: aud_env where
  "aud_example_env = \<lparr>lock_ok = True, calloc_ok = True, open_fd = 4, fmt_known = True, header = 44, info_rate = 16000, stream_ok = False, header_written = 44\<rparr>"

theorem second_play_dereferences_null_witness:
  "qcm_aud_play_file aud_example_env (Some 0) (aud_example\<lparr>ctx_list := [zero_file]\<rparr>) = Inl Null_dereference \<and>
   qcm_aud_record_file \<lparr>rate_8k = 8000, rate_16k = 16000, wav_header_size = 44\<rparr> aud_example_env (Some 8000) (aud_example\<lparr>ctx_list := [zero_file]\<rparr>) = Inl Null_dereference"
  by (rule second_play_dereferences_null) (simp_all add: aud_example_def aud_example_env_def)

theorem failed_play_releases_all_witness:
  "\<exists>h s' calls. qcm_aud_play_file aud_example_env (Some 0) aud_example = Inr (AUD_SYSTEM_ERR, h, s', calls) \<and>
    live_ctx s' = 0 \<and> open_files s' = 0 \<and> \<not> lock_held s'"
proof -
  obtain h s' calls where run: "qcm_aud_play_file aud_example_env (Some 0) aud_example = Inr (AUD_SYSTEM_ERR, h, s', calls)"
    by (simp add: aud_defs aud_example_def aud_example_env_def)
  from failed_play_releases_all [OF run] show ?thesis
    using run by (simp add: aud_example_def aud_example_env_def)
qed

end
