(* ===== verification/Usbnet.thy ===== *)
theory Usbnet
  imports UniRTOS_Prelude
begin

text \<open>
  The USB network demo, \<^verbatim>\<open>network/nic/usbnet/usbnet_demo.c\<close>. The task hands its configuration block to the service as the
  context of two asynchronous calls; the callback of each frees it, and so does the end of the task. A
  confirmation comes within the twenty seconds the task sleeps, after the task has ended, or never.
\<close>

definition USBNET_DEMO_WAIT_ATTACH_MAX_WAIT_TIME :: int where "USBNET_DEMO_WAIT_ATTACH_MAX_WAIT_TIME = 30"

datatype usb_cnf = Cnf_in_time | Cnf_late | Cnf_never

record usb_env =
  config_alloc :: bool
  type_is_rndis :: bool
  set_type_ok :: bool
  usb_attached :: bool
  call_is_up :: bool
  call_start_ok :: bool
  set_config_ok :: bool
  start_cnf :: usb_cnf
  stop_cnf :: usb_cnf
  delete_returns :: bool       \<comment> \<open>whether \<^verbatim>\<open>qosa_task_delete\<close> of the running task returns\<close>

datatype usb_call =
    Usb_get_type
  | Usb_set_type
  | Usb_sleep int
  | Usb_reset
  | Usb_wait_attached int
  | Usb_set_context string
  | Usb_conn_new
  | Usb_call_start int
  | Usb_set_config
  | Usb_start
  | Usb_stop
  | Usb_task_delete

text \<open>The block and the calls made; reading or freeing the block needs it to be live.\<close>

record usb_state =
  config_live :: bool
  usb_calls :: "usb_call list"

definition usb_do :: "usb_call list \<Rightarrow> usb_state \<Rightarrow> usb_state" where
  "usb_do cs s = s\<lparr>usb_calls := usb_calls s @ cs\<rparr>"

definition free_config :: "usb_state \<Rightarrow> usb_state c_result" where
  "free_config s = (if config_live s then Inr (s\<lparr>config_live := False\<rparr>) else Inl Use_after_free)"

definition read_config :: "usb_state \<Rightarrow> usb_state c_result" where
  "read_config s = (if config_live s then Inr s else Inl Use_after_free)"

definition usbnet_demo_func_cb :: "usb_state \<Rightarrow> usb_state c_result" where
  "usbnet_demo_func_cb s = free_config s"

text \<open>The task deletes itself before it frees the block.\<close>

definition usb_exit :: "usb_env \<Rightarrow> usb_state \<Rightarrow> usb_state c_result" where
  "usb_exit env s = (let s1 = usb_do [Usb_task_delete] s in if delete_returns env then free_config s1 else Inr s1)"

definition deliver_if :: "bool \<Rightarrow> usb_state \<Rightarrow> usb_state c_result" where
  "deliver_if b s = (if b then usbnet_demo_func_cb s else Inr s)"

text \<open>The part from the start of the service on. The method is automatic connection, so the service is started and
  stopped.\<close>

definition usb_service :: "usb_env \<Rightarrow> usb_state \<Rightarrow> usb_state c_result" where
  "usb_service env s =
     c_bind (read_config s) (\<lambda>s.
     c_bind (deliver_if (start_cnf env = Cnf_in_time) (usb_do [Usb_start, Usb_sleep 20] s)) (\<lambda>s.
     c_bind (read_config s) (\<lambda>s.
     c_bind (usb_exit env (usb_do [Usb_stop] s)) (\<lambda>s.
     c_bind (deliver_if (start_cnf env = Cnf_late) s) (\<lambda>s.
       deliver_if (stop_cnf env \<noteq> Cnf_never) s)))))"

definition qosa_usbnet_demo_task :: "usb_env \<Rightarrow> usb_state c_result" where
  "qosa_usbnet_demo_task env =
     (if \<not> config_alloc env then Inr \<lparr>config_live = False, usb_calls = []\<rparr>
      else
        let s = \<lparr>config_live = True, usb_calls = [Usb_get_type]\<rparr> in
        if \<not> type_is_rndis env then
          (if \<not> set_type_ok env then usb_exit env (usb_do [Usb_sleep 20, Usb_set_type] s)
           else usb_exit env (usb_do [Usb_sleep 20, Usb_set_type, Usb_sleep 20, Usb_reset] s))
        else
          let s1 = usb_do [Usb_wait_attached USBNET_DEMO_WAIT_ATTACH_MAX_WAIT_TIME] s in
          if \<not> usb_attached env then usb_exit env s1
          else
            let s2 = usb_do [Usb_set_context ''test'', Usb_conn_new] s1;
                s3 = (if call_is_up env then s2 else usb_do [Usb_call_start USBNET_DEMO_WAIT_ATTACH_MAX_WAIT_TIME] s2)
            in if \<not> call_is_up env \<and> \<not> call_start_ok env then usb_exit env s3
               else
                 let s4 = usb_do [Usb_set_config] s3 in
                 if \<not> set_config_ok env then usb_exit env s4 else usb_service env s4)"

text \<open>Once the service is started, the block is used after it was freed exactly when its start is confirmed in
  time (the callback frees the block the task reads next), or later with a second confirmation, or when there is
  any confirmation and the task lives to free the block itself.\<close>

theorem usbnet_confirmation_uses_freed_block:
  assumes "config_alloc env" "type_is_rndis env" "usb_attached env" "call_is_up env \<or> call_start_ok env" "set_config_ok env"
  shows "qosa_usbnet_demo_task env = Inl Use_after_free \<longleftrightarrow>
    start_cnf env = Cnf_in_time \<or> (start_cnf env = Cnf_late \<and> stop_cnf env \<noteq> Cnf_never) \<or>
    (delete_returns env \<and> (start_cnf env \<noteq> Cnf_never \<or> stop_cnf env \<noteq> Cnf_never))"
  using assms
  by (cases "start_cnf env"; cases "stop_cnf env"; cases "delete_returns env"; cases "call_is_up env")
    (simp_all add: qosa_usbnet_demo_task_def usb_service_def read_config_def deliver_if_def usb_exit_def free_config_def usbnet_demo_func_cb_def
      usb_do_def Let_def)

text \<open>On every path that does not reach the service the block is freed exactly once, if the task lives to do it.\<close>

lemma usbnet_early_exit_frees:
  assumes "config_alloc env" "\<not> type_is_rndis env \<or> \<not> usb_attached env \<or> (\<not> call_is_up env \<and> \<not> call_start_ok env) \<or> \<not> set_config_ok env"
  shows "\<exists>s. qosa_usbnet_demo_task env = Inr s \<and> (config_live s \<longleftrightarrow> \<not> delete_returns env) \<and> Usb_start \<notin> set (usb_calls s)"
  using assms by (auto simp: qosa_usbnet_demo_task_def usb_exit_def free_config_def usb_do_def Let_def)

definition usb_example :: usb_env where
  "usb_example = \<lparr>config_alloc = True, type_is_rndis = True, set_type_ok = True, usb_attached = True, call_is_up = False, call_start_ok = True,
     set_config_ok = True, start_cnf = Cnf_in_time, stop_cnf = Cnf_never, delete_returns = False\<rparr>"

theorem usbnet_confirmation_uses_freed_block_witness: "qosa_usbnet_demo_task usb_example = Inl Use_after_free"
  using usbnet_confirmation_uses_freed_block [of usb_example] by (simp add: usb_example_def)

end
