(* ===== verification/Vfs_Demo.thy ===== *)
theory Vfs_Demo
  imports UniRTOS_Prelude
begin

text \<open>
  The file system demo, \<^verbatim>\<open>system/vfs/vfs.c\<close>, and the heap demo, \<^verbatim>\<open>system/memory/memory.c\<close>. The file system is not part of
  the repository: what it answers is the record \<open>vfs_env\<close>, and an operation is the list of its calls.
\<close>

section \<open>Files\<close>

datatype vfs_call =
    Vfs_opendir string
  | Vfs_readdir
  | Vfs_closedir
  | Vfs_mkdir string
  | Vfs_creat string
  | Vfs_stat string
  | Vfs_total_size string
  | Vfs_rmdir string
  | Vfs_rmdir_recursive string
  | Vfs_open string
  | Vfs_write string
  | Vfs_fstat
  | Vfs_seek_start
  | Vfs_read nat
  | Vfs_close
  | Vfs_unlink string
  | Log_size "32 word" "32 word"
  | Log_data string
  | Vfs_sleep nat

datatype vfs_entry = Entry_file string | Entry_dir string "64 word" | Entry_other string

record vfs_env =
  path_max :: nat
  dir_exists :: bool
  mkdir_ok :: bool
  listing :: "vfs_entry list option"
  reopened :: bool
  file_fd :: int
  read_back :: string

text \<open>The size of a directory in two halves for printing.\<close>

definition size_halves :: "64 word \<Rightarrow> 32 word \<times> 32 word" where
  "size_halves sz = (ucast (drop_bit 32 sz), ucast (and sz 0xFFFFFFFF))"

definition list_entry :: "vfs_env \<Rightarrow> string \<Rightarrow> vfs_entry \<Rightarrow> vfs_call list" where
  "list_entry env file_path e =
     (case e of
        Entry_file d_name \<Rightarrow> [Vfs_stat (snprintf_buf 1024 (''./'' @ d_name))]
      | Entry_dir d_name sz \<Rightarrow>
          (let (high, low) = size_halves sz in
           [Vfs_total_size (snprintf_buf (path_max env) (file_path @ ''/'' @ d_name)), Log_size high low])
      | Entry_other d_name \<Rightarrow> [])"

definition unir_vfs_demo_dir_list :: "vfs_env \<Rightarrow> string \<Rightarrow> vfs_call list" where
  "unir_vfs_demo_dir_list env file_path =
     (case listing env of
        None \<Rightarrow> [Vfs_opendir file_path]
      | Some es \<Rightarrow> [Vfs_opendir file_path] @ concat (map (\<lambda>e. Vfs_readdir # list_entry env file_path e) es) @ [Vfs_readdir, Vfs_closedir])"

definition unir_vfs_demo_dir_test :: "vfs_env \<Rightarrow> vfs_call list" where
  "unir_vfs_demo_dir_test env =
     [Vfs_opendir ''./testdir''] @
     (if \<not> dir_exists env \<and> \<not> mkdir_ok env then [Vfs_mkdir ''./testdir'']
      else
        (if dir_exists env then [] else [Vfs_mkdir ''./testdir'']) @
        [Vfs_creat ''./testdir/vfs_test1.txt'', Vfs_creat ''./testdir/vfs_test2.txt'', Vfs_mkdir ''./testdir/subdir''] @
        unir_vfs_demo_dir_list env ''./testdir'' @ [Vfs_opendir ''./testdir''] @
        (if reopened env then [Vfs_closedir, Vfs_rmdir ''./testdir'', Vfs_rmdir_recursive ''./testdir''] else []))"

text \<open>\<^verbatim>\<open>data\<close> has eleven bytes; \<^verbatim>\<open>snprintf\<close> gets ten of them, and ten are written.\<close>

definition unir_vfs_demo_file_test :: "vfs_env \<Rightarrow> vfs_call list" where
  "unir_vfs_demo_file_test env =
     (if file_fd env < 0 then [Vfs_open ''./vfs_test.txt'']
      else
        let text = snprintf_buf 10 ''1234567890''; data = text @ replicate (11 - length text) NUL in
        [Vfs_open ''./vfs_test.txt'', Vfs_write (take 10 data), Vfs_fstat, Vfs_seek_start, Vfs_read 10,
         Log_data (c_str (take 10 (read_back env) @ replicate (11 - length (take 10 (read_back env))) NUL)),
         Vfs_close, Vfs_unlink ''./vfs_test.txt''])"

definition unir_vfs_task_handler :: "vfs_env \<Rightarrow> vfs_call list" where
  "unir_vfs_task_handler env = [Vfs_sleep 10] @ unir_vfs_demo_file_test env @ unir_vfs_demo_dir_test env"

text \<open>The file written and read back lacks the last character: nine digits and a NUL are written, and what the demo
  prints is the nine digits.\<close>

theorem vfs_file_lacks_last_digit:
  assumes "0 \<le> file_fd env" "read_back env = ''123456789'' @ [NUL]"
  shows "Vfs_write (''123456789'' @ [NUL]) \<in> set (unir_vfs_demo_file_test env) \<and>
    Log_data ''123456789'' \<in> set (unir_vfs_demo_file_test env)"
proof -
  have "c_str (''123456789'' @ NUL # [NUL]) = ''123456789''" by (rule c_str_append_nul) simp
  then show ?thesis
    using assms by (simp add: unir_vfs_demo_file_test_def snprintf_buf_def Let_def numeral_eq_Suc)
qed

text \<open>Directories opened and closed: the handle of the first \<^verbatim>\<open>opendir\<close> is not kept when the directory exists already.\<close>

definition open_dirs :: "vfs_env \<Rightarrow> vfs_call list \<Rightarrow> int" where
  "open_dirs env calls =
     of_bool (dir_exists env) + of_bool (listing env \<noteq> None) + of_bool (reopened env) - int (count_list calls Vfs_closedir)"

lemma no_closedir_in_listing: "count_list (concat (map (\<lambda>e. Vfs_readdir # list_entry env p e) es)) Vfs_closedir = 0"
  by (induction es) (auto simp: list_entry_def split: vfs_entry.split prod.split)

lemma existing_directory_leaks:
  assumes "dir_exists env" "listing env \<noteq> None" "reopened env"
  shows "open_dirs env (unir_vfs_demo_dir_test env) = 1"
  using assms no_closedir_in_listing
  by (auto simp: open_dirs_def unir_vfs_demo_dir_test_def unir_vfs_demo_dir_list_def)

text \<open>The two halves printed for the size of a directory determine it.\<close>

theorem size_halves_round_trip:
  "push_bit 32 (ucast (fst (size_halves sz)) :: 64 word) + ucast (snd (size_halves sz)) = sz"
proof -
  have "(ucast (fst (size_halves sz)) :: 64 word) = drop_bit 32 sz"
    by (rule bit_word_eqI) (auto simp: size_halves_def bit_simps dest: bit_imp_le_length)
  moreover have "(ucast (snd (size_halves sz)) :: 64 word) = take_bit 32 sz"
  proof -
    have "and sz 0xFFFFFFFF = take_bit 32 sz" by (simp add: take_bit_eq_mask mask_eq_exp_minus_1)
    then show ?thesis by (intro bit_word_eqI) (auto simp: size_halves_def bit_simps)
  qed
  ultimately show ?thesis by (simp add: bits_ident)
qed

section \<open>The heap demo\<close>

datatype heap_call = Heap_sleep nat | Heap_alloc | Heap_realloc | Heap_release | Log_text string | Log_words "u32 list"

definition MEMORY_DEMO_BUFFER_SIZE :: nat where "MEMORY_DEMO_BUFFER_SIZE = 64"
definition MEMORY_DEMO_REALLOC_SIZE :: nat where "MEMORY_DEMO_REALLOC_SIZE = 128"
definition MEMORY_DEMO_ARRAY_COUNT :: nat where "MEMORY_DEMO_ARRAY_COUNT = 8"

definition memory_demo_malloc_free :: "bool \<Rightarrow> bool \<times> heap_call list" where
  "memory_demo_malloc_free ok =
     (if \<not> ok then (False, [])
      else (True, [Heap_alloc, Log_text (snprintf_buf MEMORY_DEMO_BUFFER_SIZE ''hello qosa malloc''), Heap_release]))"

fun fill_array :: "nat \<Rightarrow> u32 list \<Rightarrow> u32 list" where
  "fill_array 0 a = a"
| "fill_array (Suc n) a = (fill_array n a)[n := of_nat n + 1]"

definition memory_demo_calloc_free :: "bool \<Rightarrow> bool \<times> heap_call list" where
  "memory_demo_calloc_free ok =
     (if \<not> ok then (False, [])
      else
        let a = replicate MEMORY_DEMO_ARRAY_COUNT (0 :: u32) in
        (True, [Heap_alloc, Log_words [a ! 0, a ! (MEMORY_DEMO_ARRAY_COUNT - 1)],
                (let b = fill_array MEMORY_DEMO_ARRAY_COUNT a in Log_words [b ! 0, b ! (MEMORY_DEMO_ARRAY_COUNT - 1)]), Heap_release]))"

text \<open>\<^verbatim>\<open>realloc\<close> keeps the text; when it fails the old block is still there and is freed.\<close>

definition memory_demo_realloc_free :: "bool \<Rightarrow> bool \<Rightarrow> bool \<times> heap_call list" where
  "memory_demo_realloc_free ok realloc_ok =
     (if \<not> ok then (False, [])
      else
        let b1 = snprintf_buf MEMORY_DEMO_BUFFER_SIZE ''before realloc'' in
        if \<not> realloc_ok then (False, [Heap_alloc, Log_text b1, Heap_release])
        else
          let b2 = b1 @ snprintf_buf (MEMORY_DEMO_REALLOC_SIZE - length b1) '', after realloc'' in
          (True, [Heap_alloc, Log_text b1, Heap_realloc, Log_text b2, Heap_release]))"

definition memory_demo_strdup_free :: "bool \<Rightarrow> bool \<times> heap_call list" where
  "memory_demo_strdup_free ok = (if \<not> ok then (False, []) else (True, [Heap_alloc, Log_text ''hello qosa strdup'', Heap_release]))"

definition unir_memory_demo_process :: "(nat \<Rightarrow> bool) \<Rightarrow> bool \<Rightarrow> heap_call list" where
  "unir_memory_demo_process oks realloc_ok =
     [Heap_sleep 3] @ snd (memory_demo_malloc_free (oks 0)) @ snd (memory_demo_calloc_free (oks 1)) @
     snd (memory_demo_realloc_free (oks 2) realloc_ok) @ snd (memory_demo_strdup_free (oks 3))"

lemma memory_demo_frees_all:
  "count_list (unir_memory_demo_process oks r) Heap_alloc = count_list (unir_memory_demo_process oks r) Heap_release"
  by (simp add: unir_memory_demo_process_def memory_demo_malloc_free_def memory_demo_calloc_free_def
      memory_demo_realloc_free_def memory_demo_strdup_free_def Let_def)

lemma realloc_keeps_text:
  "Log_text ''before realloc, after realloc'' \<in> set (snd (memory_demo_realloc_free True True))"
  by (simp add: memory_demo_realloc_free_def MEMORY_DEMO_BUFFER_SIZE_def MEMORY_DEMO_REALLOC_SIZE_def Let_def)

lemma array_is_counted:
  "Log_words [1, 8] \<in> set (snd (memory_demo_calloc_free True))"
  by (simp add: memory_demo_calloc_free_def MEMORY_DEMO_ARRAY_COUNT_def Let_def numeral_eq_Suc)

definition vfs_example :: vfs_env where
  "vfs_example = \<lparr>path_max = 256, dir_exists = True, mkdir_ok = True, listing = Some [Entry_file ''a''], reopened = True,
     file_fd = 3, read_back = ''123456789'' @ [NUL]\<rparr>"

theorem vfs_file_lacks_last_digit_witness:
  "Vfs_write (''123456789'' @ [NUL]) \<in> set (unir_vfs_demo_file_test vfs_example) \<and>
   Log_data ''123456789'' \<in> set (unir_vfs_demo_file_test vfs_example)"
  by (rule vfs_file_lacks_last_digit) (simp_all add: vfs_example_def)

end
