(* ===== verification/Location.thy ===== *)
theory Location
  imports UniRTOS_Prelude Complex_Main
begin

text \<open>
  Location: the satellite receiver, \<^verbatim>\<open>network/location/gnss/gnss_demo.c\<close>, and the two scans for access points,
  \<^verbatim>\<open>network/location/wifiscan/sync/wifiscan_sync.c\<close> and \<^verbatim>\<open>network/location/wifiscan/asyn/wifiscan_asyn.c\<close>.

  A \<^verbatim>\<open>double\<close> is a real number; rounding is not modelled. The conversion of a number to text with a given
  precision is a function of the platform, the argument \<open>dstr\<close>; it writes at most 31 characters into its
  buffer of 32 bytes.
\<close>

section \<open>Satellite receiver\<close>

record gnss_location =
  tm_hour :: int
  tm_min :: int
  tm_sec :: int
  tm_mday :: int
  tm_mon :: int
  tm_year :: int
  latitude :: real
  latitude_cardinal :: char
  longitude :: real
  longitude_cardinal :: char
  hdop :: real
  altitude :: real
  navmode :: int
  course :: real
  speed :: real
  satellites_tracked :: int

datatype gnss_call =
    Gnss_init
  | Gnss_get_cfg
  | Gnss_set_cfg
  | Gnss_start
  | Gnss_sleep nat
  | Gnss_get_location
  | Log_nmea string
  | Log_resp string

text \<open>The NMEA callback; \<open>None\<close> is a null pointer.\<close>

definition qapp_gnss_nmea_cb :: "string option \<Rightarrow> int \<Rightarrow> gnss_call list" where
  "qapp_gnss_nmea_cb nmea nmea_len =
     (case nmea of None \<Rightarrow> [] | Some t \<Rightarrow> if nmea_len = 0 then [] else [Log_nmea (c_str t)])"

text \<open>\<^verbatim>\<open>(int)x\<close> drops the fraction.\<close>

definition c_trunc :: "real \<Rightarrow> int" where
  "c_trunc x = (if 0 \<le> x then \<lfloor>x\<rfloor> else \<lceil>x\<rceil>)"

definition minutes :: "real \<Rightarrow> real" where
  "minutes x = (x - of_int (c_trunc x)) * 60"

text \<open>\<^verbatim>\<open>resp_len += (uint16_t)snprintf(resp_str + resp_len, sizeof(resp_str) - resp_len, ...)\<close>. The size left is
  unsigned: behind the end of the buffer it is a large number.\<close>

definition resp_append :: "string \<Rightarrow> string \<times> nat \<Rightarrow> (string \<times> nat) c_result" where
  "resp_append t r =
     (let (resp_str, resp_len) = r in
      if 512 < resp_len then Inl Out_of_bounds
      else if resp_len = 512 then Inr (resp_str, resp_len + length t mod 65536)
      else Inr (take resp_len resp_str @ snprintf_buf (512 - resp_len) t, resp_len + length t mod 65536))"

fun resp_all :: "string list \<Rightarrow> string \<times> nat \<Rightarrow> (string \<times> nat) c_result" where
  "resp_all [] r = Inr r"
| "resp_all (t # ts) r = c_bind (resp_append t r) (resp_all ts)"

definition lat_piece :: "(real \<Rightarrow> nat \<Rightarrow> string) \<Rightarrow> gnss_location \<Rightarrow> string list" where
  "lat_piece dstr loc =
     (let inter1 = c_trunc (latitude loc); float2 = minutes (latitude loc) in
      if latitude_cardinal loc = CHR ''N'' then ['','' @ fmt_02d inter1 @ dstr float2 4 @ ''N'']
      else if latitude_cardinal loc = CHR ''S'' then ['','' @ fmt_02d inter1 @ dstr float2 4 @ ''S''] else [])"

definition lon_piece :: "(real \<Rightarrow> nat \<Rightarrow> string) \<Rightarrow> gnss_location \<Rightarrow> string list" where
  "lon_piece dstr loc =
     (let inter1 = c_trunc (longitude loc); float2 = minutes (longitude loc) in
      if longitude_cardinal loc = CHR ''E'' then ['','' @ fmt_03d inter1 @ dstr float2 4 @ ''E'']
      else if longitude_cardinal loc = CHR ''W'' then ['','' @ fmt_03d inter1 @ dstr float2 4 @ ''W''] else [])"

definition resp_pieces :: "(real \<Rightarrow> nat \<Rightarrow> string) \<Rightarrow> gnss_location \<Rightarrow> string list" where
  "resp_pieces dstr loc =
     [fmt_02d (tm_hour loc) @ fmt_02d (tm_min loc) @ fmt_02d (tm_sec loc) @ ''.00''] @
     lat_piece dstr loc @ lon_piece dstr loc @
     ['','' @ dstr (if hdop loc \<ge> 99.9 then 99.9 else hdop loc) 1,
      '','' @ dstr (altitude loc) 1,
      '','' @ fmt_d (navmode loc),
      '','' @ fmt_03d (c_trunc (course loc)) @ ''.'' @ dstr ((course loc - of_int (c_trunc (course loc))) * 100) 0,
      '','' @ dstr (speed loc) 1,
      '','' @ dstr (speed loc / 1.852) 1,
      '','' @ fmt_02d (tm_mday loc) @ fmt_02d (tm_mon loc) @ fmt_02d (tm_year loc),
      '','' @ fmt_02d (satellites_tracked loc)]"

text \<open>The start of \<^verbatim>\<open>gnss_handler_process\<close> and one round of its loop. The receiver is never stopped: the
  statements behind the loop are not reached.\<close>

definition gnss_setup :: "bool \<Rightarrow> bool \<Rightarrow> bool \<Rightarrow> (unit, gnss_call) outcome" where
  "gnss_setup init_ok get_ok set_ok =
     (if \<not> init_ok then Exit () [Gnss_init]
      else if \<not> get_ok then Exit () [Gnss_init, Gnss_get_cfg]
      else if \<not> set_ok then Exit () [Gnss_init, Gnss_get_cfg, Gnss_set_cfg]
      else Continue () [Gnss_init, Gnss_get_cfg, Gnss_set_cfg, Gnss_start])"

definition gnss_round :: "(real \<Rightarrow> nat \<Rightarrow> string) \<Rightarrow> gnss_location \<Rightarrow> (unit, gnss_call) outcome" where
  "gnss_round dstr loc =
     (case resp_all (resp_pieces dstr loc) ([], 0) of
        Inl u \<Rightarrow> Undefined u
      | Inr (resp_str, resp_len) \<Rightarrow> Continue () [Gnss_sleep 1, Gnss_get_location, Log_resp resp_str])"

section \<open>Access points\<close>

datatype scan_call =
    Scan_alloc nat
  | Scan_free
  | Scan_option_set
  | Scan_register_cb
  | Scan_open
  | Scan_do
  | Scan_async
  | Scan_close
  | Log_ap nat string

record scan_env =
  scan_alloc_ok :: bool
  option_ok :: bool
  register_ok :: bool
  open_ok :: bool
  scan_result :: "string list option"    \<comment> \<open>names found; \<open>None\<close>: the scan failed\<close>

text \<open>The loop over the array of \<open>ap_max\<close> entries; \<open>found\<close> are the names the library wrote, \<open>ap_cnt\<close> of them.\<close>

definition log_aps :: "nat \<Rightarrow> string list \<Rightarrow> scan_call list c_result" where
  "log_aps ap_max found =
     (if ap_max < length found then Inl Out_of_bounds else Inr (map (\<lambda>i. Log_ap i (c_str (found ! i))) [0..<length found]))"

definition wifiscan_sync_example :: "nat \<Rightarrow> scan_env \<Rightarrow> scan_call list c_result" where
  "wifiscan_sync_example ap_max env =
     (if \<not> scan_alloc_ok env then Inr []
      else if \<not> option_ok env then Inr [Scan_alloc ap_max, Scan_option_set, Scan_free]
      else if \<not> open_ok env then Inr [Scan_alloc ap_max, Scan_option_set, Scan_open, Scan_free]
      else c_bind (case scan_result env of None \<Rightarrow> Inr [] | Some found \<Rightarrow> log_aps ap_max found) (\<lambda>logs.
        Inr ([Scan_alloc ap_max, Scan_option_set, Scan_open, Scan_do] @ logs @ [Scan_close, Scan_free])))"

text \<open>The asynchronous scan: the library owns the array it hands to the callback, so it has as many entries as it says.\<close>

definition wifiscan_async_callback :: "string list option \<Rightarrow> scan_call list" where
  "wifiscan_async_callback result =
     (case result of None \<Rightarrow> [] | Some found \<Rightarrow> map (\<lambda>i. Log_ap i (c_str (found ! i))) [0..<length found]) @ [Scan_close]"

definition wifiscan_async_example :: "scan_env \<Rightarrow> scan_call list" where
  "wifiscan_async_example env =
     (if \<not> option_ok env then [Scan_option_set]
      else if \<not> register_ok env then [Scan_option_set, Scan_register_cb]
      else if \<not> open_ok env then [Scan_option_set, Scan_register_cb, Scan_open]
      else [Scan_option_set, Scan_register_cb, Scan_open, Scan_async])"

section \<open>Properties\<close>

text \<open>Pieces that fit are printed one behind the other.\<close>

lemma resp_all_fits:
  assumes "length T + length (concat ts) < 512"
  shows "resp_all ts (T, length T) = Inr (T @ concat ts, length (T @ concat ts))"
  using assms
proof (induction ts arbitrary: T)
  case (Cons t ts)
  then have "resp_append t (T, length T) = Inr (T @ t, length (T @ t))" by (simp add: resp_append_def)
  with Cons.IH [of "T @ t"] Cons.prems show ?case by simp
qed simp

text \<open>What the platform stores: integers of 32 bits, and numbers whose integral part is one.\<close>

definition c_int :: "int \<Rightarrow> bool" where
  "c_int i \<longleftrightarrow> - (2 ^ 31) \<le> i \<and> i < 2 ^ 31"

definition location_ok :: "gnss_location \<Rightarrow> bool" where
  "location_ok loc \<longleftrightarrow>
     list_all c_int [tm_hour loc, tm_min loc, tm_sec loc, tm_mday loc, tm_mon loc, tm_year loc, navmode loc, satellites_tracked loc,
       c_trunc (latitude loc), c_trunc (longitude loc), c_trunc (course loc)]"

lemma length_c_int:
  assumes "c_int i"
  shows "length (fmt_d i) \<le> 11" "length (fmt_02d i) \<le> 11" "length (fmt_03d i) \<le> 11"
  using assms length_fmt_d32 length_fmt_padded32 by (simp_all add: c_int_def)

lemma length_lat_lon:
  assumes "location_ok loc" "\<forall>x p. length (dstr x p) \<le> 31"
  shows "length (concat (lat_piece dstr loc)) \<le> 44" "length (concat (lon_piece dstr loc)) \<le> 44"
proof -
  have "length (fmt_02d (c_trunc (latitude loc))) + length (dstr (minutes (latitude loc)) 4) \<le> 11 + 31"
    "length (fmt_03d (c_trunc (longitude loc))) + length (dstr (minutes (longitude loc)) 4) \<le> 11 + 31"
    using assms by (intro add_mono length_c_int; simp add: location_ok_def)+
  then show "length (concat (lat_piece dstr loc)) \<le> 44" "length (concat (lon_piece dstr loc)) \<le> 44"
    by (simp_all add: lat_piece_def lon_piece_def Let_def)
qed

text \<open>C37: whatever the receiver reports, the line fits its buffer and is printed complete.\<close>

theorem gnss_line_fits:
  assumes "location_ok loc" "\<forall>x p. length (dstr x p) \<le> 31"
  shows "length (concat (resp_pieces dstr loc)) < 512 \<and>
    gnss_round dstr loc = Continue () [Gnss_sleep 1, Gnss_get_location, Log_resp (concat (resp_pieces dstr loc))]"
proof -
  have ints: "length (fmt_02d (tm_hour loc)) \<le> 11" "length (fmt_02d (tm_min loc)) \<le> 11" "length (fmt_02d (tm_sec loc)) \<le> 11"
      "length (fmt_02d (tm_mday loc)) \<le> 11" "length (fmt_02d (tm_mon loc)) \<le> 11" "length (fmt_02d (tm_year loc)) \<le> 11"
      "length (fmt_d (navmode loc)) \<le> 11" "length (fmt_02d (satellites_tracked loc)) \<le> 11" "length (fmt_03d (c_trunc (course loc))) \<le> 11"
    using assms(1) by (simp_all add: location_ok_def length_c_int)
  have reals: "length (dstr x p) \<le> 31" for x p using assms(2) by simp
  have "length (concat (resp_pieces dstr loc)) \<le> 512 - 1"
    using ints length_lat_lon [OF assms] reals [of "if hdop loc \<ge> 99.9 then 99.9 else hdop loc" 1] reals [of "altitude loc" 1]
      reals [of "(course loc - of_int (c_trunc (course loc))) * 100" 0] reals [of "speed loc" 1] reals [of "speed loc / 1.852" 1]
    by (simp add: resp_pieces_def)
  then have fits: "length (concat (resp_pieces dstr loc)) < 512" by simp
  with resp_all_fits [of "[]" "resp_pieces dstr loc"] show ?thesis by (simp add: gnss_round_def)
qed

text \<open>The minutes are not padded to two digits: 31 degrees and 3.5 minutes north is printed as a text that reads as
  313.5 minutes.\<close>

lemma minutes_not_padded:
  assumes "latitude loc = 31 + 3.5 / 60" "latitude_cardinal loc = CHR ''N''" "dstr 3.5 4 = ''3.5000''"
  shows "lat_piece dstr loc = ['',313.5000N'']"
proof -
  have t: "c_trunc (latitude loc) = 31" unfolding assms(1) c_trunc_def by (simp add: floor_eq_iff)
  then have "minutes (latitude loc) = 3.5" by (simp add: minutes_def assms(1))
  then have "dstr (minutes (latitude loc)) 4 = ''3.5000''" using assms(3) by (rule ssubst [where P = "\<lambda>x. dstr x 4 = ''3.5000''"])
  with t assms(2) show ?thesis
    by (simp add: lat_piece_def fmt_02d_def fmt_02u_def fmt_u_def digits_base.simps)
qed

text \<open>The synchronous scan frees its block and closes the device it opened on every path, if the library respects the
  size of the array; the asynchronous one leaves the device to the callback.\<close>

lemma sync_scan_releases:
  assumes "wifiscan_sync_example n env = Inr calls"
  shows "count_list calls (Scan_alloc n) = count_list calls Scan_free \<and>
    (open_ok env \<longrightarrow> count_list calls Scan_open = count_list calls Scan_close)"
proof -
  have "count_list (map (\<lambda>i. Log_ap i (f i)) xs) c = 0" if "\<forall>i t. Log_ap i t \<noteq> c" for f c and xs :: "nat list"
    using that by (induction xs) auto
  then show ?thesis
    using assms by (auto simp: wifiscan_sync_example_def log_aps_def c_bind_eq_Inr split: if_splits option.splits)
qed

lemma async_callback_closes: "last (wifiscan_async_callback r) = Scan_close"
  by (simp add: wifiscan_async_callback_def)

section \<open>Example inputs\<close>

definition gnss_example :: gnss_location where
  "gnss_example = \<lparr>tm_hour = 12, tm_min = 34, tm_sec = 56, tm_mday = 1, tm_mon = 2, tm_year = 26,
     latitude = 31, latitude_cardinal = CHR ''N'', longitude = 121, longitude_cardinal = CHR ''E'', hdop = 1, altitude = 4,
     navmode = 3, course = 0, speed = 0, satellites_tracked = 9\<rparr>"

theorem gnss_line_fits_witness:
  "\<exists>t. length t < 512 \<and> gnss_round (\<lambda>_ _. ''0'') gnss_example = Continue () [Gnss_sleep 1, Gnss_get_location, Log_resp t]"
proof -
  have "location_ok gnss_example" by (simp add: location_ok_def gnss_example_def c_int_def c_trunc_def)
  from gnss_line_fits [OF this, of "\<lambda>_ _. ''0''"] show ?thesis by auto
qed

end
