(* ===== verification/Timing.thy ===== *)
theory Timing
  imports UniRTOS_Prelude "HOL-Library.Sublist" "HOL-Library.Log_Nat"
begin

text \<open>
  Timers (\<^verbatim>\<open>system/timer/timer_demo.c\<close>), threads and their message queues
  (\<^verbatim>\<open>system/thread\<close>) and the timed lock of \<^verbatim>\<open>system/sync_comm/mutex/demo/mutex_demo.c\<close>. The kernel's
  timers and queues are parameters with their contracts as locales (\<open>timer_service\<close>,
  \<open>lossy_queue\<close>), each with an instance; how long a sleep really takes is an argument.
\<close>

section \<open>Timers\<close>

text \<open>\<open>t_run t x\<close> lets \<open>t\<close> milliseconds pass and says how often the callback was called.\<close>

locale timer_service =
  fixes t_start :: "nat \<Rightarrow> bool \<Rightarrow> 't \<Rightarrow> 't" and t_run :: "nat \<Rightarrow> 't \<Rightarrow> nat \<times> 't"
    and t_stop :: "'t \<Rightarrow> 't" and t_active :: "'t \<Rightarrow> bool"
  assumes started: "t_active (t_start p r x)"
    and run_one_shot: "0 < p \<Longrightarrow> t_run t (t_start p False x) = (k, y) \<Longrightarrow> k = of_bool (p \<le> t) \<and> (t_active y \<longleftrightarrow> t < p)"
    and run_periodic: "0 < p \<Longrightarrow> t_run t (t_start p True x) = (k, y) \<Longrightarrow> k = t div p \<and> t_active y"
    and run_more: "t_run s x = (j, y) \<Longrightarrow> t_run t y = (k, z) \<Longrightarrow> t_run (s + t) x = (j + k, z)"
    and stopped: "\<not> t_active (t_stop x)"

text \<open>A kernel timer that counts down ticks of a millisecond.\<close>

record tick_timer =
  ticks_left :: nat
  ticks_period :: nat
  periodic :: bool
  active :: bool

definition tick_start :: "nat \<Rightarrow> bool \<Rightarrow> tick_timer \<Rightarrow> tick_timer" where
  "tick_start p r x = \<lparr> ticks_left = p, ticks_period = p, periodic = r, active = True \<rparr>"

definition tick_stop :: "tick_timer \<Rightarrow> tick_timer" where
  "tick_stop x = x\<lparr> active := False \<rparr>"

definition tick :: "tick_timer \<Rightarrow> nat \<times> tick_timer" where
  "tick x =
     (if \<not> active x then (0, x)
      else if ticks_left x > 1 then (0, x\<lparr> ticks_left := ticks_left x - 1 \<rparr>)
      else (1, x\<lparr> ticks_left := ticks_period x, active := periodic x \<rparr>))"

fun tick_run :: "nat \<Rightarrow> tick_timer \<Rightarrow> nat \<times> tick_timer" where
  "tick_run 0 x = (0, x)"
| "tick_run (Suc t) x = (case tick x of (j, y) \<Rightarrow> case tick_run t y of (k, z) \<Rightarrow> (j + k, z))"

lemma tick_run_add: "tick_run s x = (j, y) \<Longrightarrow> tick_run t y = (k, z) \<Longrightarrow> tick_run (s + t) x = (j + k, z)"
  by (induction s arbitrary: x j) (auto split: prod.splits)

lemma tick_run_inactive: "\<not> active x \<Longrightarrow> tick_run t x = (0, x)"
  by (induction t) (simp_all add: tick_def)

lemma tick_run_one_shot:
  "active x \<Longrightarrow> \<not> periodic x \<Longrightarrow> 0 < ticks_left x \<Longrightarrow>
   fst (tick_run t x) = of_bool (ticks_left x \<le> t) \<and> (active (snd (tick_run t x)) \<longleftrightarrow> t < ticks_left x)"
proof (induction t arbitrary: x)
  case 0
  then show ?case by simp
next
  case (Suc t)
  show ?case
  proof (cases "ticks_left x > 1")
    case True
    with Suc.IH [of "x\<lparr> ticks_left := ticks_left x - 1 \<rparr>"] Suc.prems show ?thesis
      by (auto simp: tick_def split: prod.splits)
  next
    case False
    with Suc.prems have "ticks_left x = 1" by simp
    with Suc.prems show ?thesis by (simp add: tick_def tick_run_inactive)
  qed
qed

text \<open>The first firing is at \<open>ticks_left\<close>, the others a period apart.\<close>

lemma tick_run_periodic:
  "active x \<Longrightarrow> periodic x \<Longrightarrow> 0 < ticks_left x \<Longrightarrow> ticks_left x \<le> ticks_period x \<Longrightarrow>
   fst (tick_run t x) = (t + ticks_period x - ticks_left x) div ticks_period x \<and> active (snd (tick_run t x))"
proof (induction t arbitrary: x)
  case 0
  then show ?case by simp
next
  case (Suc t)
  show ?case
  proof (cases "ticks_left x > 1")
    case True
    with Suc.IH [of "x\<lparr> ticks_left := ticks_left x - 1 \<rparr>"] Suc.prems show ?thesis
      by (auto simp: tick_def Suc_diff_le split: prod.splits)
  next
    case False
    with Suc.prems have "ticks_left x = 1" by simp
    with Suc.IH [of "x\<lparr> ticks_left := ticks_period x, active := True \<rparr>"] Suc.prems show ?thesis
      by (auto simp: tick_def split: prod.splits)
  qed
qed

interpretation ticker: timer_service tick_start tick_run tick_stop active
proof
  fix p r x t k y j s z
  show "active (tick_start p r x)" by (simp add: tick_start_def)
  show "k = of_bool (p \<le> t) \<and> (active y \<longleftrightarrow> t < p)"
    if "0 < p" "tick_run t (tick_start p False x) = (k, y)"
    using that tick_run_one_shot [of "tick_start p False x" t] by (simp add: tick_start_def)
  show "k = t div p \<and> active y" if "0 < p" "tick_run t (tick_start p True x) = (k, y)"
    using that tick_run_periodic [of "tick_start p True x" t] by (simp add: tick_start_def)
  show "tick_run (s + t) x = (j + k, z)" if "tick_run s x = (j, y)" "tick_run t y = (k, z)"
    using that by (rule tick_run_add)
  show "\<not> active (tick_stop x)" by (simp add: tick_stop_def)
qed

text \<open>What the tests print.\<close>

datatype timer_line =
    Create_failed
  | Running_status bool
  | Final_count int
  | Check int int bool
  | Status_after_stop bool
  | Count_after_restart int
  | Null_creation bool
  | Null_answers int int bool int
  | Timer_deleted

definition timer_callback_function :: "int \<Rightarrow> int" where
  "timer_callback_function count = count + 1"

text \<open>The callback runs as often as the kernel says.\<close>

definition called :: "nat \<Rightarrow> int \<Rightarrow> int" where
  "called k count = (timer_callback_function ^^ k) count"

text \<open>\<open>nap i ms\<close> is how long the sleep number \<open>i\<close>, for \<open>ms\<close> milliseconds, takes.\<close>

definition test_one_shot_timer ::
  "(nat \<Rightarrow> bool \<Rightarrow> 't \<Rightarrow> 't) \<Rightarrow> (nat \<Rightarrow> 't \<Rightarrow> nat \<times> 't) \<Rightarrow> ('t \<Rightarrow> bool) \<Rightarrow> (nat \<Rightarrow> nat \<Rightarrow> nat) \<Rightarrow>
   't option \<Rightarrow> bool \<times> timer_line list" where
  "test_one_shot_timer t_start t_run t_active nap created =
     (case created of
        None \<Rightarrow> (False, [Create_failed])
      | Some x0 \<Rightarrow>
          let x1 = t_start 100 False x0; (k, x2) = t_run (nap 0 150) x1; timer_count = called k 0 in
          (True, [Running_status (t_active x1), Final_count timer_count, Timer_deleted]))"

fun periodic_checks ::
  "(nat \<Rightarrow> 't \<Rightarrow> nat \<times> 't) \<Rightarrow> ('t \<Rightarrow> bool) \<Rightarrow> (nat \<Rightarrow> nat \<Rightarrow> nat) \<Rightarrow> nat \<Rightarrow> nat \<Rightarrow> int \<times> 't \<Rightarrow>
   (int \<times> 't) \<times> timer_line list" where
  "periodic_checks t_run t_active nap i 0 s = (s, [])"
| "periodic_checks t_run t_active nap i (Suc n) (count, x) =
     (let (k, y) = t_run (nap (Suc i) 60) x; count = called k count;
          (s, ls) = periodic_checks t_run t_active nap (Suc i) n (count, y) in
      (s, Check (int i + 1) count (t_active y) # ls))"

definition test_periodic_timer ::
  "(nat \<Rightarrow> bool \<Rightarrow> 't \<Rightarrow> 't) \<Rightarrow> (nat \<Rightarrow> 't \<Rightarrow> nat \<times> 't) \<Rightarrow> ('t \<Rightarrow> 't) \<Rightarrow> ('t \<Rightarrow> bool) \<Rightarrow> (nat \<Rightarrow> nat \<Rightarrow> nat) \<Rightarrow>
   't option \<Rightarrow> bool \<times> timer_line list" where
  "test_periodic_timer t_start t_run t_stop t_active nap created =
     (case created of
        None \<Rightarrow> (False, [Create_failed])
      | Some x0 \<Rightarrow>
          let ((count, x1), ls) = periodic_checks t_run t_active nap 0 3 (0, t_start 50 True x0);
              x2 = t_stop x1;
              (k, x3) = t_run (nap 4 60) (t_start 50 True x2) in
          (True, ls @ [Status_after_stop (t_active x2), Count_after_restart (called k count), Timer_deleted]))"

text \<open>The calls without a timer: what creation and the four other calls answer is printed, and a
  handle that creation left behind is deleted.\<close>

record null_answers =
  null_create_ok :: bool
  null_handle :: bool
  null_start :: int
  null_stop :: int
  null_running :: bool
  null_delete :: int

definition test_error_cases :: "null_answers \<Rightarrow> bool \<times> timer_line list" where
  "test_error_cases a =
     (True, Null_creation (\<not> null_create_ok a) # (if null_handle a then [Timer_deleted] else []) @
            [Null_answers (null_start a) (null_stop a) (null_running a) (null_delete a)])"

definition osTimerTest_init ::
  "(nat \<Rightarrow> bool \<Rightarrow> 't \<Rightarrow> 't) \<Rightarrow> (nat \<Rightarrow> 't \<Rightarrow> nat \<times> 't) \<Rightarrow> ('t \<Rightarrow> 't) \<Rightarrow> ('t \<Rightarrow> bool) \<Rightarrow> (nat \<Rightarrow> nat \<Rightarrow> nat) \<Rightarrow>
   't option \<Rightarrow> 't option \<Rightarrow> null_answers \<Rightarrow> bool \<times> timer_line list" where
  "osTimerTest_init t_start t_run t_stop t_active nap one_shot_t periodic_t a =
     (let (r1, l1) = test_one_shot_timer t_start t_run t_active nap one_shot_t in
      if \<not> r1 then (False, l1) else
      let (r2, l2) = test_periodic_timer t_start t_run t_stop t_active nap periodic_t in
      if \<not> r2 then (False, l1 @ l2) else
      let (r3, l3) = test_error_cases a in
      (r3, l1 @ l2 @ l3))"

lemma called_add [simp]: "called k c = c + int k"
  by (induction k) (auto simp: called_def timer_callback_function_def)

context timer_service
begin

lemma periodic_count:
  assumes "0 < p" "t_run e (t_start p True x) = (k, y)" "t_run t y = (j, z)"
  shows "k + j = (e + t) div p \<and> t_active z"
  using run_periodic [OF assms(1)] run_more [OF assms(2,3)] by blast

lemma one_shot_result:
  "test_one_shot_timer t_start t_run t_active nap (Some x) =
     (True, [Running_status True, Final_count (of_bool (100 \<le> nap 0 150)), Timer_deleted])"
  by (auto simp: test_one_shot_timer_def started Let_def split: prod.splits dest: run_one_shot [rotated])

lemma periodic_result:
  "test_periodic_timer t_start t_run t_stop t_active nap (Some x) =
     (True,
      [Check 1 (int (nap 1 60 div 50)) True,
       Check 2 (int ((nap 1 60 + nap 2 60) div 50)) True,
       Check 3 (int ((nap 1 60 + nap 2 60 + nap 3 60) div 50)) True,
       Status_after_stop False,
       Count_after_restart (int ((nap 1 60 + nap 2 60 + nap 3 60) div 50 + nap 4 60 div 50)), Timer_deleted])"
proof -
  let ?x = "t_start 50 True x"
  obtain k1 y1 where r1: "t_run (nap 1 60) ?x = (k1, y1)" by (cases "t_run (nap 1 60) ?x")
  obtain k2 y2 where r2: "t_run (nap 2 60) y1 = (k2, y2)" by (cases "t_run (nap 2 60) y1")
  obtain k3 y3 where r3: "t_run (nap 3 60) y2 = (k3, y3)" by (cases "t_run (nap 3 60) y2")
  obtain k4 y4 where r4: "t_run (nap 4 60) (t_start 50 True (t_stop y3)) = (k4, y4)"
    by (cases "t_run (nap 4 60) (t_start 50 True (t_stop y3))")
  have c1: "k1 = nap 1 60 div 50" "t_active y1" using run_periodic [OF _ r1] by simp_all
  have c2: "k1 + k2 = (nap 1 60 + nap 2 60) div 50" "t_active y2" using periodic_count [OF _ r1 r2] by simp_all
  have c3: "k1 + k2 + k3 = (nap 1 60 + nap 2 60 + nap 3 60) div 50" "t_active y3"
    using periodic_count [OF _ run_more [OF r1 r2] r3] by simp_all
  have c4: "k4 = nap 4 60 div 50" using run_periodic [OF _ r4] by simp
  note cs = c1(1) c2(1) c3(1) c4
  have "periodic_checks t_run t_active nap 0 3 (0, ?x) =
      ((int (k1 + k2 + k3), y3), [Check 1 (int k1) True, Check 2 (int (k1 + k2)) True, Check 3 (int (k1 + k2 + k3)) True])"
    using r1 r2 r3 c1(2) c2(2) c3(2) by (simp add: numeral_2_eq_2 numeral_3_eq_3 Let_def)
  then have "test_periodic_timer t_start t_run t_stop t_active nap (Some x) =
      (True, [Check 1 (int k1) True, Check 2 (int (k1 + k2)) True, Check 3 (int (k1 + k2 + k3)) True,
        Status_after_stop False, Count_after_restart (int (k1 + k2 + k3 + k4)), Timer_deleted])"
    using r4 by (simp add: test_periodic_timer_def stopped)
  then show ?thesis unfolding c3(1) unfolding c2(1) unfolding c1(1) c4 .
qed

end

text \<open>C36: With any kernel timer that keeps the contract, and sleeps that take at least the time asked
  for and at most six milliseconds longer, the test returns true; the one-shot timer has fired once
  and the periodic timer once, twice, three times at the three checks, it is idle after the stop,
  and after the restart it has fired four times.\<close>

theorem timers_fire_on_time:
  assumes "timer_service t_start t_run t_stop t_active" and "\<forall>i ms. ms \<le> nap i ms \<and> nap i ms \<le> ms + 6"
  shows "osTimerTest_init t_start t_run t_stop t_active nap (Some x) (Some y) a =
    (True,
     [Running_status True, Final_count 1, Timer_deleted,
      Check 1 1 True, Check 2 2 True, Check 3 3 True, Status_after_stop False, Count_after_restart 4, Timer_deleted] @
     snd (test_error_cases a))"
proof -
  have nap: "60 \<le> nap i 60 \<and> nap i 60 \<le> 66" "150 \<le> nap i 150" for i
    using assms(2) [rule_format, of 60 i] assms(2) [rule_format, of 150 i] by simp_all
  have "nap i 60 div 50 = 1" for i
    by (rule div_nat_eqI; use nap(1) [of i] in simp)
  moreover have "(nap 1 60 + nap 2 60) div 50 = 2"
    by (rule div_nat_eqI; use nap(1) [of 1] nap(1) [of 2] in simp)
  moreover have "(nap 1 60 + nap 2 60 + nap 3 60) div 50 = 3"
    by (rule div_nat_eqI; use nap(1) [of 1] nap(1) [of 2] nap(1) [of 3] in simp)
  moreover have "100 \<le> nap 0 150" using nap(2) [of 0] by simp
  ultimately show ?thesis
    by (simp add: osTimerTest_init_def timer_service.one_shot_result [OF assms(1)]
        timer_service.periodic_result [OF assms(1)] test_error_cases_def)
qed

theorem timers_fire_on_time_witness:
  "snd (osTimerTest_init tick_start tick_run tick_stop active (\<lambda>i ms. ms + (if i < 7 then i else 0))
      (Some (tick_stop (tick_start 1 False (tick_timer.make 1 1 False False)))) (Some (tick_stop (tick_start 1 False (tick_timer.make 1 1 False False))))
      \<lparr> null_create_ok = False, null_handle = False, null_start = - 1, null_stop = - 1, null_running = False, null_delete = - 1 \<rparr>) =
   [Running_status True, Final_count 1, Timer_deleted,
    Check 1 1 True, Check 2 2 True, Check 3 3 True, Status_after_stop False, Count_after_restart 4, Timer_deleted,
    Null_creation True, Null_answers (- 1) (- 1) False (- 1)]"
  by (subst timers_fire_on_time [OF ticker.timer_service_axioms]) (simp_all add: test_error_cases_def)

section \<open>Message queues that drop\<close>

text \<open>\<^verbatim>\<open>qosa_task_msg_release(..., QOSA_NO_WAIT)\<close> puts a message into the queue of a task or, when the queue is
  full, drops it; \<^verbatim>\<open>qosa_task_msg_wait\<close> takes the first.\<close>

locale lossy_queue =
  fixes msg_release :: "'q \<Rightarrow> 'm \<Rightarrow> 'q" and msg_wait :: "'q \<Rightarrow> ('m \<times> 'q) option"
    and q_msgs :: "'q \<Rightarrow> 'm list" and q_depth :: "'q \<Rightarrow> nat"
  assumes release_room: "length (q_msgs q) < q_depth q \<Longrightarrow> q_msgs (msg_release q m) = q_msgs q @ [m]"
    and release_full: "q_depth q \<le> length (q_msgs q) \<Longrightarrow> q_msgs (msg_release q m) = q_msgs q"
    and wait_empty: "q_msgs q = [] \<Longrightarrow> msg_wait q = None"
    and wait_first: "q_msgs q = m # ms \<Longrightarrow> \<exists>q'. msg_wait q = Some (m, q') \<and> q_msgs q' = ms \<and> q_depth q' = q_depth q"
    and depth_kept: "q_depth (msg_release q m) = q_depth q"

definition list_release :: "'m list \<times> nat \<Rightarrow> 'm \<Rightarrow> 'm list \<times> nat" where
  "list_release q m = (if length (fst q) < snd q then (fst q @ [m], snd q) else q)"

definition list_wait :: "'m list \<times> nat \<Rightarrow> ('m \<times> 'm list \<times> nat) option" where
  "list_wait q = (case fst q of [] \<Rightarrow> None | m # ms \<Rightarrow> Some (m, ms, snd q))"

interpretation task_queue: lossy_queue list_release list_wait fst snd
  by unfold_locales (auto simp: list_release_def list_wait_def)

text \<open>A sender numbers what it sends, a receiver prints what it gets; they run in any order. \<open>offered\<close>
  counts the calls of the sender.\<close>

record ('q, 'm) channel =
  chan_queue :: 'q
  offered :: nat
  printed :: "'m list"

datatype chan_turn = Send_turn | Receive_turn

section \<open>Producer and consumer threads\<close>

text \<open>\<^verbatim>\<open>(float)n\<close>: 24 significant bits, ties to even.\<close>

definition float_of_int :: "nat \<Rightarrow> nat" where
  "float_of_int n =
     (let e = floorlog 2 n - 24; q = n div 2 ^ e; r = n mod 2 ^ e in
      if 2 * r < 2 ^ e \<or> 2 * r = 2 ^ e \<and> even q then q * 2 ^ e else (q + 1) * 2 ^ e)"

record SensorData =
  sensor_id :: int
  sensor_value :: nat

definition producer_data :: "nat \<Rightarrow> SensorData" where
  "producer_data seq = \<lparr> sensor_id = 1, sensor_value = float_of_int seq \<rparr>"

text \<open>One round of each thread. A receiver whose queue is empty waits.\<close>

definition producer_task :: "('q \<Rightarrow> SensorData \<Rightarrow> 'q) \<Rightarrow> ('q, SensorData) channel \<Rightarrow> ('q, SensorData) channel" where
  "producer_task msg_release c =
     c\<lparr> chan_queue := msg_release (chan_queue c) (producer_data (offered c)), offered := offered c + 1 \<rparr>"

definition consumer_task :: "('q \<Rightarrow> ('m \<times> 'q) option) \<Rightarrow> ('q, 'm) channel \<Rightarrow> ('q, 'm) channel" where
  "consumer_task msg_wait c =
     (case msg_wait (chan_queue c) of
        None \<Rightarrow> c
      | Some (m, q) \<Rightarrow> c\<lparr> chan_queue := q, printed := printed c @ [m] \<rparr>)"

fun pc_step ::
  "('q \<Rightarrow> SensorData \<Rightarrow> 'q) \<Rightarrow> ('q \<Rightarrow> (SensorData \<times> 'q) option) \<Rightarrow> chan_turn \<Rightarrow> ('q, SensorData) channel \<Rightarrow> ('q, SensorData) channel" where
  "pc_step msg_release msg_wait Send_turn c = producer_task msg_release c"
| "pc_step msg_release msg_wait Receive_turn c = consumer_task msg_wait c"

definition chan_start :: "'q \<Rightarrow> ('q, 'm) channel" where
  "chan_start q = \<lparr> chan_queue = q, offered = 0, printed = [] \<rparr>"

section \<open>Interrupt and its task\<close>

definition EXTI_IRQHandler :: "('q \<Rightarrow> u32 \<Rightarrow> 'q) \<Rightarrow> ('q, u32) channel \<Rightarrow> ('q, u32) channel" where
  "EXTI_IRQHandler msg_release c =
     (let raw_data = 0x1234 in c\<lparr> chan_queue := msg_release (chan_queue c) raw_data, offered := offered c + 1 \<rparr>)"

definition irq_handler_task :: "('q \<Rightarrow> (u32 \<times> 'q) option) \<Rightarrow> ('q, u32) channel \<Rightarrow> ('q, u32) channel" where
  "irq_handler_task msg_wait c =
     (case msg_wait (chan_queue c) of
        None \<Rightarrow> c
      | Some (data, q) \<Rightarrow> c\<lparr> chan_queue := q, printed := printed c @ [data] \<rparr>)"

fun irq_step :: "('q \<Rightarrow> u32 \<Rightarrow> 'q) \<Rightarrow> ('q \<Rightarrow> (u32 \<times> 'q) option) \<Rightarrow> chan_turn \<Rightarrow> ('q, u32) channel \<Rightarrow> ('q, u32) channel" where
  "irq_step msg_release msg_wait Send_turn c = EXTI_IRQHandler msg_release c"
| "irq_step msg_release msg_wait Receive_turn c = irq_handler_task msg_wait c"

section \<open>What reaches the receiver\<close>

text \<open>Both examples are this step, for the messages \<open>data\<close> of the sender.\<close>

definition chan_step ::
  "('q \<Rightarrow> 'm \<Rightarrow> 'q) \<Rightarrow> ('q \<Rightarrow> ('m \<times> 'q) option) \<Rightarrow> (nat \<Rightarrow> 'm) \<Rightarrow> chan_turn \<Rightarrow> ('q, 'm) channel \<Rightarrow> ('q, 'm) channel" where
  "chan_step msg_release msg_wait data t c =
     (case t of
        Send_turn \<Rightarrow> c\<lparr> chan_queue := msg_release (chan_queue c) (data (offered c)), offered := offered c + 1 \<rparr>
      | Receive_turn \<Rightarrow> consumer_task msg_wait c)"

lemma pc_step_chan: "pc_step msg_release msg_wait = chan_step msg_release msg_wait producer_data"
proof (intro ext)
  fix t c
  show "pc_step msg_release msg_wait t c = chan_step msg_release msg_wait producer_data t c"
    by (cases t) (simp_all add: chan_step_def producer_task_def)
qed

lemma irq_step_chan: "irq_step msg_release msg_wait = chan_step msg_release msg_wait (\<lambda>i. 0x1234)"
proof (intro ext)
  fix t c
  show "irq_step msg_release msg_wait t c = chan_step msg_release msg_wait (\<lambda>i. 0x1234) t c"
    by (cases t) (simp_all add: chan_step_def EXTI_IRQHandler_def irq_handler_task_def consumer_task_def)
qed

text \<open>Two sends are never next to each other: the receiver has had its turn in between.\<close>

fun alternating :: "chan_turn list \<Rightarrow> bool" where
  "alternating (Send_turn # Send_turn # ts) = False"
| "alternating (t # ts) = alternating ts"
| "alternating [] = True"

context lossy_queue
begin

lemma wait_cases:
  obtains "msg_wait q = None" "q_msgs q = []"
  | m q' where "msg_wait q = Some (m, q')" "q_msgs q = m # q_msgs q'" "q_depth q' = q_depth q"
  using wait_empty [of q] wait_first [of q] by (cases "q_msgs q") auto

text \<open>What was printed and what waits is, in order, part of what was sent; the queue stays bounded.\<close>

definition chan_inv :: "(nat \<Rightarrow> 'm) \<Rightarrow> nat \<Rightarrow> ('q, 'm) channel \<Rightarrow> bool" where
  "chan_inv data n c \<longleftrightarrow>
     subseq (printed c @ q_msgs (chan_queue c)) (map data [0 ..< offered c]) \<and>
     q_depth (chan_queue c) = n \<and> length (q_msgs (chan_queue c)) \<le> n"

lemma chan_step_inv: "chan_inv data n c \<Longrightarrow> chan_inv data n (chan_step msg_release msg_wait data t c)"
proof (cases t)
  case Send_turn
  assume inv: "chan_inv data n c"
  show ?thesis
  proof (cases "length (q_msgs (chan_queue c)) < n")
    case True
    have "subseq ((printed c @ q_msgs (chan_queue c)) @ [data (offered c)]) (map data [0 ..< offered c] @ [data (offered c)])"
      using inv by (intro list_emb_append_mono) (auto simp: chan_inv_def)
    with inv True Send_turn show ?thesis
      by (simp add: chan_inv_def chan_step_def release_room depth_kept)
  next
    case False
    have "subseq (printed c @ q_msgs (chan_queue c)) (map data [0 ..< offered c] @ [data (offered c)])"
      using inv by (intro list_emb_prefix) (simp add: chan_inv_def)
    with inv False Send_turn show ?thesis
      by (simp add: chan_inv_def chan_step_def release_full depth_kept)
  qed
next
  case Receive_turn
  assume inv: "chan_inv data n c"
  show ?thesis
    using inv Receive_turn
    by (cases rule: wait_cases [of "chan_queue c"]) (simp_all add: chan_inv_def chan_step_def consumer_task_def)
qed

lemma chan_run_inv: "chan_inv data n c \<Longrightarrow> chan_inv data n (fold (chan_step msg_release msg_wait data) ts c)"
  by (induction ts arbitrary: c) (simp_all add: chan_step_inv)

lemma chan_start_inv: "q_msgs q = [] \<Longrightarrow> q_depth q = n \<Longrightarrow> chan_inv data n (chan_start q)"
  by (simp add: chan_inv_def chan_start_def)

text \<open>With the receiver's turn between two sends nothing is lost.\<close>

lemma alternating_run:
  "alternating ts \<Longrightarrow> 0 < q_depth (chan_queue c) \<Longrightarrow>
   printed c @ q_msgs (chan_queue c) = map data [0 ..< offered c] \<Longrightarrow> length (q_msgs (chan_queue c)) \<le> 1 \<Longrightarrow>
   ts = [] \<or> hd ts = Receive_turn \<or> q_msgs (chan_queue c) = [] \<Longrightarrow>
   (let c' = fold (chan_step msg_release msg_wait data) ts c in
    printed c' @ q_msgs (chan_queue c') = map data [0 ..< offered c'] \<and> length (q_msgs (chan_queue c')) \<le> 1)"
proof (induction ts arbitrary: c)
  case Nil
  then show ?case by simp
next
  case (Cons t ts)
  have tail: "alternating ts" using Cons.prems(1) by (cases t; cases ts; cases "hd ts") auto
  show ?case
  proof (cases t)
    case Send_turn
    then have "q_msgs (chan_queue c) = []" using Cons.prems(5) by simp
    moreover have "ts = [] \<or> hd ts = Receive_turn" using Cons.prems(1) Send_turn by (cases ts; cases "hd ts") auto
    ultimately show ?thesis
      using Cons.IH [OF tail, of "chan_step msg_release msg_wait data t c"] Cons.prems Send_turn
      by (simp add: chan_step_def release_room depth_kept)
  next
    case Receive_turn
    have "q_msgs (chan_queue (chan_step msg_release msg_wait data t c)) = []"
      using Cons.prems(4) Receive_turn
      by (cases rule: wait_cases [of "chan_queue c"]) (simp_all add: chan_step_def consumer_task_def)
    moreover have "printed (chan_step msg_release msg_wait data t c) @ q_msgs (chan_queue (chan_step msg_release msg_wait data t c)) =
        map data [0 ..< offered (chan_step msg_release msg_wait data t c)] \<and>
        q_depth (chan_queue (chan_step msg_release msg_wait data t c)) = q_depth (chan_queue c)"
      using Cons.prems(3) Receive_turn
      by (cases rule: wait_cases [of "chan_queue c"]) (simp_all add: chan_step_def consumer_task_def)
    ultimately show ?thesis
      using Cons.IH [OF tail, of "chan_step msg_release msg_wait data t c"] Cons.prems by simp
  qed
qed

end

text \<open>C16: Messages through the queue of a task. In every schedule of the producer, which never
  waits, and the consumer, what the consumer prints is part of what the producer sent, in its
  order, and at most ten messages wait. When the consumer has its turn between any two sends,
  nothing is lost: what it printed followed by what waits is all that was sent.\<close>

theorem consumer_sees_production_order:
  assumes "lossy_queue msg_release msg_wait q_msgs q_depth" and "q_msgs q = []" "q_depth q = 10"
    and "c = fold (pc_step msg_release msg_wait) ts (chan_start q)"
  shows "subseq (printed c @ q_msgs (chan_queue c)) (map producer_data [0 ..< offered c]) \<and>
    length (q_msgs (chan_queue c)) \<le> 10 \<and>
    (alternating ts \<longrightarrow> printed c @ q_msgs (chan_queue c) = map producer_data [0 ..< offered c] \<and>
      length (q_msgs (chan_queue c)) \<le> 1)"
proof -
  note run = lossy_queue.chan_run_inv [OF assms(1) lossy_queue.chan_start_inv [OF assms(1-3)], of producer_data ts]
  have "alternating ts \<Longrightarrow> printed c @ q_msgs (chan_queue c) = map producer_data [0 ..< offered c] \<and>
      length (q_msgs (chan_queue c)) \<le> 1"
    using lossy_queue.alternating_run [OF assms(1), of ts "chan_start q" producer_data] assms(2,3)
    unfolding assms(4) pc_step_chan by (simp add: chan_start_def Let_def)
  with run show ?thesis
    unfolding assms(4) pc_step_chan lossy_queue.chan_inv_def [OF assms(1)] by blast
qed

theorem consumer_sees_production_order_witness:
  "printed (fold (pc_step list_release list_wait)
      [Send_turn, Receive_turn, Receive_turn, Send_turn, Receive_turn, Send_turn] (chan_start ([], 10))) =
   [\<lparr> sensor_id = 1, sensor_value = 0 \<rparr>, \<lparr> sensor_id = 1, sensor_value = 1 \<rparr>]"
proof -
  define ts where "ts = [Send_turn, Receive_turn, Receive_turn, Send_turn, Receive_turn, Send_turn]"
  define c where "c = fold (pc_step list_release list_wait) ts (chan_start ([], 10))"
  have "offered c = 3" "length (fst (chan_queue c)) = 1"
    by (simp_all add: c_def ts_def chan_start_def producer_task_def consumer_task_def list_release_def list_wait_def)
  moreover have "map producer_data [0 ..< 3] =
    [\<lparr> sensor_id = 1, sensor_value = 0 \<rparr>, \<lparr> sensor_id = 1, sensor_value = 1 \<rparr>] @ [\<lparr> sensor_id = 1, sensor_value = 2 \<rparr>]"
    unfolding producer_data_def float_of_int_def by code_simp
  moreover have "alternating ts" by (simp add: ts_def)
  moreover have "printed c @ fst (chan_queue c) = map producer_data [0 ..< offered c]"
    using consumer_sees_production_order [OF task_queue.lossy_queue_axioms _ _ c_def] \<open>alternating ts\<close> by simp
  ultimately have "printed c = [\<lparr> sensor_id = 1, sensor_value = 0 \<rparr>, \<lparr> sensor_id = 1, sensor_value = 1 \<rparr>]"
    by (metis append_eq_append_conv length_Cons list.size(3) One_nat_def)
  then show ?thesis by (simp only: c_def ts_def)
qed

text \<open>The interrupt handler's task never prints more than there were interrupts, and every one
  when it keeps up.\<close>

theorem interrupts_are_counted:
  assumes "lossy_queue msg_release msg_wait q_msgs q_depth" and "q_msgs q = []" "q_depth q = 20"
    and "c = fold (irq_step msg_release msg_wait) ts (chan_start q)"
  shows "set (printed c) \<subseteq> {0x1234} \<and> length (printed c) \<le> offered c \<and>
    (alternating ts \<longrightarrow> offered c \<le> length (printed c) + 1)"
proof -
  note run = lossy_queue.chan_run_inv [OF assms(1) lossy_queue.chan_start_inv [OF assms(1-3)], of "\<lambda>i. 0x1234" ts]
  then have sub: "subseq (printed c @ q_msgs (chan_queue c)) (map (\<lambda>i. 0x1234) [0 ..< offered c])"
    unfolding assms(4) irq_step_chan lossy_queue.chan_inv_def [OF assms(1)] by blast
  have "offered c \<le> length (printed c) + 1" if "alternating ts"
  proof -
    from that have "printed c @ q_msgs (chan_queue c) = map (\<lambda>i. 0x1234) [0 ..< offered c] \<and>
        length (q_msgs (chan_queue c)) \<le> 1"
      using lossy_queue.alternating_run [OF assms(1), of ts "chan_start q" "\<lambda>i. 0x1234"] assms(2,3)
      unfolding assms(4) irq_step_chan by (simp add: chan_start_def Let_def)
    then have "length (printed c @ q_msgs (chan_queue c)) = offered c" "length (q_msgs (chan_queue c)) \<le> 1"
      by (metis diff_zero length_map length_upt, blast)
    then show ?thesis by simp
  qed
  moreover have "set (printed c) \<subseteq> {0x1234}"
  proof
    fix x
    assume "x \<in> set (printed c)"
    then have "x \<in> set (printed c @ q_msgs (chan_queue c))" by simp
    then obtain y where "y \<in> set (map (\<lambda>i. 0x1234) [0 ..< offered c])" "x = y"
      by (rule list_emb_set [OF sub])
    then show "x \<in> {0x1234}" by auto
  qed
  moreover have "length (printed c) \<le> offered c"
    using list_emb_length [OF sub] by simp
  ultimately show ?thesis by blast
qed

text \<open>The value the producer sends is its counter up to \<open>2^24\<close>; the next message carries the same
  value again.\<close>

lemma float_of_int_exact: "n < 2 ^ 24 \<Longrightarrow> float_of_int n = n"
proof -
  assume "n < 2 ^ 24"
  then have "floorlog 2 n \<le> 24" by (simp add: floorlog_leI)
  then show ?thesis by (simp add: float_of_int_def Let_def)
qed

lemma float_of_int_sticks: "float_of_int (2 ^ 24) = 2 ^ 24" "float_of_int (2 ^ 24 + 1) = 2 ^ 24"
proof -
  have "floorlog 2 16777216 = 25" "floorlog 2 16777217 = 25"
    by (intro antisym floorlog_leI floorlog_geI; simp)+
  then show "float_of_int (2 ^ 24) = 2 ^ 24" "float_of_int (2 ^ 24 + 1) = 2 ^ 24"
    by (simp_all add: float_of_int_def Let_def)
qed

section \<open>The thread test\<close>

datatype thread_call =
    Thread_created
  | Slept nat
  | Status_asked
  | State_printed int
  | Suspended
  | Resumed
  | Thread_deleted
  | Invalid_state int
  | Null_status_asked

text \<open>What the kernel answers: the handle a creation leaves (\<open>None\<close> for failure), the status of the
  thread at the two questions, whether the suspension works, the answer for a \<^verbatim>\<open>NULL\<close> handle.\<close>

record thread_env =
  created_thread :: "nat option"
  state_query :: "int option"
  suspend_ok :: bool
  cleanup_query :: "int option"
  null_state :: int

text \<open>Deleting what a handle names; the handle is \<^verbatim>\<open>NULL\<close> afterwards.\<close>

definition cleanup_task_handle :: "int option \<Rightarrow> nat option \<Rightarrow> thread_call list \<times> nat option" where
  "cleanup_task_handle status task_id =
     (case task_id of
        None \<Rightarrow> ([], None)
      | Some t \<Rightarrow> (Status_asked # (if status = Some 1 then [Thread_deleted] else []), None))"

definition test_normal_thread_creation :: "thread_env \<Rightarrow> nat option \<times> thread_call list" where
  "test_normal_thread_creation env =
     (case created_thread env of None \<Rightarrow> (None, []) | Some t \<Rightarrow> (Some t, [Thread_created, Slept 100]))"

definition test_thread_state_query :: "thread_env \<Rightarrow> thread_call list" where
  "test_thread_state_query env =
     Status_asked # (case state_query env of Some s \<Rightarrow> [State_printed s] | None \<Rightarrow> [])"

definition test_thread_suspend_resume :: "thread_env \<Rightarrow> thread_call list" where
  "test_thread_suspend_resume env =
     (if suspend_ok env then [Suspended, Slept 50, Resumed] else []) @ [Slept 200]"

definition test_thread_termination :: "thread_env \<Rightarrow> nat option \<Rightarrow> thread_call list" where
  "test_thread_termination env t = fst (cleanup_task_handle (cleanup_query env) t)"

definition test_error_handling :: "thread_env \<Rightarrow> thread_call list" where
  "test_error_handling env = [Null_status_asked, Invalid_state (null_state env)]"

text \<open>The three tests behind the creation always return \<^verbatim>\<open>QOSA_OK\<close>, so the tests of their results
  never leave. \<open>True\<close> stands for \<^verbatim>\<open>QOSA_OK\<close>, \<open>False\<close> for \<^verbatim>\<open>QOSA_FALSE\<close>.\<close>

definition osThreadCreateTest_init :: "thread_env \<Rightarrow> bool \<times> thread_call list" where
  "osThreadCreateTest_init env =
     (case test_normal_thread_creation env of
        (None, cs) \<Rightarrow> (False, cs)
      | (Some t, cs) \<Rightarrow>
          (True, cs @ test_thread_state_query env @ test_thread_suspend_resume env @
                 test_thread_termination env (Some t) @ test_error_handling env))"

text \<open>The thread is resumed whenever it was suspended, before the only deletion, which needs the
  status 1; nothing follows for the thread after it.\<close>

theorem thread_test_calls:
  "created_thread env = Some t \<Longrightarrow>
   filter (\<lambda>c. c \<in> {Suspended, Resumed, Thread_deleted}) (snd (osThreadCreateTest_init env)) =
     (if suspend_ok env then [Suspended, Resumed] else []) @ (if cleanup_query env = Some 1 then [Thread_deleted] else [])"
  by (auto simp: osThreadCreateTest_init_def test_normal_thread_creation_def test_thread_state_query_def
      test_thread_suspend_resume_def test_thread_termination_def cleanup_task_handle_def test_error_handling_def
      split: option.splits)

end
