(* ===== verification/Low_Power.thy ===== *)
theory Low_Power
  imports UniRTOS_Prelude
begin

text \<open>
  The low power example, \<^verbatim>\<open>system/lpm/lpm_demo.c\<close>, as it compiles: a damaged encoding has put five
  statements behind the comments before them (the copy of the event, two settings, the sleep and the
  vote that ends a wake-up task, the creation of the queue). What remains is a program, and it is this
  program that is modelled; the theorems say what the lost statements cost.
\<close>

record sleep_event =
  ev_status :: int
  ev_reason :: int

record demo_lpm_msg =
  event_id :: int
  msg_event :: sleep_event

record lpm_config =
  lpm_mode :: int
  delay_time :: nat
  dtr_en :: int
  uart_en :: int
  rfr_enable :: bool
  no_data_time :: nat
  retry_time :: nat
  tau :: string
  active_time :: string

text \<open>Constants of the platform.\<close>

record lpm_consts =
  LPM_MODE_ENABLE :: int
  LPM_UART_ENABLE :: int
  LPM_PTAUS_MAX_LEN :: nat
  LPM_SLEEP_STATUS :: int              \<comment> \<open>the event, to which the demo adds 100\<close>
  STATUS_SLEEP :: int
  STATUS_WAKEUP :: int
  REASON_NET_DATA :: int
  REASON_UART :: int
  REASON_DTR :: int
  REASON_USB :: int

datatype wake_reason = By_network | By_uart | By_dtr | By_usb | By_other

datatype lpm_call =
    Event_logged int int
  | Posted demo_lpm_msg
  | Config_set lpm_config bool
  | Handle_created bool
  | Callback_registered
  | Vote_disable bool                  \<comment> \<open>whether it worked\<close>
  | Vote_enable
  | Stays_awake
  | May_sleep                          \<comment> \<open>\<^verbatim>\<open>Vote Enabled, device can enter sleep now\<close>\<close>
  | Disable_failed
  | Entering_sleep int
  | Waking_up int wake_reason
  | Unhandled int
  | Queue_failed

record lpm_state =
  lpm_queue :: bool                    \<comment> \<open>\<open>g_lpm_demo_queue\<close> is not \<^verbatim>\<open>NULL\<close>\<close>
  vote_handle :: bool                  \<comment> \<open>\<open>g_app_vote_handle\<close> is not \<^verbatim>\<open>NULL\<close>\<close>
  last_task_time :: u32

definition lpm_initial :: lpm_state where
  "lpm_initial = \<lparr> lpm_queue = False, vote_handle = False, last_task_time = 0 \<rparr>"

definition LPM_DEMO_EVENT_SLEEP_STATUS :: "lpm_consts \<Rightarrow> int" where
  "LPM_DEMO_EVENT_SLEEP_STATUS k = LPM_SLEEP_STATUS k + 100"

text \<open>The message carries zeros: the copy of the event is in a comment.\<close>

definition demo_lpm_sleep_callback :: "lpm_consts \<Rightarrow> sleep_event \<Rightarrow> lpm_state \<Rightarrow> lpm_call list" where
  "demo_lpm_sleep_callback k ev s =
     Event_logged (ev_status ev) (ev_reason ev) #
     (if lpm_queue s
      then [Posted \<lparr> event_id = LPM_DEMO_EVENT_SLEEP_STATUS k, msg_event = \<lparr> ev_status = 0, ev_reason = 0 \<rparr> \<rparr>]
      else [])"

text \<open>The settings as read, with what is assigned; \<open>set_ok\<close> is the answer of the library.\<close>

definition business_config_lpm :: "lpm_consts \<Rightarrow> lpm_config \<Rightarrow> bool \<Rightarrow> lpm_call list" where
  "business_config_lpm k current set_ok =
     [Config_set (current\<lparr> lpm_mode := LPM_MODE_ENABLE k, delay_time := 5000, uart_en := LPM_UART_ENABLE k,
                           rfr_enable := True, retry_time := 600,
                           tau := strncpy_buf (tau current) ''01000010'' (LPM_PTAUS_MAX_LEN k),
                           active_time := strncpy_buf (active_time current) ''00100010'' (LPM_PTAUS_MAX_LEN k) \<rparr>) set_ok]"

definition business_create_vote_handle :: "bool \<Rightarrow> lpm_state \<Rightarrow> lpm_state \<times> lpm_call list" where
  "business_create_vote_handle created s =
     (if vote_handle s then (s, [])
      else (s\<lparr> vote_handle := created \<rparr>, [Handle_created created]))"

text \<open>Without the sleep and the vote the result that is tested at the end is the one of the first
  vote, so the task that disabled sleeping reports that it is allowed.\<close>

definition business_do_wakeup_task :: "bool \<Rightarrow> lpm_call list" where
  "business_do_wakeup_task disabled =
     (if \<not> disabled then [Vote_disable False, Disable_failed]
      else [Vote_disable True, Stays_awake, May_sleep])"

definition wake_reason_of :: "lpm_consts \<Rightarrow> int \<Rightarrow> wake_reason" where
  "wake_reason_of k r =
     (if r = REASON_NET_DATA k then By_network else if r = REASON_UART k then By_uart
      else if r = REASON_DTR k then By_dtr else if r = REASON_USB k then By_usb else By_other)"

definition lpm_dispatch :: "lpm_consts \<Rightarrow> demo_lpm_msg \<Rightarrow> lpm_call list" where
  "lpm_dispatch k m =
     (if event_id m = LPM_DEMO_EVENT_SLEEP_STATUS k then
        let ev = msg_event m in
        if ev_status ev = STATUS_SLEEP k then [Entering_sleep (ev_reason ev)]
        else if ev_status ev = STATUS_WAKEUP k then [Waking_up (ev_reason ev) (wake_reason_of k (ev_reason ev))]
        else []
      else [Unhandled (event_id m)])"

text \<open>What one round of the loop meets: the message, if the wait delivers one; the time of the two
  readings of the tick, in milliseconds since the start of the system, of which the counter has 32 bits;
  and the answer to the vote. The calls are recorded with the time of the first reading.\<close>

record lpm_round =
  got_msg :: "demo_lpm_msg option"
  time1 :: nat
  time2 :: nat
  disable_ok :: bool

datatype lpm_out = Out lpm_call | Woke nat nat

definition due :: "u32 \<Rightarrow> nat \<Rightarrow> bool" where
  "due prev t \<longleftrightarrow> (of_nat t :: u32) - prev > 60000"

definition lpm_loop_round :: "lpm_consts \<Rightarrow> lpm_state \<Rightarrow> lpm_round \<Rightarrow> (lpm_state, lpm_out) outcome" where
  "lpm_loop_round k s e =
     (let served = (case got_msg e of None \<Rightarrow> [] | Some m \<Rightarrow> map Out (lpm_dispatch k m)) in
      if due (last_task_time s) (time1 e)
      then Continue (s\<lparr> last_task_time := of_nat (time2 e) \<rparr>)
             (served @ map Out (business_do_wakeup_task (disable_ok e)) @ [Woke (time1 e) (time2 e)])
      else Continue s served)"

text \<open>The creation of the queue is in a comment: \<^verbatim>\<open>ret\<close> keeps its zero, so the test of it passes and
  the queue stays \<^verbatim>\<open>NULL\<close>.\<close>

definition lpm_demo_task_start :: "lpm_consts \<Rightarrow> lpm_config \<Rightarrow> bool \<Rightarrow> bool \<Rightarrow> lpm_state \<times> lpm_call list" where
  "lpm_demo_task_start k current set_ok handle_created =
     (let ret = 0 :: int in
      if ret \<noteq> 0 then (lpm_initial, [Queue_failed])
      else
        let (s, cs) = business_create_vote_handle handle_created lpm_initial in
        (s, Callback_registered # business_config_lpm k current set_ok @ cs))"

definition lpm_demo_task_entry ::
  "lpm_consts \<Rightarrow> lpm_config \<Rightarrow> bool \<Rightarrow> bool \<Rightarrow> lpm_round list \<Rightarrow> (lpm_state, lpm_out) outcome" where
  "lpm_demo_task_entry k current set_ok handle_created rounds =
     (let (s, cs) = lpm_demo_task_start k current set_ok handle_created in
      emit (map Out cs) (run_loop (lpm_loop_round k) s rounds))"

text \<open>The start of the task.\<close>

definition unir_lpm_demo_init :: "bool \<Rightarrow> bool \<Rightarrow> bool" where
  "unir_lpm_demo_init task_exists created = (if task_exists then True else created)"

section \<open>Votes\<close>

fun disabled_votes :: "lpm_out list \<Rightarrow> nat" where
  "disabled_votes [] = 0"
| "disabled_votes (Out (Vote_disable True) # os) = Suc (disabled_votes os)"
| "disabled_votes (c # os) = disabled_votes os"

definition enabled_votes :: "lpm_out list \<Rightarrow> nat" where
  "enabled_votes os = count_list os (Out Vote_enable)"

definition may_sleep_lines :: "lpm_out list \<Rightarrow> nat" where
  "may_sleep_lines os = count_list os (Out May_sleep)"

lemma disabled_votes_append [simp]: "disabled_votes (xs @ ys) = disabled_votes xs + disabled_votes ys"
  by (induction xs rule: disabled_votes.induct) simp_all

text \<open>When the wake-ups were, first to last, each with the time it was over.\<close>

definition wakes :: "lpm_out list \<Rightarrow> (nat \<times> nat) list" where
  "wakes os = concat (map (\<lambda>c. case c of Woke a b \<Rightarrow> [(a, b)] | Out x \<Rightarrow> []) os)"

lemma wakes_simps [simp]:
  "wakes [] = []" "wakes (Woke a b # os) = (a, b) # wakes os" "wakes (Out c # os) = wakes os"
  "wakes (xs @ ys) = wakes xs @ wakes ys" "wakes (map Out cs) = []"
  by (simp_all add: wakes_def comp_def)

text \<open>One after another with more than \<open>d\<close> milliseconds in between; \<open>l\<close> is when the one before was over.\<close>

fun apart :: "nat \<Rightarrow> nat \<Rightarrow> (nat \<times> nat) list \<Rightarrow> bool" where
  "apart d l [] = True"
| "apart d l ((a, b) # ws) = (l + d < a \<and> a \<le> b \<and> apart d b ws)"

lemma apart_append: "apart d l (ws @ [(a, b)]) \<longleftrightarrow> apart d l ws \<and> last (l # map snd ws) + d < a \<and> a \<le> b"
  by (induction ws arbitrary: l) auto

definition lpm_tinv :: "lpm_state \<Rightarrow> lpm_out list \<Rightarrow> bool" where
  "lpm_tinv s os \<longleftrightarrow>
     \<not> lpm_queue s \<and> enabled_votes os = 0 \<and> may_sleep_lines os = disabled_votes os \<and>
     last_task_time s = of_nat (last (0 # map snd (wakes os)))"

text \<open>What one round adds.\<close>

lemma dispatch_silent:
  "disabled_votes (map Out (lpm_dispatch k m)) = 0"
  "count_list (map Out (lpm_dispatch k m)) (Out Vote_enable) = 0"
  "count_list (map Out (lpm_dispatch k m)) (Out May_sleep) = 0"
  by (auto simp: lpm_dispatch_def Let_def)

lemma lpm_round_step:
  "lpm_tinv s os \<Longrightarrow> lpm_loop_round k s e = Continue s' os' \<Longrightarrow> lpm_tinv s' (os @ os')"
  by (cases "got_msg e"; cases "disable_ok e")
    (auto simp: lpm_loop_round_def lpm_tinv_def enabled_votes_def may_sleep_lines_def
      business_do_wakeup_task_def dispatch_silent Let_def split: if_splits)

interpretation lpm_task: traced_loop "lpm_loop_round k" lpm_tinv for k
  by unfold_locales (rule lpm_round_step)

lemma lpm_round_continues: "\<exists>s' os. lpm_loop_round k s e = Continue s' os"
  by (auto simp: lpm_loop_round_def Let_def)

lemma lpm_runs: "\<exists>s' os. run_loop (lpm_loop_round k) s rounds = Continue s' os"
proof (induction rounds arbitrary: s)
  case Nil
  then show ?case by simp
next
  case (Cons e es)
  obtain s1 os1 where "lpm_loop_round k s e = Continue s1 os1" using lpm_round_continues by blast
  with Cons.IH [of s1] show ?case by auto
qed

lemma device_runs: "\<exists>s os. lpm_demo_task_entry k c set_ok h rounds = Continue s os"
proof -
  obtain s os where "run_loop (lpm_loop_round k) (fst (lpm_demo_task_start k c set_ok h)) rounds = Continue s os"
    using lpm_runs by blast
  then show ?thesis by (simp add: lpm_demo_task_entry_def case_prod_beta)
qed

lemma lpm_start_tinv:
  "lpm_tinv (fst (lpm_demo_task_start k c ok h)) (map Out (snd (lpm_demo_task_start k c ok h)))"
  by (simp add: lpm_tinv_def lpm_demo_task_start_def business_create_vote_handle_def business_config_lpm_def
      lpm_initial_def enabled_votes_def may_sleep_lines_def)

text \<open>C38: The device never sleeps again. In every run of the low power task, whatever the queue, the
  clock and the library answer, sleeping is never enabled again: there is no vote for it, although every
  wake-up task that has disabled it reports that the device can sleep. And nothing ever waits in the queue of
  the sleep events: the callback only logs.\<close>

theorem device_kept_awake:
  "\<exists>s os. lpm_demo_task_entry k c set_ok h rounds = Continue s os \<and>
     enabled_votes os = 0 \<and> may_sleep_lines os = disabled_votes os \<and>
     demo_lpm_sleep_callback k ev s = [Event_logged (ev_status ev) (ev_reason ev)]"
proof -
  let ?s0 = "fst (lpm_demo_task_start k c set_ok h)" and ?cs = "map Out (snd (lpm_demo_task_start k c set_ok h))"
  obtain s os where run: "run_loop (lpm_loop_round k) ?s0 rounds = Continue s os" using lpm_runs by blast
  have "lpm_tinv s (?cs @ os)" by (rule lpm_task.run_traced [OF run lpm_start_tinv])
  moreover have "lpm_demo_task_entry k c set_ok h rounds = Continue s (?cs @ os)"
    using run by (simp add: lpm_demo_task_entry_def case_prod_beta)
  ultimately show ?thesis by (auto simp: lpm_tinv_def demo_lpm_sleep_callback_def)
qed

section \<open>Distances\<close>

text \<open>The comparison of the 32-bit ticks: due is what the distance modulo \<open>2^32\<close> says, so a wake-up is
  never early, and one that is looked at before the counter has gone round is not missed.\<close>

lemma due_iff:
  assumes "l \<le> t"
  shows "due (of_nat l) t \<longleftrightarrow> 60000 < (t - l) mod 2 ^ 32"
proof -
  have "(of_nat t :: u32) - of_nat l = of_nat (t - l)" using assms by simp
  moreover have "(60000 :: u32) < of_nat n \<longleftrightarrow> 60000 < n mod 2 ^ 32" for n
    by (simp add: word_less_nat_alt unat_of_nat)
  ultimately show ?thesis by (simp add: due_def)
qed

fun clock_from :: "nat \<Rightarrow> lpm_round list \<Rightarrow> bool" where
  "clock_from t [] = True"
| "clock_from t (e # es) = (t \<le> time1 e \<and> time1 e \<le> time2 e \<and> clock_from (time2 e) es)"

lemma wakes_served: "wakes (case m of None \<Rightarrow> [] | Some x \<Rightarrow> map Out (f x)) = []"
  by (cases m) simp_all

lemma lpm_round_due:
  "due (last_task_time s) (time1 e) \<Longrightarrow>
   \<exists>os. lpm_loop_round k s e = Continue (s\<lparr> last_task_time := of_nat (time2 e) \<rparr>) os \<and> wakes os = [(time1 e, time2 e)]"
  by (simp add: lpm_loop_round_def Let_def wakes_served)

lemma lpm_round_idle:
  "\<not> due (last_task_time s) (time1 e) \<Longrightarrow> \<exists>os. lpm_loop_round k s e = Continue s os \<and> wakes os = []"
  by (simp add: lpm_loop_round_def Let_def wakes_served)

lemma wakes_apart:
  "run_loop (lpm_loop_round k) s rounds = Continue s' os \<Longrightarrow> last_task_time s = of_nat l \<Longrightarrow> l \<le> t \<Longrightarrow>
   clock_from t rounds \<Longrightarrow> apart 60000 l (wakes os)"
proof (induction rounds arbitrary: s l t os)
  case Nil
  then show ?case by simp
next
  case (Cons e es)
  have l: "l \<le> time1 e" "l \<le> time2 e" "time1 e \<le> time2 e" "clock_from (time2 e) es"
    using Cons.prems(3,4) by simp_all
  show ?case
  proof (cases "due (of_nat l) (time1 e)")
    case True
    let ?s = "s\<lparr> last_task_time := of_nat (time2 e) \<rparr>"
    obtain os1 where "lpm_loop_round k s e = Continue ?s os1" "wakes os1 = [(time1 e, time2 e)]"
      using lpm_round_due [of s e k] True Cons.prems(2) by auto
    with Cons.prems(1) obtain os2 where os2: "run_loop (lpm_loop_round k) ?s es = Continue s' os2"
        "wakes os = (time1 e, time2 e) # wakes os2"
      by (cases "run_loop (lpm_loop_round k) ?s es") auto
    have "apart 60000 (time2 e) (wakes os2)"
      using Cons.IH [OF os2(1) _ order_refl l(4)] by simp
    moreover have "60000 < (time1 e - l) mod 2 ^ 32" using True by (simp add: due_iff [OF l(1)])
    then have "60000 < time1 e - l" using mod_less_eq_dividend [of "time1 e - l" "2 ^ 32"] by linarith
    ultimately show ?thesis using os2(2) l(3) by simp
  next
    case False
    then obtain os1 where "lpm_loop_round k s e = Continue s os1" "wakes os1 = []"
      using lpm_round_idle [of s e k] Cons.prems(2) by auto
    with Cons.prems(1) obtain os2 where "run_loop (lpm_loop_round k) s es = Continue s' os2" "wakes os = wakes os2"
      by (cases "run_loop (lpm_loop_round k) s es") auto
    with Cons.IH [OF _ Cons.prems(2) l(2) l(4)] show ?thesis by simp
  qed
qed

text \<open>C17: Wake-up tasks start more than 60000 ticks after the one before was over, through every
  overflow of the 32-bit tick counter, and never overlap.\<close>

theorem wake_ups_are_spaced:
  assumes "clock_from 0 rounds" "lpm_demo_task_entry k c set_ok h rounds = Continue s os"
  shows "apart 60000 0 (wakes os)"
proof -
  let ?s0 = "fst (lpm_demo_task_start k c set_ok h)" and ?cs = "map Out (snd (lpm_demo_task_start k c set_ok h))"
  obtain os' where run: "run_loop (lpm_loop_round k) ?s0 rounds = Continue s os'" "os = ?cs @ os'"
    using assms(2) by (cases "run_loop (lpm_loop_round k) ?s0 rounds") (auto simp: lpm_demo_task_entry_def case_prod_beta)
  have "last_task_time ?s0 = of_nat 0"
    by (simp add: lpm_demo_task_start_def business_create_vote_handle_def lpm_initial_def)
  from wakes_apart [OF run(1) this order_refl assms(1)] run(2) show ?thesis by simp
qed

text \<open>Four rounds; the tick counter overflows before the last one.\<close>

definition lpm_example_consts :: lpm_consts where
  "lpm_example_consts =
     \<lparr> LPM_MODE_ENABLE = 1, LPM_UART_ENABLE = 1, LPM_PTAUS_MAX_LEN = 8, LPM_SLEEP_STATUS = 7, STATUS_SLEEP = 0,
       STATUS_WAKEUP = 1, REASON_NET_DATA = 0, REASON_UART = 1, REASON_DTR = 2, REASON_USB = 3 \<rparr>"

definition lpm_example_config :: lpm_config where
  "lpm_example_config =
     \<lparr> lpm_mode = 0, delay_time = 0, dtr_en = 0, uart_en = 0, rfr_enable = False, no_data_time = 0, retry_time = 0,
       tau = replicate 9 NUL, active_time = replicate 9 NUL \<rparr>"

definition lpm_example_rounds :: "lpm_round list" where
  "lpm_example_rounds =
     map (\<lambda>(a, b). \<lparr> got_msg = None, time1 = a, time2 = b, disable_ok = True \<rparr>)
       [(100, 101), (70000, 70001), (130001, 130002), (4295000000, 4295000001)]"

theorem wake_ups_are_spaced_witness:
  "\<exists>s os. lpm_demo_task_entry lpm_example_consts lpm_example_config True True lpm_example_rounds = Continue s os \<and>
     apart 60000 0 (wakes os)"
proof -
  have "clock_from 0 lpm_example_rounds" by (simp add: lpm_example_rounds_def)
  moreover obtain s os where
    "lpm_demo_task_entry lpm_example_consts lpm_example_config True True lpm_example_rounds = Continue s os"
    using device_runs by blast
  ultimately show ?thesis using wake_ups_are_spaced by blast
qed

text \<open>Nor is a wake-up missed that is looked at before the counter has gone round.\<close>

lemma wake_up_not_missed:
  "last_task_time s = of_nat l \<Longrightarrow> l + 60000 < time1 e \<Longrightarrow> time1 e - l < 2 ^ 32 \<Longrightarrow>
   \<exists>s' os. lpm_loop_round k s e = Continue s' os \<and> wakes os = [(time1 e, time2 e)]"
  using due_iff [of l "time1 e"] lpm_round_due [of s e k] by auto

end
