(* ===== verification/Services.thy ===== *)
theory Services
  imports UniRTOS_Prelude
begin

text \<open>
  Platform services: parameters in non-volatile memory (\<^verbatim>\<open>system/nv/nv_demo.c\<close>), the SIM card
  (\<^verbatim>\<open>network/sim\<close>), power (\<^verbatim>\<open>system/power/power.c\<close>), the clock (\<^verbatim>\<open>system/time/time.c\<close>) and its
  alarm (\<^verbatim>\<open>peripheral/rtc/rtc_demo.c\<close>). The services are parameters; the locales \<open>nv_store\<close> and
  \<open>sim_settings\<close> state what a read returns after a write, each with an instance.
\<close>

section \<open>Parameters in non-volatile memory\<close>

datatype nv_value = Nv_int int | Nv_text string

type_synonym nv_items = "(string \<times> nv_value) list"

text \<open>Writing and deleting return a code and the new store, reading a code and the items as found; a code
  of zero is success.\<close>

locale nv_store =
  fixes nv_write :: "'st \<Rightarrow> string \<Rightarrow> nv_items \<Rightarrow> int \<times> 'st"
    and nv_read :: "'st \<Rightarrow> string \<Rightarrow> string list \<Rightarrow> int \<times> nv_items"
    and nv_delete :: "'st \<Rightarrow> string \<Rightarrow> string list \<Rightarrow> int \<times> 'st"
  assumes read_written: "nv_write st p items = (0, st') \<Longrightarrow> distinct (map fst items) \<Longrightarrow> nv_read st' p (map fst items) = (0, items)"
    and read_deleted: "nv_delete st p ks = (0, st') \<Longrightarrow> ks \<noteq> [] \<Longrightarrow> fst (nv_read st' p ks) \<noteq> 0"

definition map_write :: "(string \<times> string \<Rightarrow> nv_value option) \<Rightarrow> string \<Rightarrow> nv_items \<Rightarrow> int \<times> (string \<times> string \<Rightarrow> nv_value option)" where
  "map_write st p items = (0, fold (\<lambda>(k, v) m. m((p, k) \<mapsto> v)) items st)"

definition map_read :: "(string \<times> string \<Rightarrow> nv_value option) \<Rightarrow> string \<Rightarrow> string list \<Rightarrow> int \<times> nv_items" where
  "map_read st p ks =
     (if \<forall>k\<in>set ks. st (p, k) \<noteq> None then (0, map (\<lambda>k. (k, the (st (p, k)))) ks) else (- 1, []))"

definition map_delete :: "(string \<times> string \<Rightarrow> nv_value option) \<Rightarrow> string \<Rightarrow> string list \<Rightarrow> int \<times> (string \<times> string \<Rightarrow> nv_value option)" where
  "map_delete st p ks = (0, \<lambda>(q, k). if q = p \<and> k \<in> set ks then None else st (q, k))"

lemma fold_map_write:
  "distinct (map fst items) \<Longrightarrow> (k, v) \<in> set items \<Longrightarrow> fold (\<lambda>(k, v) m. m((p, k) \<mapsto> v)) items st (p, k) = Some v"
proof (induction items arbitrary: st rule: rev_induct)
  case Nil
  then show ?case by simp
next
  case (snoc x xs)
  then show ?case by (cases x) (auto simp: rev_image_eqI)
qed

interpretation map_store: nv_store map_write map_read map_delete
proof
  fix st p items st' ks
  show "map_read st' p (map fst items) = (0, items)"
    if "map_write st p items = (0, st')" "distinct (map fst items)"
  proof -
    have get: "st' (p, k) = Some v" if "(k, v) \<in> set items" for k v
      using that \<open>map_write st p items = (0, st')\<close> \<open>distinct (map fst items)\<close> fold_map_write
      by (auto simp: map_write_def)
    then have "map (\<lambda>x. (fst x, the (st' (p, fst x)))) items = items" by (intro map_idI) auto
    with get show ?thesis by (auto simp: map_read_def comp_def)
  qed
  show "fst (map_read st' p ks) \<noteq> 0" if "map_delete st p ks = (0, st')" "ks \<noteq> []"
    using that by (cases ks) (auto simp: map_delete_def map_read_def)
qed

record sys_config =
  boot_count :: int
  device_name :: string                \<comment> \<open>32 bytes\<close>
  auto_sleep_en :: int

definition SYS_CFG_NV_PATH :: string where
  "SYS_CFG_NV_PATH = ''application_cfg.json/config/example_cfg''"

definition sys_config_zero :: sys_config where
  "sys_config_zero = \<lparr> boot_count = 0, device_name = replicate 32 NUL, auto_sleep_en = 0 \<rparr>"

text \<open>The table binds a name to each member; a read stores through it.\<close>

definition sys_cfg_table :: "sys_config \<Rightarrow> nv_items" where
  "sys_cfg_table c =
     [(''boot_count'', Nv_int (boot_count c)), (''device_name'', Nv_text (c_str (device_name c))),
      (''auto_sleep_en'', Nv_int (auto_sleep_en c))]"

fun store_item :: "string \<times> nv_value \<Rightarrow> sys_config \<Rightarrow> sys_config" where
  "store_item (k, Nv_int i) c =
     (if k = ''boot_count'' then c\<lparr> boot_count := i \<rparr>
      else if k = ''auto_sleep_en'' then c\<lparr> auto_sleep_en := i \<rparr> else c)"
| "store_item (k, Nv_text t) c =
     (if k = ''device_name'' then c\<lparr> device_name := strncpy_buf (device_name c) t 32 \<rparr> else c)"

datatype nv_line =
    Written_ok
  | Write_failed int
  | Cleared int string
  | Recovered int string int
  | Read_failed int
  | Deleted_ok
  | Delete_failed int

definition json_nv_demo_task ::
  "('st \<Rightarrow> string \<Rightarrow> nv_items \<Rightarrow> int \<times> 'st) \<Rightarrow> ('st \<Rightarrow> string \<Rightarrow> string list \<Rightarrow> int \<times> nv_items) \<Rightarrow>
   ('st \<Rightarrow> string \<Rightarrow> string list \<Rightarrow> int \<times> 'st) \<Rightarrow> 'st \<Rightarrow> sys_config \<Rightarrow> sys_config \<times> 'st \<times> nv_line list" where
  "json_nv_demo_task nv_write nv_read nv_delete st cfg =
     (let cfg = cfg\<lparr> boot_count := 100, device_name := strncpy_buf (device_name cfg) ''IoT_Node'' 9, auto_sleep_en := 1 \<rparr>;
          ks = map fst (sys_cfg_table cfg);
          (ret, st) = nv_write st SYS_CFG_NV_PATH (sys_cfg_table cfg);
          l1 = (if ret = 0 then Written_ok else Write_failed ret);
          cfg = sys_config_zero;
          l2 = Cleared (boot_count cfg) (c_str (device_name cfg));
          (ret, items) = nv_read st SYS_CFG_NV_PATH ks;
          cfg = (if ret = 0 then fold store_item items cfg else cfg);
          l3 = (if ret = 0 then Recovered (boot_count cfg) (c_str (device_name cfg)) (auto_sleep_en cfg) else Read_failed ret);
          (ret, st) = nv_delete st SYS_CFG_NV_PATH ks;
          l4 = (if ret = 0 then Deleted_ok else Delete_failed ret) in
      (cfg, st, [l1, l2, l3, l4]))"

text \<open>Parameters come back. With a store that keeps its contract, whatever it held and
  whatever the variables held before, the values written are the values recovered from the cleared
  variables, and after the deletion the node can no longer be read.\<close>

theorem nv_parameters_round_trip:
  assumes "nv_store nv_write nv_read nv_delete"
    and "\<forall>st p items. fst (nv_write st p items) = 0" "\<forall>st p ks. fst (nv_delete st p ks) = 0"
    and "length (device_name cfg) = 32"
  shows "\<exists>cfg' st'. json_nv_demo_task nv_write nv_read nv_delete st cfg =
      (cfg', st', [Written_ok, Cleared 0 '''', Recovered 100 ''IoT_Node'' 1, Deleted_ok]) \<and>
    boot_count cfg' = 100 \<and> c_str (device_name cfg') = ''IoT_Node'' \<and> auto_sleep_en cfg' = 1 \<and>
    fst (nv_read st' SYS_CFG_NV_PATH (map fst (sys_cfg_table cfg'))) \<noteq> 0"
proof -
  let ?cfg = "cfg\<lparr> boot_count := 100, device_name := strncpy_buf (device_name cfg) ''IoT_Node'' 9, auto_sleep_en := 1 \<rparr>"
  have name: "c_str (strncpy_buf d ''IoT_Node'' n) = ''IoT_Node''" if "8 < n" for d n
    using strncpy_short [of "''IoT_Node''" n d] that by simp
  have table: "sys_cfg_table ?cfg =
      [(''boot_count'', Nv_int 100), (''device_name'', Nv_text ''IoT_Node''), (''auto_sleep_en'', Nv_int 1)]" (is "_ = ?items")
    by (simp add: sys_cfg_table_def name)
  obtain st1 where w: "nv_write st SYS_CFG_NV_PATH ?items = (0, st1)" using assms(2) by (metis prod.collapse)
  have r: "nv_read st1 SYS_CFG_NV_PATH (map fst ?items) = (0, ?items)"
    by (rule nv_store.read_written [OF assms(1) w]) simp
  obtain st2 where d: "nv_delete st1 SYS_CFG_NV_PATH (map fst ?items) = (0, st2)" using assms(3) by (metis prod.collapse)
  have "fst (nv_read st2 SYS_CFG_NV_PATH (map fst ?items)) \<noteq> 0"
    by (rule nv_store.read_deleted [OF assms(1) d]) simp
  moreover have "c_str (replicate 32 NUL) = []" by (simp add: c_str_def takeWhile_replicate)
  ultimately show ?thesis
    using w r d unfolding json_nv_demo_task_def table
    by (simp add: sys_config_zero_def name sys_cfg_table_def)
qed

theorem nv_parameters_round_trip_witness:
  "\<exists>cfg' st'. json_nv_demo_task map_write map_read map_delete Map.empty sys_config_zero =
      (cfg', st', [Written_ok, Cleared 0 '''', Recovered 100 ''IoT_Node'' 1, Deleted_ok]) \<and> boot_count cfg' = 100"
  using nv_parameters_round_trip [OF map_store.nv_store_axioms, of sys_config_zero Map.empty]
  by (auto simp: map_write_def map_delete_def sys_config_zero_def)

section \<open>SIM card\<close>

record hot_swap_cfg =
  hot_swap_enable :: bool
  insert_level :: int
  hot_swap_gpio :: int

locale sim_settings =
  fixes get_hot_swap :: "'s \<Rightarrow> nat \<Rightarrow> int \<times> hot_swap_cfg" and set_hot_swap :: "'s \<Rightarrow> nat \<Rightarrow> hot_swap_cfg \<Rightarrow> int \<times> 's"
  assumes get_after_set: "set_hot_swap s i c = (0, s') \<Longrightarrow> get_hot_swap s' i = (0, c)"

text \<open>Return code, state of the library, number of times the setting was written.\<close>

definition sim_demo_sim_hot_swap_config ::
  "('s \<Rightarrow> nat \<Rightarrow> int \<times> hot_swap_cfg) \<Rightarrow> ('s \<Rightarrow> nat \<Rightarrow> hot_swap_cfg \<Rightarrow> int \<times> 's) \<Rightarrow> int \<Rightarrow> 's \<Rightarrow> nat \<Rightarrow> bool \<Rightarrow> int \<times> 's \<times> nat" where
  "sim_demo_sim_hot_swap_config get_hot_swap set_hot_swap unspecified_gpio s simid enable =
     (let (ret, cfg) = get_hot_swap s simid in
      if ret \<noteq> 0 then (ret, s, 0)
      else if hot_swap_enable cfg = enable then (0, s, 0)
      else
        let cfg = cfg\<lparr> hot_swap_enable := enable, insert_level := 1, hot_swap_gpio := unspecified_gpio \<rparr>;
            (ret, s) = set_hot_swap s simid cfg in
        (ret, s, 1))"

definition list_get_swap :: "hot_swap_cfg list \<Rightarrow> nat \<Rightarrow> int \<times> hot_swap_cfg" where
  "list_get_swap s i =
     (if i < length s then (0, s ! i) else (- 1, \<lparr> hot_swap_enable = False, insert_level = 0, hot_swap_gpio = 0 \<rparr>))"

definition list_set_swap :: "hot_swap_cfg list \<Rightarrow> nat \<Rightarrow> hot_swap_cfg \<Rightarrow> int \<times> hot_swap_cfg list" where
  "list_set_swap s i c = (if i < length s then (0, s[i := c]) else (- 1, s))"

interpretation swap_list: sim_settings list_get_swap list_set_swap
  by unfold_locales (auto simp: list_get_swap_def list_set_swap_def split: if_splits)

text \<open>When the call succeeds the card has the setting asked for, and asking again writes nothing.\<close>

lemma hot_swap_idempotent:
  assumes "sim_settings get_hot_swap set_hot_swap"
    and "sim_demo_sim_hot_swap_config get_hot_swap set_hot_swap g s i enable = (0, s', n)"
  shows "hot_swap_enable (snd (get_hot_swap s' i)) = enable \<and> n \<le> 1 \<and>
    sim_demo_sim_hot_swap_config get_hot_swap set_hot_swap g s' i enable = (0, s', 0)"
  using assms(2) sim_settings.get_after_set [OF assms(1), of s i _ s']
  by (auto simp: sim_demo_sim_hot_swap_config_def Let_def split: prod.splits if_splits)

datatype sim_line = Sim_text string string | Sim_error string int | Sim_status string int

definition sim_demo_sim_imsi_get_sync :: "int \<times> string \<Rightarrow> int \<times> sim_line" where
  "sim_demo_sim_imsi_get_sync answer =
     (let (ret, imsi) = answer in
      (ret, if ret = 0 then Sim_text ''[sync] read IMSI'' (c_str imsi) else Sim_error ''[sync] Read IMSI failed'' ret))"

definition sim_demo_get_imsi_cb :: "int \<Rightarrow> string \<Rightarrow> sim_line" where
  "sim_demo_get_imsi_cb err_code imsi =
     (if err_code = 0 then Sim_text ''[async] get IMSI'' (c_str imsi) else Sim_error ''[async] get IMSI fail'' err_code)"

definition sim_demo_sim_imsi_get_async :: "int \<Rightarrow> int" where
  "sim_demo_sim_imsi_get_async qosa_err = (if qosa_err \<noteq> 0 then - 1 else 0)"

definition sim_demo_get_iccid_cb :: "(int \<times> string) option \<Rightarrow> sim_line c_result" where
  "sim_demo_get_iccid_cb cnf =
     (case cnf of
        None \<Rightarrow> Inl Null_dereference
      | Some (err_code, iccid) \<Rightarrow>
          Inr (if err_code = 0 then Sim_text ''[async] get ICCID'' (c_str iccid)
               else Sim_error ''[async] get ICCID fail'' err_code))"

definition sim_demo_sim_iccid_get_async :: "int \<Rightarrow> int" where
  "sim_demo_sim_iccid_get_async qosa_err = (if qosa_err \<noteq> 0 then - 1 else 0)"

text \<open>Inserted, buffered status, initialised: the first that fails ends the check with its code.\<close>

definition sim_demo_sim_status_check :: "int \<Rightarrow> int \<Rightarrow> int \<times> int \<Rightarrow> int \<Rightarrow> int \<times> sim_line list" where
  "sim_demo_sim_status_check INSERTED insert_stat status init_stat =
     (if insert_stat \<noteq> INSERTED then (insert_stat, [Sim_error ''Read SIM insert status failed'' insert_stat])
      else if fst status \<noteq> 0
      then (fst status, [Sim_status ''SIM insert status'' insert_stat, Sim_error ''Read SIM status failed'' (fst status)])
      else (init_stat,
            [Sim_status ''SIM insert status'' insert_stat, Sim_status ''SIM Status'' (snd status),
             Sim_status ''SIM init status'' init_stat]))"

lemma status_check_complete:
  "snd (sim_demo_sim_status_check ins i st k) = [a, b, c] \<longleftrightarrow>
     i = ins \<and> fst st = 0 \<and> a = Sim_status ''SIM insert status'' i \<and> b = Sim_status ''SIM Status'' (snd st) \<and>
     c = Sim_status ''SIM init status'' k"
  by (auto simp: sim_demo_sim_status_check_def)

section \<open>Power\<close>

datatype boot_line =
    From_psm | From_power_key | From_reset_key | From_watchdog | From_panic | From_software | From_unknown
  | Cause_failed int

record boot_causes =
  PSM_WAKE :: int
  PWRKEY :: int
  RESET :: int
  WDG :: int
  PANIC :: int
  SWRESET :: int

datatype power_call = Slept_sec nat | Boot_line boot_line | Reset_called | Reset_failed int | Power_down_called
  | Power_down_failed int | Key_callback_registered

definition unir_pwrkey_demo_boot_cause :: "boot_causes \<Rightarrow> int \<Rightarrow> int \<Rightarrow> power_call list" where
  "unir_pwrkey_demo_boot_cause k ret boot_cause =
     [Boot_line
       (if ret \<noteq> 0 then Cause_failed ret
        else if boot_cause = PSM_WAKE k then From_psm
        else if boot_cause = PWRKEY k then From_power_key
        else if boot_cause = RESET k then From_reset_key
        else if boot_cause = WDG k then From_watchdog
        else if boot_cause = PANIC k then From_panic
        else if boot_cause = SWRESET k then From_software
        else From_unknown)]"

text \<open>A reset or a power down that works does not return (\<open>None\<close>): the calls end there.\<close>

definition unir_pwrkey_demo_device_reset :: "int option \<Rightarrow> power_call list \<times> bool" where
  "unir_pwrkey_demo_device_reset answer =
     (case answer of
        None \<Rightarrow> ([Slept_sec 3, Reset_called], False)
      | Some ret \<Rightarrow> ([Slept_sec 3, Reset_called] @ (if ret \<noteq> 0 then [Reset_failed ret] else []), True))"

definition unir_pwrkey_demo_power_down :: "int option \<Rightarrow> power_call list \<times> bool" where
  "unir_pwrkey_demo_power_down answer =
     (case answer of
        None \<Rightarrow> ([Slept_sec 3, Power_down_called], False)
      | Some ret \<Rightarrow> ([Slept_sec 3, Power_down_called] @ (if ret \<noteq> 0 then [Power_down_failed ret] else []), True))"

definition unir_pwrkey_demo_callback_power_down :: "power_call list" where
  "unir_pwrkey_demo_callback_power_down = [Key_callback_registered, Slept_sec 3]"

definition unir_pwrkey_demo_process :: "boot_causes \<Rightarrow> int \<Rightarrow> int \<Rightarrow> int option \<Rightarrow> int option \<Rightarrow> power_call list" where
  "unir_pwrkey_demo_process k ret cause reset_answer down_answer =
     (let (reset, back) = unir_pwrkey_demo_device_reset reset_answer in
      Slept_sec 2 # unir_pwrkey_demo_boot_cause k ret cause @ reset @
      (if \<not> back then []
       else
         let (down, back) = unir_pwrkey_demo_power_down down_answer in
         down @ (if \<not> back then [] else unir_pwrkey_demo_callback_power_down)))"

text \<open>Five seconds after its start the demo resets the device, every time; the power down and the
  callback for the key are reached only when a reset returns.\<close>

lemma demo_resets_device:
  "Reset_called \<in> set (unir_pwrkey_demo_process k ret cause reset_answer down_answer)"
  "Key_callback_registered \<in> set (unir_pwrkey_demo_process k ret cause reset_answer down_answer) \<longleftrightarrow>
     reset_answer \<noteq> None \<and> down_answer \<noteq> None"
  by (auto simp: unir_pwrkey_demo_process_def unir_pwrkey_demo_boot_cause_def unir_pwrkey_demo_device_reset_def
      unir_pwrkey_demo_power_down_def unir_pwrkey_demo_callback_power_down_def split: option.splits)

section \<open>Clock and alarm\<close>

text \<open>The two differences the clock demo prints: ticks in 32 bits, milliseconds in 64.\<close>

definition time_deltas :: "u32 \<Rightarrow> u32 \<Rightarrow> 64 word \<Rightarrow> 64 word \<Rightarrow> nat \<times> nat" where
  "time_deltas start_tick end_tick start_ms end_ms = (unat (end_tick - start_tick), unat (end_ms - start_ms))"

text \<open>A tick counter that wraps during the sleep does not disturb the difference.\<close>

lemma tick_delta_exact:
  "fst (time_deltas (of_nat t) (of_nat (t + d)) s e) = d mod 2 ^ 32"
  by (simp add: time_deltas_def unat_of_nat)

text \<open>The alarm demo: time zone 32 quarters of an hour, the clock set, the local time read back, the alarm
  30 seconds behind it. \<open>gmtime\<close> is the platform's conversion.\<close>

record 'tm rtc_lib =
  rtc_get_localtime :: "int option"    \<comment> \<open>what the call stores, if it does\<close>
  rtc_gmtime :: "int \<Rightarrow> 'tm"

datatype 'tm rtc_call = Timezone_set int | Time_set int | Alarm_set 'tm | Alarm_callback | Alarm_enabled

definition quec_rtc_demo_process :: "'tm rtc_lib \<Rightarrow> 'tm rtc_call list" where
  "quec_rtc_demo_process lib =
     (let local_time = (case rtc_get_localtime lib of Some t \<Rightarrow> t | None \<Rightarrow> 0);
          tm = rtc_gmtime lib (local_time + 30) in
      [Timezone_set 32, Time_set 1746576000, Alarm_set tm, Alarm_callback, Alarm_enabled])"

text \<open>With a clock that answers, the alarm is the calendar time half a minute after the local time; when the
  local time cannot be read it is half a minute into 1970, since the result is not looked at.\<close>

lemma alarm_time:
  "Alarm_set tm \<in> set (quec_rtc_demo_process lib) \<longleftrightarrow>
     tm = rtc_gmtime lib ((case rtc_get_localtime lib of Some t \<Rightarrow> t | None \<Rightarrow> 0) + 30)"
  by (auto simp: quec_rtc_demo_process_def Let_def)

end
