(* ===== verification/Startup.thy ===== *)
theory Startup
  imports UniRTOS_Prelude
begin

text \<open>
  How the examples start their tasks: the \<^verbatim>\<open>..._init\<close> functions that the application framework calls. There
  are three ways. Some test a global handle and start their task once, however often they are called
  (the interface \<open>started_once\<close>, interpreted on each of them); some have the handle in a local
  variable, or do not test it, and start another task at every call; the two socket examples create a queue before.
\<close>

text \<open>What an application has started: its global task handle, the names of the tasks created so far,
  its queue handle, the queues that exist, its context, the lines it has logged about the outcome.\<close>

record boot =
  task_handle :: bool                  \<comment> \<open>the global handle is not \<^verbatim>\<open>NULL\<close>\<close>
  task_names :: "string list"
  queue_handle :: "nat option"
  live_queues :: "nat list"
  made_queues :: nat
  context_block :: bool                \<comment> \<open>\<^verbatim>\<open>g_demo_http\<close>\<close>
  boot_log :: "string list"

definition boot_zero :: boot where
  "boot_zero =
     \<lparr> task_handle = False, task_names = [], queue_handle = None, live_queues = [], made_queues = 0,
       context_block = False, boot_log = [] \<rparr>"

text \<open>What the kernel answers during a call.\<close>

record start_env =
  queue_created :: bool
  task_created :: bool
  block_allocated :: bool

definition logged :: "string \<Rightarrow> boot \<Rightarrow> boot" where
  "logged t b = b\<lparr> boot_log := boot_log b @ [t] \<rparr>"

definition task_started :: "string \<Rightarrow> boot \<Rightarrow> boot" where
  "task_started name b = b\<lparr> task_names := task_names b @ [name] \<rparr>"

text \<open>Creating the task behind the global handle; \<open>err\<close> is logged on failure, nothing if it is empty.\<close>

definition create_global :: "string \<Rightarrow> string \<Rightarrow> start_env \<Rightarrow> boot \<Rightarrow> boot" where
  "create_global name err env b =
     (if task_created env then task_started name (b\<lparr> task_handle := True \<rparr>)
      else if err = [] then b else logged err b)"

definition create_local :: "string \<Rightarrow> string \<Rightarrow> start_env \<Rightarrow> boot \<Rightarrow> boot" where
  "create_local name err env b = (if task_created env then task_started name b else logged err b)"

section \<open>Examples that start once\<close>

locale started_once =
  fixes init :: "start_env \<Rightarrow> boot \<Rightarrow> boot" and name :: string
  assumes starts: "\<not> task_handle b \<Longrightarrow> task_created env \<Longrightarrow>
      task_handle (init env b) \<and> task_names (init env b) = task_names b @ [name]"
    and fails: "\<not> task_handle b \<Longrightarrow> \<not> task_created env \<Longrightarrow>
      \<not> task_handle (init env b) \<and> task_names (init env b) = task_names b"
    and again: "task_handle b \<Longrightarrow> task_handle (init env b) \<and> task_names (init env b) = task_names b"
begin

lemma running: "task_handle b \<Longrightarrow>
  task_handle (fold init envs b) \<and> task_names (fold init envs b) = task_names b"
  by (induction envs arbitrary: b) (auto simp: again)

text \<open>However often the function is called: the task is started by the first call whose creation
  succeeds, and not again.\<close>

lemma one_task:
  "\<not> task_handle b \<Longrightarrow>
   task_names (fold init envs b) = task_names b @ (if \<exists>e\<in>set envs. task_created e then [name] else [])"
proof (induction envs arbitrary: b)
  case Nil
  then show ?case by simp
next
  case (Cons e es)
  show ?case
  proof (cases "task_created e")
    case True
    with starts [OF Cons.prems True] running [of "init e b" es] show ?thesis by simp
  next
    case False
    with fails [OF Cons.prems False] Cons.IH [of "init e b"] show ?thesis by simp
  qed
qed

end

definition guarded :: "string \<Rightarrow> string \<Rightarrow> start_env \<Rightarrow> boot \<Rightarrow> boot" where
  "guarded name err env b = (if \<not> task_handle b then create_global name err env b else b)"

lemma guarded_once: "started_once (guarded name err) name"
  by unfold_locales (auto simp: guarded_def create_global_def task_started_def logged_def)

definition unir_usbnet_demo_init :: "start_env \<Rightarrow> boot \<Rightarrow> boot" where
  "unir_usbnet_demo_init = guarded ''usbnet_demo'' ''USBNET demo init task create error''"

definition unir_qvsim_demo_init :: "start_env \<Rightarrow> boot \<Rightarrow> boot" where
  "unir_qvsim_demo_init = guarded ''qvsim_demo'' ''qvsim_demo_init task create error''"

definition quec_gpio_demo_init :: "start_env \<Rightarrow> boot \<Rightarrow> boot" where
  "quec_gpio_demo_init = guarded ''gpio_demo'' ''''"

definition quec_spi_demo_init :: "start_env \<Rightarrow> boot \<Rightarrow> boot" where
  "quec_spi_demo_init = guarded ''spi_demo'' ''''"

definition quec_uart_demo_init :: "start_env \<Rightarrow> boot \<Rightarrow> boot" where
  "quec_uart_demo_init = guarded ''uart_demo'' ''''"

definition unir_ftp_fota_demo_init :: "start_env \<Rightarrow> boot \<Rightarrow> boot" where
  "unir_ftp_fota_demo_init = guarded ''ftp_fota_demo'' ''''"

definition unir_http_fota_demo_init :: "start_env \<Rightarrow> boot \<Rightarrow> boot" where
  "unir_http_fota_demo_init = guarded ''http_fota_demo'' ''''"

definition unir_pwrkey_demo_init :: "start_env \<Rightarrow> boot \<Rightarrow> boot" where
  "unir_pwrkey_demo_init = guarded ''power_demo'' ''''"

text \<open>The configuration before it is a function of the library.\<close>

definition unir_easy_sms_demo_init :: "start_env \<Rightarrow> boot \<Rightarrow> boot" where
  "unir_easy_sms_demo_init = guarded ''easy_sms_demo'' ''SMS easy demo init task create error''"

text \<open>The display reports success without looking at the result.\<close>

definition quec_lcd_demo_init :: "start_env \<Rightarrow> boot \<Rightarrow> boot" where
  "quec_lcd_demo_init env b =
     (if \<not> task_handle b
      then logged ''LCD demonstration task created successfully'' (create_global ''lcd_demo'' '''' env b)
      else logged ''LCD demonstration task already exists'' b)"

definition unir_memory_demo_init :: "start_env \<Rightarrow> boot \<Rightarrow> boot" where
  "unir_memory_demo_init env b =
     (if task_handle b then logged ''memory demo task already created'' b
      else create_global ''memory_demo'' ''create memory demo task failed'' env b)"

definition system_time_demo_init :: "start_env \<Rightarrow> boot \<Rightarrow> boot" where
  "system_time_demo_init env b =
     (if task_handle b then logged ''system time demo task already created'' b
      else create_global ''sys_time_demo'' ''create system time demo task failed'' env b)"

interpretation usbnet_start: started_once unir_usbnet_demo_init "''usbnet_demo''"
  unfolding unir_usbnet_demo_init_def by (rule guarded_once)

interpretation qvsim_start: started_once unir_qvsim_demo_init "''qvsim_demo''"
  unfolding unir_qvsim_demo_init_def by (rule guarded_once)

interpretation gpio_start: started_once quec_gpio_demo_init "''gpio_demo''"
  unfolding quec_gpio_demo_init_def by (rule guarded_once)

interpretation spi_start: started_once quec_spi_demo_init "''spi_demo''"
  unfolding quec_spi_demo_init_def by (rule guarded_once)

interpretation uart_start: started_once quec_uart_demo_init "''uart_demo''"
  unfolding quec_uart_demo_init_def by (rule guarded_once)

interpretation ftp_fota_start: started_once unir_ftp_fota_demo_init "''ftp_fota_demo''"
  unfolding unir_ftp_fota_demo_init_def by (rule guarded_once)

interpretation http_fota_start: started_once unir_http_fota_demo_init "''http_fota_demo''"
  unfolding unir_http_fota_demo_init_def by (rule guarded_once)

interpretation power_start: started_once unir_pwrkey_demo_init "''power_demo''"
  unfolding unir_pwrkey_demo_init_def by (rule guarded_once)

interpretation easy_sms_start: started_once unir_easy_sms_demo_init "''easy_sms_demo''"
  unfolding unir_easy_sms_demo_init_def by (rule guarded_once)

interpretation lcd_start: started_once quec_lcd_demo_init "''lcd_demo''"
  by unfold_locales (auto simp: quec_lcd_demo_init_def create_global_def task_started_def logged_def)

interpretation memory_start: started_once unir_memory_demo_init "''memory_demo''"
  by unfold_locales (auto simp: unir_memory_demo_init_def create_global_def task_started_def logged_def)

interpretation time_start: started_once system_time_demo_init "''sys_time_demo''"
  by unfold_locales (auto simp: system_time_demo_init_def create_global_def task_started_def logged_def)

lemma display_reports_success_anyway:
  "boot_log (quec_lcd_demo_init \<lparr>queue_created = q, task_created = False, block_allocated = a\<rparr> boot_zero) =
     [''LCD demonstration task created successfully'']"
  by (simp add: quec_lcd_demo_init_def create_global_def boot_zero_def logged_def)

section \<open>Examples that start a task at every call\<close>

definition unir_qurl_http_post_demo_init :: "start_env \<Rightarrow> boot \<Rightarrow> boot" where
  "unir_qurl_http_post_demo_init = create_local ''http_post_demo'' ''task create error''"

definition unir_mqtt_demo_init :: "start_env \<Rightarrow> boot \<Rightarrow> boot" where
  "unir_mqtt_demo_init = create_local ''mqtt_demo'' ''task create error''"

definition unir_mqtt5_demo_init :: "start_env \<Rightarrow> boot \<Rightarrow> boot" where
  "unir_mqtt5_demo_init = create_local ''mqtt_demo'' ''task create error''"

definition my_socket_block_demo_init :: "start_env \<Rightarrow> boot \<Rightarrow> boot" where
  "my_socket_block_demo_init = create_local ''app_block'' ''app_task task create error''"

definition quec_web_demo_init :: "start_env \<Rightarrow> boot \<Rightarrow> boot" where
  "quec_web_demo_init = create_local ''web_demo'' ''task create error''"

definition unir_vfs_demo_init :: "start_env \<Rightarrow> boot \<Rightarrow> boot" where
  "unir_vfs_demo_init = create_local ''vfs_demo'' ''task create error''"

text \<open>These have a global handle, but do not test it.\<close>

definition datacall_demo_init :: "start_env \<Rightarrow> boot \<Rightarrow> boot" where
  "datacall_demo_init = create_global ''QDATACALLDEMO'' ''datacall_demo task create error''"

definition unir_network_demo_init :: "start_env \<Rightarrow> boot \<Rightarrow> boot" where
  "unir_network_demo_init = create_global ''QNWDEMO'' ''nw demo task create error''"

definition unir_gnss_demo_init :: "start_env \<Rightarrow> boot \<Rightarrow> boot" where
  "unir_gnss_demo_init = create_global ''gnss_demo'' ''app_task task create error''"

text \<open>The HTTP download allocates its context first and keeps it when the task cannot be created; the next
  call finds it.\<close>

definition unir_qurl_http_get_demo_init :: "start_env \<Rightarrow> boot \<Rightarrow> boot" where
  "unir_qurl_http_get_demo_init env b =
     (if \<not> context_block b \<and> \<not> block_allocated env then logged ''http demo malloc error'' b
      else create_local ''http_demo'' ''task create error'' env (b\<lparr> context_block := True \<rparr>))"

text \<open>A second call starts a second task on the same global state.\<close>

definition starts_again :: "(start_env \<Rightarrow> boot \<Rightarrow> boot) \<Rightarrow> bool" where
  "starts_again init \<longleftrightarrow>
     (\<forall>env b. task_created env \<longrightarrow> block_allocated env \<longrightarrow> length (task_names (init env (init env b))) = length (task_names b) + 2)"

lemma second_call_second_task:
  "\<forall>init \<in> {unir_qurl_http_post_demo_init, unir_mqtt_demo_init, unir_mqtt5_demo_init, my_socket_block_demo_init,
      quec_web_demo_init, unir_vfs_demo_init, datacall_demo_init, unir_network_demo_init, unir_gnss_demo_init,
      unir_qurl_http_get_demo_init}. starts_again init"
  by (auto simp: starts_again_def create_local_def create_global_def task_started_def
      unir_qurl_http_post_demo_init_def unir_mqtt_demo_init_def unir_mqtt5_demo_init_def my_socket_block_demo_init_def
      quec_web_demo_init_def unir_vfs_demo_init_def datacall_demo_init_def unir_network_demo_init_def
      unir_gnss_demo_init_def unir_qurl_http_get_demo_init_def)

section \<open>A queue and a task\<close>

text \<open>The queue is deleted again when the task cannot be created; its handle keeps the old value.\<close>

definition create_queue :: "boot \<Rightarrow> boot" where
  "create_queue b =
     b\<lparr> queue_handle := Some (made_queues b), live_queues := live_queues b @ [made_queues b], made_queues := Suc (made_queues b) \<rparr>"

definition delete_queue :: "boot \<Rightarrow> boot" where
  "delete_queue b =
     (case queue_handle b of None \<Rightarrow> b | Some q \<Rightarrow> b\<lparr> live_queues := removeAll q (live_queues b) \<rparr>)"

definition unir_qcm_socket_noblock_demo_init :: "start_env \<Rightarrow> boot \<Rightarrow> boot" where
  "unir_qcm_socket_noblock_demo_init env b =
     (if \<not> queue_created env then logged ''qosa_msgq_create error'' b
      else
        let b = create_queue b in
        if task_created env then task_started ''socket_app_task'' b
        else logged ''task create error'' (delete_queue b))"

definition unir_qcm_socket_server_nonblock_demo_init :: "start_env \<Rightarrow> boot \<Rightarrow> boot" where
  "unir_qcm_socket_server_nonblock_demo_init env b =
     (if \<not> queue_created env then logged ''qosa_msgq_create error'' b
      else
        let b = create_queue b in
        if task_created env then logged ''Server task created successfully'' (task_started ''tcp_server_nb'' b)
        else delete_queue (logged ''Failed to create server task: err=%d'' b))"

text \<open>Queues that exist are distinct, were made, and there is one for each task.\<close>

definition boot_inv :: "boot \<Rightarrow> bool" where
  "boot_inv b \<longleftrightarrow> length (live_queues b) = length (task_names b) \<and> (\<forall>q\<in>set (live_queues b). q < made_queues b)"

lemma create_delete: "boot_inv b \<Longrightarrow> live_queues (delete_queue (create_queue b)) = live_queues b"
  by (auto simp: boot_inv_def create_queue_def delete_queue_def removeAll_id)

lemma delete_queue_frame [simp]:
  "task_names (delete_queue b) = task_names b" "made_queues (delete_queue b) = made_queues b"
  by (auto simp: delete_queue_def split: option.split)

lemma delete_queue_logged: "delete_queue (logged t b) = logged t (delete_queue b)"
  by (auto simp: delete_queue_def logged_def split: option.split)

lemma logged_frame [simp]:
  "task_names (logged t b) = task_names b" "live_queues (logged t b) = live_queues b" "made_queues (logged t b) = made_queues b"
  by (simp_all add: logged_def)

lemma create_queue_frame [simp]:
  "task_names (create_queue b) = task_names b" "made_queues (create_queue b) = Suc (made_queues b)"
  "live_queues (create_queue b) = live_queues b @ [made_queues b]"
  by (simp_all add: create_queue_def)

lemma task_started_frame [simp]:
  "task_names (task_started n b) = task_names b @ [n]" "made_queues (task_started n b) = made_queues b"
  "live_queues (task_started n b) = live_queues b"
  by (simp_all add: task_started_def)

lemma noblock_init_inv: "boot_inv b \<Longrightarrow> boot_inv (unir_qcm_socket_noblock_demo_init env b)"
  using create_delete [of b]
  by (auto simp: boot_inv_def unir_qcm_socket_noblock_demo_init_def Let_def)

lemma server_init_inv: "boot_inv b \<Longrightarrow> boot_inv (unir_qcm_socket_server_nonblock_demo_init env b)"
  using create_delete [of b]
  by (auto simp: boot_inv_def unir_qcm_socket_server_nonblock_demo_init_def delete_queue_logged Let_def)

text \<open>Whatever the kernel answers, over any number of starts no queue is left behind without its
  task.\<close>

theorem sockets_leave_no_queue:
  "length (live_queues (fold unir_qcm_socket_noblock_demo_init envs boot_zero)) =
     length (task_names (fold unir_qcm_socket_noblock_demo_init envs boot_zero)) \<and>
   length (live_queues (fold unir_qcm_socket_server_nonblock_demo_init envs boot_zero)) =
     length (task_names (fold unir_qcm_socket_server_nonblock_demo_init envs boot_zero))"
proof -
  have run: "boot_inv (fold f envs b)" if "\<And>e b. boot_inv b \<Longrightarrow> boot_inv (f e b)" "boot_inv b" for f b
    using that by (induction envs arbitrary: b) auto
  have "boot_inv boot_zero" by (simp add: boot_inv_def boot_zero_def)
  then show ?thesis using run noblock_init_inv server_init_inv unfolding boot_inv_def by blast
qed

end
